(* ===== verification/Prelude.thy ===== *)
theory Prelude
  imports Main "HOL-Library.AList" "HOL-Library.Sublist" "HOL-Library.Multiset"
begin

text \<open>
  The shared base of the development: the error values of the program and \<open>errors.Is\<close>, Go maps as
  association lists, and a small state-and-error monad with its Hoare rules, in which the code that
  threads state through many calls and returns early on errors is written.
\<close>

named_theorems gomap \<open>lookup and well-formedness facts of Go maps\<close>
named_theorems gostr \<open>facts of the string functions\<close>
named_theorems hoare \<open>rules for triples about the state-and-error monad\<close>

section \<open>Errors\<close>

text \<open>
  The sentinel errors of the packages (\<open>repo.go\<close>, \<open>recipe.go\<close>, \<open>store.go\<close>, \<open>session.go\<close>,
  \<open>client.go\<close>), an error made by \<open>errors.New\<close> or \<open>fmt.Errorf\<close> with its text, and an error that wraps
  another one with the verb \<open>%w\<close> (the text in front of the wrapped error).
\<close>

datatype error =
    ErrInvalidRef | ErrRepoNotFound | ErrPrivate | ErrTooLarge | ErrRateLimit
  | ErrNoMatch
  | ErrStoreNotFound
  | ErrLimited | ErrSessionBusy | ErrNotLive | ErrAlreadyExtnd
  | ErrSandboxBusy | ErrSandboxNotFound
  | Errorf string
  | Wrapf string error

text \<open>\<open>errors.Is\<close>: the error itself, or one it wraps.\<close>

fun errors_Is :: "error \<Rightarrow> error \<Rightarrow> bool" where
  "errors_Is (Wrapf t e) target = (Wrapf t e = target \<or> errors_Is e target)"
| "errors_Is e target = (e = target)"

text \<open>The method \<open>Error()\<close>: the text of an error.\<close>

fun error_text :: "error \<Rightarrow> string" where
  "error_text ErrInvalidRef = ''repo: not a GitHub repository reference''"
| "error_text ErrRepoNotFound = ''repo: repository not found''"
| "error_text ErrPrivate = ''repo: repository is private''"
| "error_text ErrTooLarge = ''repo: repository is too large''"
| "error_text ErrRateLimit = ''repo: GitHub rate limit reached''"
| "error_text ErrNoMatch = ''recipe: no detector matched''"
| "error_text ErrStoreNotFound = ''store: not found''"
| "error_text ErrLimited = ''session: too many live sessions for this device''"
| "error_text ErrSessionBusy = ''session: capacity is full''"
| "error_text ErrNotLive = ''session: sandbox is not live''"
| "error_text ErrAlreadyExtnd = ''session: already extended''"
| "error_text ErrSandboxBusy = ''sandbox: platform busy''"
| "error_text ErrSandboxNotFound = ''sandbox: not found''"
| "error_text (Errorf t) = t"
| "error_text (Wrapf t e) = t @ '': '' @ error_text e"

type_synonym 'a result = "error + 'a"

lemma errors_Is_refl [simp]: "errors_Is e e"
  by (cases e) auto

section \<open>Go maps\<close>

text \<open>
  A Go map is an association list with distinct keys. Looking up is \<^const>\<open>map_of\<close>, storing is
  \<^const>\<open>AList.update\<close>, deleting is \<^const>\<open>AList.delete\<close>. A \<open>range\<close> loop visits the entries in an
  order the language leaves open; here it is the order of the list, and the lemmas about such loops
  show that the result is the same for every permutation of the list.
\<close>

type_synonym ('k, 'v) gomap = "('k \<times> 'v) list"

definition wf_map :: "('k, 'v) gomap \<Rightarrow> bool" where
  "wf_map m \<longleftrightarrow> distinct (map fst m)"

abbreviation map_put :: "'k \<Rightarrow> 'v \<Rightarrow> ('k, 'v) gomap \<Rightarrow> ('k, 'v) gomap" where
  "map_put \<equiv> AList.update"

abbreviation map_del :: "'k \<Rightarrow> ('k, 'v) gomap \<Rightarrow> ('k, 'v) gomap" where
  "map_del \<equiv> AList.delete"

lemma wf_map_Nil [simp, gomap]: "wf_map []"
  by (simp add: wf_map_def)

lemma wf_map_put [simp, gomap]: "wf_map m \<Longrightarrow> wf_map (map_put k v m)"
  by (simp add: wf_map_def distinct_update)

lemma wf_map_del [simp, gomap]: "wf_map m \<Longrightarrow> wf_map (map_del k m)"
  by (simp add: wf_map_def distinct_delete)

lemma map_of_put [simp, gomap]: "map_of (map_put k v m) = (map_of m)(k \<mapsto> v)"
  by (simp add: update_conv')

lemma map_of_del [simp, gomap]: "map_of (map_del k m) = (map_of m)(k := None)"
  by (simp add: delete_conv')

lemma wf_map_in_iff: "wf_map m \<Longrightarrow> (k, v) \<in> set m \<longleftrightarrow> map_of m k = Some v"
  by (simp add: wf_map_def)

lemma wf_map_perm: "mset m' = mset m \<Longrightarrow> wf_map m' = wf_map m"
  unfolding wf_map_def by (metis mset_eq_imp_distinct_iff mset_map)

lemma map_of_perm: "wf_map m \<Longrightarrow> mset m' = mset m \<Longrightarrow> map_of m' = map_of m"
  by (metis map_of_inject_set mset_eq_setD wf_map_def wf_map_perm)

lemma map_put_fresh: "map_of m k = None \<Longrightarrow> map_put k v m = m @ [(k, v)]"
  by (induction m) (auto split: if_splits)

lemma map_put_split:
  "map_of m k = Some v \<Longrightarrow>
    \<exists>xs ys. m = xs @ (k, v) # ys \<and> k \<notin> fst ` set xs \<and> map_put k w m = xs @ (k, w) # ys"
proof (induction m)
  case Nil
  then show ?case by simp
next
  case (Cons p m)
  obtain k' v' where p: "p = (k', v')" by (cases p)
  show ?case
  proof (cases "k' = k")
    case True
    with Cons.prems p have "p # m = [] @ (k, v) # m \<and> map_put k w (p # m) = [] @ (k, w) # m"
      by simp
    then show ?thesis by (metis empty_iff image_empty list.set(1))
  next
    case False
    with Cons p obtain xs ys where "m = xs @ (k, v) # ys" "k \<notin> fst ` set xs"
      "map_put k w m = xs @ (k, w) # ys" by auto
    with False p have "p # m = (p # xs) @ (k, v) # ys \<and> k \<notin> fst ` set (p # xs) \<and>
      map_put k w (p # m) = (p # xs) @ (k, w) # ys" by simp
    then show ?thesis by blast
  qed
qed

section \<open>State and errors\<close>

text \<open>
  A step of the program on a state \<open>'s\<close>: the value it returns, or the way it left early, and the
  state after it.
\<close>

type_synonym ('s, 'e, 'a) action = "'s \<Rightarrow> ('e + 'a) \<times> 's"

definition returnS :: "'a \<Rightarrow> ('s, 'e, 'a) action" where
  "returnS x s = (Inr x, s)"

definition throwS :: "'e \<Rightarrow> ('s, 'e, 'a) action" where
  "throwS e s = (Inl e, s)"

definition bindS :: "('s, 'e, 'a) action \<Rightarrow> ('a \<Rightarrow> ('s, 'e, 'b) action) \<Rightarrow> ('s, 'e, 'b) action" where
  "bindS f g s = (case f s of (Inl e, s') \<Rightarrow> (Inl e, s') | (Inr x, s') \<Rightarrow> g x s')"

definition thenS :: "('s, 'e, 'a) action \<Rightarrow> ('s, 'e, 'b) action \<Rightarrow> ('s, 'e, 'b) action" where
  "thenS f g = bindS f (\<lambda>_. g)"

definition modifyS :: "('s \<Rightarrow> 's) \<Rightarrow> ('s, 'e, unit) action" where
  "modifyS h s = (Inr (), h s)"

definition getS :: "('s \<Rightarrow> 'a) \<Rightarrow> ('s, 'e, 'a) action" where
  "getS h s = (Inr (h s), s)"

text \<open>
  \<open>valid P f Q E\<close>: from a state with \<open>P\<close>, a normal return of \<open>f\<close> satisfies \<open>Q\<close> (of the value and
  the state) and an early one \<open>E\<close>.
\<close>

definition valid ::
  "('s \<Rightarrow> bool) \<Rightarrow> ('s, 'e, 'a) action \<Rightarrow> ('a \<Rightarrow> 's \<Rightarrow> bool) \<Rightarrow> ('e \<Rightarrow> 's \<Rightarrow> bool) \<Rightarrow> bool" where
  "valid P f Q E \<longleftrightarrow>
    (\<forall>s. P s \<longrightarrow> (case f s of (Inl e, s') \<Rightarrow> E e s' | (Inr x, s') \<Rightarrow> Q x s'))"

lemma validI: "(\<And>s. P s \<Longrightarrow> case f s of (Inl e, s') \<Rightarrow> E e s' | (Inr x, s') \<Rightarrow> Q x s') \<Longrightarrow> valid P f Q E"
  by (simp add: valid_def)

lemma valid_Inr: "valid P f Q E \<Longrightarrow> P s \<Longrightarrow> f s = (Inr x, s') \<Longrightarrow> Q x s'"
  by (auto simp: valid_def dest!: spec [of _ s])

lemma valid_Inl: "valid P f Q E \<Longrightarrow> P s \<Longrightarrow> f s = (Inl e, s') \<Longrightarrow> E e s'"
  by (auto simp: valid_def dest!: spec [of _ s])

lemma valid_return [hoare]: "valid (\<lambda>s. Q x s) (returnS x) Q E"
  by (simp add: valid_def returnS_def)

lemma valid_throw [hoare]: "valid (\<lambda>s. E e s) (throwS e) Q E"
  by (simp add: valid_def throwS_def)

lemma valid_modify [hoare]: "valid (\<lambda>s. Q () (h s)) (modifyS h) Q E"
  by (simp add: valid_def modifyS_def)

lemma valid_get [hoare]: "valid (\<lambda>s. Q (h s) s) (getS h) Q E"
  by (simp add: valid_def getS_def)

lemma valid_bind [hoare]:
  "valid P f R E \<Longrightarrow> (\<And>x. valid (R x) (g x) Q E) \<Longrightarrow> valid P (bindS f g) Q E"
  unfolding valid_def bindS_def by (auto split: prod.splits sum.splits) fastforce+

lemma valid_then [hoare]:
  "valid P f (\<lambda>_. R) E \<Longrightarrow> valid R g Q E \<Longrightarrow> valid P (thenS f g) Q E"
  unfolding thenS_def by (rule valid_bind)

lemma valid_weaken:
  "valid P' f Q' E' \<Longrightarrow> (\<And>s. P s \<Longrightarrow> P' s) \<Longrightarrow> (\<And>x s. Q' x s \<Longrightarrow> Q x s) \<Longrightarrow>
    (\<And>e s. E' e s \<Longrightarrow> E e s) \<Longrightarrow> valid P f Q E"
  unfolding valid_def by (fastforce split: prod.splits sum.splits)

lemma valid_pre: "valid P' f Q E \<Longrightarrow> (\<And>s. P s \<Longrightarrow> P' s) \<Longrightarrow> valid P f Q E"
  by (rule valid_weaken)

lemma valid_if [hoare]:
  "(b \<Longrightarrow> valid P f Q E) \<Longrightarrow> (\<not> b \<Longrightarrow> valid P g Q E) \<Longrightarrow> valid P (if b then f else g) Q E"
  by simp

lemma valid_case_sum [hoare]:
  "(\<And>e. r = Inl e \<Longrightarrow> valid P (f e) Q E) \<Longrightarrow> (\<And>x. r = Inr x \<Longrightarrow> valid P (g x) Q E) \<Longrightarrow>
    valid P (case r of Inl e \<Rightarrow> f e | Inr x \<Rightarrow> g x) Q E"
  by (cases r) auto

lemma valid_case_option [hoare]:
  "(r = None \<Longrightarrow> valid P f Q E) \<Longrightarrow> (\<And>x. r = Some x \<Longrightarrow> valid P (g x) Q E) \<Longrightarrow>
    valid P (case r of None \<Rightarrow> f | Some x \<Rightarrow> g x) Q E"
  by (cases r) auto

section \<open>Invariants\<close>

text \<open>A predicate on states that a step keeps, however the step ends.\<close>

named_theorems keep \<open>rules for invariants of the state-and-error monad\<close>

definition keeps :: "('s \<Rightarrow> bool) \<Rightarrow> ('s, 'e, 'a) action \<Rightarrow> bool" where
  "keeps I f \<longleftrightarrow> (\<forall>s. I s \<longrightarrow> I (snd (f s)))"

lemma keepsI: "(\<And>s. I s \<Longrightarrow> I (snd (f s))) \<Longrightarrow> keeps I f"
  by (simp add: keeps_def)

lemma keepsD: "keeps I f \<Longrightarrow> I s \<Longrightarrow> I (snd (f s))"
  by (simp add: keeps_def)

lemma keeps_valid: "keeps I f \<longleftrightarrow> valid I f (\<lambda>_. I) (\<lambda>_. I)"
  by (auto simp: keeps_def valid_def split: prod.splits sum.splits) (metis snd_conv surj_pair sumE)+

lemma keeps_return [keep]: "keeps I (returnS x)"
  by (simp add: keeps_def returnS_def)

lemma keeps_throw [keep]: "keeps I (throwS e)"
  by (simp add: keeps_def throwS_def)

lemma keeps_get [keep]: "keeps I (getS h)"
  by (simp add: keeps_def getS_def)

lemma keeps_modify: "(\<And>s. I s \<Longrightarrow> I (h s)) \<Longrightarrow> keeps I (modifyS h)"
  by (simp add: keeps_def modifyS_def)

lemma keeps_bind [keep]: "keeps I f \<Longrightarrow> (\<And>x. keeps I (g x)) \<Longrightarrow> keeps I (bindS f g)"
  by (simp add: keeps_def bindS_def split: prod.splits sum.splits) (metis snd_conv)

lemma keeps_then [keep]: "keeps I f \<Longrightarrow> keeps I g \<Longrightarrow> keeps I (thenS f g)"
  by (simp add: thenS_def keeps_bind)

lemma keeps_if [keep]: "(b \<Longrightarrow> keeps I f) \<Longrightarrow> (\<not> b \<Longrightarrow> keeps I g) \<Longrightarrow> keeps I (if b then f else g)"
  by simp

lemma keeps_case_sum [keep]:
  "(\<And>e. keeps I (f e)) \<Longrightarrow> (\<And>x. keeps I (g x)) \<Longrightarrow> keeps I (case r of Inl e \<Rightarrow> f e | Inr x \<Rightarrow> g x)"
  by (cases r) auto

lemma keeps_case_option [keep]:
  "keeps I f \<Longrightarrow> (\<And>x. keeps I (g x)) \<Longrightarrow> keeps I (case r of None \<Rightarrow> f | Some x \<Rightarrow> g x)"
  by (cases r) auto

lemma keeps_case_prod [keep]: "(\<And>x y. keeps I (f x y)) \<Longrightarrow> keeps I (case p of (x, y) \<Rightarrow> f x y)"
  by (cases p) auto

lemma keeps_let [keep]: "keeps I (f x) \<Longrightarrow> keeps I (let y = x in f y)"
  by simp

lemma valid_keeps_bind:
  "keeps I f \<Longrightarrow> (\<And>x. valid I (g x) Q (\<lambda>_. I)) \<Longrightarrow> valid I (bindS f g) Q (\<lambda>_. I)"
  unfolding keeps_valid by (rule valid_bind)

lemma valid_keeps_then:
  "keeps I f \<Longrightarrow> valid I g Q (\<lambda>_. I) \<Longrightarrow> valid I (thenS f g) Q (\<lambda>_. I)"
  unfolding thenS_def by (rule valid_keeps_bind)

lemma valid_return_I: "R x \<Longrightarrow> valid I (returnS x) (\<lambda>y s. I s \<and> R y) E"
  by (simp add: valid_def returnS_def)

lemma valid_throw_I: "valid I (throwS e) Q (\<lambda>_. I)"
  by (simp add: valid_def throwS_def)

lemma valid_bind_values:
  assumes "valid I f (\<lambda>x s. I s \<and> R x) (\<lambda>_. I)" and "\<And>x. R x \<Longrightarrow> valid I (g x) Q (\<lambda>_. I)"
  shows "valid I (bindS f g) Q (\<lambda>_. I)"
proof (rule valid_bind [OF assms(1)])
  fix x
  show "valid (\<lambda>s. I s \<and> R x) (g x) Q (\<lambda>_. I)"
  proof (cases "R x")
    case True
    then show ?thesis by (rule valid_pre [OF assms(2)]) simp
  qed (simp add: valid_def)
qed

lemma valid_bind_value:
  "valid I f (\<lambda>x s. I s \<and> R x) (\<lambda>_. I) \<Longrightarrow> (\<And>x. R x \<Longrightarrow> keeps I (g x)) \<Longrightarrow> keeps I (bindS f g)"
  unfolding keeps_valid by (rule valid_bind_values)

section \<open>Early exits\<close>

text \<open>All the ways in which a step can leave early satisfy \<open>P\<close>.\<close>

named_theorems raise \<open>rules for the early exits of the state-and-error monad\<close>

definition raises :: "('e \<Rightarrow> bool) \<Rightarrow> ('s, 'e, 'a) action \<Rightarrow> bool" where
  "raises P f \<longleftrightarrow> (\<forall>s e. fst (f s) = Inl e \<longrightarrow> P e)"

lemma raisesD: "raises P f \<Longrightarrow> f s = (Inl e, s') \<Longrightarrow> P e"
  by (auto simp: raises_def) (metis fst_conv)

lemma raises_return [raise]: "raises P (returnS x)"
  by (simp add: raises_def returnS_def)

lemma raises_throw [raise]: "P e \<Longrightarrow> raises P (throwS e)"
  by (simp add: raises_def throwS_def)

lemma raises_get [raise]: "raises P (getS h)"
  by (simp add: raises_def getS_def)

lemma raises_modify [raise]: "raises P (modifyS h)"
  by (simp add: raises_def modifyS_def)

lemma raises_bind [raise]: "raises P f \<Longrightarrow> (\<And>x. raises P (g x)) \<Longrightarrow> raises P (bindS f g)"
  by (simp add: raises_def bindS_def split: prod.splits sum.splits) (metis fst_conv)

lemma raises_then [raise]: "raises P f \<Longrightarrow> raises P g \<Longrightarrow> raises P (thenS f g)"
  by (simp add: thenS_def raises_bind)

lemma raises_if [raise]: "(b \<Longrightarrow> raises P f) \<Longrightarrow> (\<not> b \<Longrightarrow> raises P g) \<Longrightarrow> raises P (if b then f else g)"
  by simp

lemma raises_case_sum [raise]:
  "(\<And>e. raises P (f e)) \<Longrightarrow> (\<And>x. raises P (g x)) \<Longrightarrow> raises P (case r of Inl e \<Rightarrow> f e | Inr x \<Rightarrow> g x)"
  by (cases r) auto

lemma raises_case_option [raise]:
  "raises P f \<Longrightarrow> (\<And>x. raises P (g x)) \<Longrightarrow> raises P (case r of None \<Rightarrow> f | Some x \<Rightarrow> g x)"
  by (cases r) auto

lemma raises_case_prod [raise]: "(\<And>x y. raises P (f x y)) \<Longrightarrow> raises P (case p of (x, y) \<Rightarrow> f x y)"
  by (cases p) auto

lemma raises_let [raise]: "raises P (f x) \<Longrightarrow> raises P (let y = x in f y)"
  by simp

end
