(* ===== verification/Go_Strings.thy ===== *)
theory Go_Strings
  imports Prelude
begin

text \<open>
  What the program uses of Go's packages \<open>strings\<close>, \<open>strconv\<close> and \<open>fmt\<close>. A Go string is a sequence
  of bytes, and \<^typ>\<open>char\<close> is a byte, so \<^typ>\<open>string\<close> is exactly Go's type. A result \<open>-1\<close> of an index
  function is \<^const>\<open>None\<close>. White space is what \<open>unicode.IsSpace\<close> says, by its UTF-8 encodings.
\<close>

section \<open>Prefixes, suffixes, searching\<close>

definition HasPrefix :: "string \<Rightarrow> string \<Rightarrow> bool" where
  "HasPrefix s p = prefix p s"

definition HasSuffix :: "string \<Rightarrow> string \<Rightarrow> bool" where
  "HasSuffix s p = suffix p s"

definition TrimPrefix :: "string \<Rightarrow> string \<Rightarrow> string" where
  "TrimPrefix s p = (if HasPrefix s p then drop (length p) s else s)"

definition TrimSuffix :: "string \<Rightarrow> string \<Rightarrow> string" where
  "TrimSuffix s p = (if HasSuffix s p then take (length s - length p) s else s)"

fun Index :: "string \<Rightarrow> string \<Rightarrow> nat option" where
  "Index [] p = (if p = [] then Some 0 else None)"
| "Index (c # s) p = (if HasPrefix (c # s) p then Some 0 else map_option Suc (Index s p))"

definition Contains :: "string \<Rightarrow> string \<Rightarrow> bool" where
  "Contains s p = (Index s p \<noteq> None)"

definition ContainsAny :: "string \<Rightarrow> string \<Rightarrow> bool" where
  "ContainsAny s chars = list_ex (\<lambda>c. c \<in> set chars) s"

fun LastIndexByte :: "char \<Rightarrow> string \<Rightarrow> nat option" where
  "LastIndexByte c [] = None"
| "LastIndexByte c (x # s) =
    (case LastIndexByte c s of
       Some i \<Rightarrow> Some (Suc i)
     | None \<Rightarrow> if x = c then Some 0 else None)"

fun IndexAny :: "string \<Rightarrow> string \<Rightarrow> nat option" where
  "IndexAny [] chars = None"
| "IndexAny (x # s) chars = (if x \<in> set chars then Some 0 else map_option Suc (IndexAny s chars))"

fun LastIndexAny :: "string \<Rightarrow> string \<Rightarrow> nat option" where
  "LastIndexAny [] chars = None"
| "LastIndexAny (x # s) chars =
    (case LastIndexAny s chars of
       Some i \<Rightarrow> Some (Suc i)
     | None \<Rightarrow> if x \<in> set chars then Some 0 else None)"

lemma HasPrefix_app [simp, gostr]: "HasPrefix (p @ s) p"
  by (simp add: HasPrefix_def)

lemma HasSuffix_app [simp, gostr]: "HasSuffix (s @ p) p"
  by (simp add: HasSuffix_def suffix_def)

lemma TrimPrefix_app [simp, gostr]: "TrimPrefix (p @ s) p = s"
  by (simp add: TrimPrefix_def)

lemma TrimSuffix_app [simp, gostr]: "TrimSuffix (s @ p) p = s"
  by (simp add: TrimSuffix_def)

lemma TrimSuffix_id: "\<not> HasSuffix s p \<Longrightarrow> TrimSuffix s p = s"
  by (simp add: TrimSuffix_def)

lemma TrimSuffix_prefix: "prefix (TrimSuffix s p) s"
  by (simp add: TrimSuffix_def take_is_prefix)

lemma set_TrimSuffix: "set (TrimSuffix s p) \<subseteq> set s"
  by (auto simp: TrimSuffix_def dest: in_set_takeD)

lemma Index_None_iff: "Index s p = None \<longleftrightarrow> \<not> sublist p s"
  by (induction s) (auto simp: HasPrefix_def sublist_Cons_right)

lemma Contains_iff [gostr]: "Contains s p \<longleftrightarrow> sublist p s"
  using Index_None_iff by (simp add: Contains_def)

lemma Contains_byte: "Contains s [c] \<longleftrightarrow> c \<in> set s"
  unfolding Contains_iff sublist_def by (metis append_Cons append_Nil in_set_conv_decomp)

lemma Index_Some: "Index s p = Some i \<Longrightarrow> \<exists>y. s = take i s @ p @ y \<and> i + length p \<le> length s"
proof (induction s arbitrary: i)
  case Nil
  then show ?case by (auto split: if_splits)
next
  case (Cons c s)
  show ?case
  proof (cases "HasPrefix (c # s) p")
    case True
    then obtain y where y: "c # s = p @ y" by (auto simp: HasPrefix_def prefix_def)
    from True Cons.prems have "i = 0" by simp
    then show ?thesis using y arg_cong [OF y, of length] by auto
  next
    case False
    with Cons.prems obtain j where "Index s p = Some j" "i = Suc j" by auto
    with Cons.IH [of j] show ?thesis by auto
  qed
qed

lemma Index_first: "Index s p = Some i \<Longrightarrow> j < i \<Longrightarrow> \<not> prefix p (drop j s)"
proof (induction s arbitrary: i j)
  case Nil
  then show ?case by (auto split: if_splits)
next
  case (Cons c s)
  then show ?case
    by (cases j) (auto simp: HasPrefix_def split: if_splits)
qed

lemma LastIndexByte_None [simp]: "LastIndexByte c s = None \<longleftrightarrow> c \<notin> set s"
  by (induction s) (auto split: option.splits)

lemma LastIndexByte_app:
  "c \<notin> set y \<Longrightarrow> LastIndexByte c (x @ c # y) = Some (length x)"
proof (induction x)
  case Nil
  then show ?case by (simp add: LastIndexByte_None [THEN iffD2])
next
  case (Cons a x)
  then show ?case by simp
qed

lemma LastIndexByte_Some:
  "LastIndexByte c s = Some i \<Longrightarrow> i < length s \<and> s ! i = c \<and> c \<notin> set (drop (Suc i) s)"
  by (induction s arbitrary: i) (auto split: option.splits if_splits)

lemma IndexAny_Some:
  "IndexAny s cs = Some i \<Longrightarrow> i < length s \<and> s ! i \<in> set cs \<and> set (take i s) \<inter> set cs = {}"
proof (induction s arbitrary: i)
  case Nil
  then show ?case by simp
next
  case (Cons x s)
  then show ?case by (auto split: if_splits)
qed

lemma IndexAny_app: "set x \<inter> set cs = {} \<Longrightarrow> c \<in> set cs \<Longrightarrow> IndexAny (x @ c # y) cs = Some (length x)"
  by (induction x) auto

lemma LastIndexAny_None [simp]: "LastIndexAny s cs = None \<longleftrightarrow> set s \<inter> set cs = {}"
  by (induction s) (auto split: option.splits)

lemma LastIndexAny_app:
  "set y \<inter> set cs = {} \<Longrightarrow> c \<in> set cs \<Longrightarrow> LastIndexAny (x @ c # y) cs = Some (length x)"
proof (induction x)
  case Nil
  then show ?case by (simp add: LastIndexAny_None [THEN iffD2])
next
  case (Cons a x)
  then show ?case by simp
qed

lemma LastIndexAny_Some: "LastIndexAny s cs = Some i \<Longrightarrow> i < length s \<and> s ! i \<in> set cs"
  by (induction s arbitrary: i) (auto split: option.splits if_splits)

section \<open>Splitting and joining\<close>

text \<open>\<open>strings.Split\<close> and \<open>strings.Cut\<close> with a separator of one byte; \<open>strings.Join\<close>.\<close>

fun SplitByte :: "char \<Rightarrow> string \<Rightarrow> string list" where
  "SplitByte c [] = [[]]"
| "SplitByte c (x # s) =
    (if x = c then [] # SplitByte c s
     else case SplitByte c s of [] \<Rightarrow> [[x]] | w # ws \<Rightarrow> (x # w) # ws)"

fun Join :: "string list \<Rightarrow> string \<Rightarrow> string" where
  "Join [] sep = []"
| "Join [w] sep = w"
| "Join (w # v # ws) sep = w @ sep @ Join (v # ws) sep"

definition CutByte :: "char \<Rightarrow> string \<Rightarrow> string \<times> string \<times> bool" where
  "CutByte c s = (takeWhile (\<lambda>x. x \<noteq> c) s, drop 1 (dropWhile (\<lambda>x. x \<noteq> c) s), c \<in> set s)"

lemma SplitByte_not_Nil [simp]: "SplitByte c s \<noteq> []"
  by (cases s) (auto split: list.splits)

lemma Join_Cons: "ws \<noteq> [] \<Longrightarrow> Join (w # ws) sep = w @ sep @ Join ws sep"
  by (cases ws) auto

lemma Join_SplitByte: "Join (SplitByte c s) [c] = s"
proof (induction s)
  case Nil
  then show ?case by simp
next
  case (Cons x s)
  show ?case
  proof (cases "SplitByte c s")
    case Nil
    then show ?thesis by simp
  next
    case (Cons w ws)
    with Cons.IH show ?thesis by (cases ws) auto
  qed
qed

lemma SplitByte_app:
  "c \<notin> set w \<Longrightarrow> SplitByte c (w @ c # s) = w # SplitByte c s"
  by (induction w) auto

lemma SplitByte_single: "c \<notin> set w \<Longrightarrow> SplitByte c w = [w]"
  by (induction w) auto

lemma SplitByte_Join:
  "ws \<noteq> [] \<Longrightarrow> \<forall>w \<in> set ws. c \<notin> set w \<Longrightarrow> SplitByte c (Join ws [c]) = ws"
proof (induction ws)
  case Nil
  then show ?case by simp
next
  case (Cons w ws)
  then show ?case by (cases ws) (auto simp: SplitByte_single SplitByte_app)
qed

lemma SplitByte_no_sep: "w \<in> set (SplitByte c s) \<Longrightarrow> c \<notin> set w"
proof (induction s arbitrary: w)
  case Nil
  then show ?case by simp
next
  case (Cons x s)
  then show ?case by (fastforce split: if_splits list.splits)
qed

lemma CutByte_app [simp]: "c \<notin> set x \<Longrightarrow> CutByte c (x @ c # y) = (x, y, True)"
  by (auto simp: CutByte_def takeWhile_append dropWhile_append)

lemma CutByte_none: "c \<notin> set s \<Longrightarrow> CutByte c s = (s, [], False)"
proof -
  assume c: "c \<notin> set s"
  have t: "takeWhile (\<lambda>x. x \<noteq> c) s = s"
    unfolding takeWhile_eq_all_conv using c by blast
  have d: "dropWhile (\<lambda>x. x \<noteq> c) s = []"
    unfolding dropWhile_eq_Nil_conv using c by blast
  show ?thesis
    unfolding CutByte_def t d using c by simp
qed

section \<open>Trimming one byte\<close>

definition TrimLeftByte :: "char \<Rightarrow> string \<Rightarrow> string" where
  "TrimLeftByte c s = dropWhile (\<lambda>x. x = c) s"

definition TrimRightByte :: "char \<Rightarrow> string \<Rightarrow> string" where
  "TrimRightByte c s = rev (dropWhile (\<lambda>x. x = c) (rev s))"

definition TrimByte :: "char \<Rightarrow> string \<Rightarrow> string" where
  "TrimByte c s = TrimRightByte c (TrimLeftByte c s)"

lemma set_TrimByte: "set (TrimByte c s) \<subseteq> set s"
  unfolding TrimByte_def TrimRightByte_def TrimLeftByte_def
  by (metis order_trans set_dropWhileD set_rev subsetI)

lemma TrimRightByte_snoc [simp]: "TrimRightByte c (s @ [c]) = TrimRightByte c s"
  by (simp add: TrimRightByte_def)

lemma TrimRightByte_id: "s = [] \<or> last s \<noteq> c \<Longrightarrow> TrimRightByte c s = s"
  by (cases s rule: rev_cases) (auto simp: TrimRightByte_def)

lemma TrimLeftByte_id: "s = [] \<or> hd s \<noteq> c \<Longrightarrow> TrimLeftByte c s = s"
  by (cases s) (auto simp: TrimLeftByte_def)

lemma TrimByte_id: "c \<notin> set s \<Longrightarrow> TrimByte c s = s"
proof -
  assume c: "c \<notin> set s"
  have "s = [] \<or> hd s \<noteq> c" "s = [] \<or> last s \<noteq> c"
    using c hd_in_set last_in_set by metis+
  then show ?thesis by (simp add: TrimByte_def TrimLeftByte_id TrimRightByte_id)
qed

lemma TrimLeftByte_hd: "TrimLeftByte c s \<noteq> [] \<Longrightarrow> hd (TrimLeftByte c s) \<noteq> c"
  unfolding TrimLeftByte_def by (rule hd_dropWhile)

lemma TrimRightByte_last: "TrimRightByte c s \<noteq> [] \<Longrightarrow> last (TrimRightByte c s) \<noteq> c"
  unfolding TrimRightByte_def
  using hd_dropWhile [of "\<lambda>x. x = c" "rev s"] by (simp add: last_rev)

end
