(* ===== verification/Go_Space.thy ===== *)
theory Go_Space
  imports Go_Strings
begin

text \<open>
  White space in Go strings: \<open>strings.TrimSpace\<close> and \<open>strings.Fields\<close>, both by \<open>unicode.IsSpace\<close> on
  the UTF-8 runes of the string. The scan works on bytes: a rune of white space stands at a position
  exactly when one of its encodings does, because no first byte of such an encoding is a
  continuation byte, so Go's decoder always starts a rune there, also after invalid bytes.
\<close>

section \<open>The encodings of white space\<close>

definition ascii_spaces :: string where
  "ascii_spaces = [CHR 0x09, CHR 0x0A, CHR 0x0B, CHR 0x0C, CHR 0x0D, CHR 0x20]"

text \<open>U+0085, U+00A0, U+1680, U+2000 to U+200A, U+2028, U+2029, U+202F, U+205F and U+3000.\<close>

definition wide_spaces :: "string list" where
  "wide_spaces =
    [[CHR 0xC2, CHR 0x85], [CHR 0xC2, CHR 0xA0], [CHR 0xE1, CHR 0x9A, CHR 0x80],
     [CHR 0xE2, CHR 0x80, CHR 0x80], [CHR 0xE2, CHR 0x80, CHR 0x81], [CHR 0xE2, CHR 0x80, CHR 0x82],
     [CHR 0xE2, CHR 0x80, CHR 0x83], [CHR 0xE2, CHR 0x80, CHR 0x84], [CHR 0xE2, CHR 0x80, CHR 0x85],
     [CHR 0xE2, CHR 0x80, CHR 0x86], [CHR 0xE2, CHR 0x80, CHR 0x87], [CHR 0xE2, CHR 0x80, CHR 0x88],
     [CHR 0xE2, CHR 0x80, CHR 0x89], [CHR 0xE2, CHR 0x80, CHR 0x8A], [CHR 0xE2, CHR 0x80, CHR 0xA8],
     [CHR 0xE2, CHR 0x80, CHR 0xA9], [CHR 0xE2, CHR 0x80, CHR 0xAF], [CHR 0xE2, CHR 0x81, CHR 0x9F],
     [CHR 0xE3, CHR 0x80, CHR 0x80]]"

definition space_runes :: "string list" where
  "space_runes = map (\<lambda>c. [c]) ascii_spaces @ wide_spaces"

definition space_heads :: string where
  "space_heads = ascii_spaces @ [CHR 0xC2, CHR 0xE1, CHR 0xE2, CHR 0xE3]"

definition space_bytes :: string where
  "space_bytes = concat space_runes"

text \<open>The width of the rune among \<open>rs\<close> that the string starts with, 0 if there is none.\<close>

definition rune_width :: "string list \<Rightarrow> string \<Rightarrow> nat" where
  "rune_width rs s = (case List.find (\<lambda>r. prefix r s) rs of None \<Rightarrow> 0 | Some r \<Rightarrow> length r)"

definition space_width :: "string \<Rightarrow> nat" where
  "space_width s =
    (case s of
       [] \<Rightarrow> 0
     | c # _ \<Rightarrow> if c \<in> set ascii_spaces then 1
                else if c \<in> set space_heads then rune_width wide_spaces s else 0)"

lemma rune_width_pos: "rune_width rs s = Suc n \<Longrightarrow> \<exists>r \<in> set rs. prefix r s \<and> length r = Suc n"
  by (auto simp: rune_width_def find_Some_iff split: option.splits intro: nth_mem)

lemma space_runes_ne: "\<forall>r \<in> set space_runes. r \<noteq> []"
  by (simp add: space_runes_def ascii_spaces_def wide_spaces_def)

lemma space_runes_hd: "\<forall>r \<in> set space_runes. hd r \<in> set space_heads"
  by (simp add: space_runes_def ascii_spaces_def wide_spaces_def space_heads_def)

lemma space_runes_tl: "\<forall>r \<in> set space_runes. set (tl r) \<inter> set space_heads = {}"
  by (simp add: space_runes_def ascii_spaces_def wide_spaces_def space_heads_def)

text \<open>No encoding is a prefix of another one, so the one that matches is unique.\<close>

lemma space_runes_prefix_free:
  "\<forall>r \<in> set space_runes. \<forall>r' \<in> set space_runes. prefix r r' \<longrightarrow> r = r'"
  by (simp add: space_runes_def ascii_spaces_def wide_spaces_def)

lemma space_runes_unique:
  "r \<in> set space_runes \<Longrightarrow> r' \<in> set space_runes \<Longrightarrow> prefix r s \<Longrightarrow> prefix r' s \<Longrightarrow> r = r'"
  using prefix_same_cases space_runes_prefix_free by blast

lemma find_rune:
  "r \<in> set rs \<Longrightarrow> prefix r s \<Longrightarrow> \<exists>r'. List.find (\<lambda>r. prefix r s) rs = Some r' \<and> r' \<in> set rs \<and> prefix r' s"
  by (induction rs) auto

lemma space_width_rune: "r \<in> set space_runes \<Longrightarrow> prefix r s \<Longrightarrow> space_width s = length r"
proof -
  assume r: "r \<in> set space_runes" and p: "prefix r s"
  obtain c s' where s: "s = c # s'" and c: "c = hd r"
    using p r space_runes_ne by (cases s; cases r) (auto simp: prefix_def)
  show ?thesis
  proof (cases "c \<in> set ascii_spaces")
    case True
    then have "[c] \<in> set space_runes" "prefix [c] s"
      by (auto simp: space_runes_def s)
    then have "r = [c]" using r p space_runes_unique by blast
    with True show ?thesis by (simp add: space_width_def s)
  next
    case False
    then have w: "r \<in> set wide_spaces" using r c by (auto simp: space_runes_def)
    obtain r' where r': "List.find (\<lambda>r. prefix r s) wide_spaces = Some r'"
      "r' \<in> set wide_spaces" "prefix r' s"
      using find_rune [OF w p] by blast
    then have "r' = r" using r p space_runes_unique by (auto simp: space_runes_def)
    moreover have "c \<in> set space_heads" using space_runes_hd r c by simp
    ultimately show ?thesis
      using False r' by (auto simp: space_width_def s rune_width_def)
  qed
qed

lemma space_width_pos:
  assumes "space_width s = Suc n"
  shows "\<exists>r \<in> set space_runes. prefix r s \<and> length r = Suc n"
proof -
  obtain c s' where s: "s = c # s'" using assms by (cases s) (auto simp: space_width_def)
  show ?thesis
  proof (cases "c \<in> set ascii_spaces")
    case True
    with assms have "[c] \<in> set space_runes" "n = 0" "prefix [c] s"
      by (auto simp: space_width_def s space_runes_def)
    then show ?thesis by force
  next
    case False
    with assms have "rune_width wide_spaces s = Suc n"
      by (auto simp: space_width_def s split: if_splits)
    then show ?thesis using rune_width_pos by (fastforce simp: space_runes_def)
  qed
qed

lemma space_width_0: "space_width s = 0 \<longleftrightarrow> (\<forall>r \<in> set space_runes. \<not> prefix r s)"
proof -
  have "space_width s = 0" if "\<forall>r \<in> set space_runes. \<not> prefix r s"
  proof (cases "space_width s")
    case 0
    then show ?thesis .
  next
    case (Suc n)
    then show ?thesis using space_width_pos that by blast
  qed
  moreover have "\<not> prefix r s" if "space_width s = 0" "r \<in> set space_runes" for r
    using space_width_rune [of r s] space_runes_ne that by auto
  ultimately show ?thesis by blast
qed

lemma space_width_le: "space_width s \<le> length s"
  by (cases "space_width s") (auto dest!: space_width_pos prefix_length_le)

lemma space_width_head: "space_width (c # s) > 0 \<Longrightarrow> c \<in> set space_heads"
  by (auto simp: space_width_def space_heads_def split: if_splits)

lemma space_width_plain: "c \<notin> set space_heads \<Longrightarrow> space_width (c # s) = 0"
  using space_width_head by blast

text \<open>An encoding never straddles the border to a string that starts with a first byte.\<close>

lemma space_width_app:
  assumes "m \<noteq> []" and "w = [] \<or> hd w \<in> set space_heads"
  shows "space_width (m @ w) = space_width m"
proof -
  have "prefix r (m @ w) \<longleftrightarrow> prefix r m" if r: "r \<in> set space_runes" for r
  proof
    assume "prefix r (m @ w)"
    then consider "prefix r m" | us where "r = m @ us" "us \<noteq> []" "prefix us w"
      by (auto simp: prefix_append) (metis append_Nil2 prefix_order.refl)
    then show "prefix r m"
    proof cases
      case 2
      then have "hd us = hd w" "w \<noteq> []" by (auto simp: prefix_def)
      moreover have "hd us \<in> set (tl r)" using 2 assms(1) by (cases m) auto
      ultimately show ?thesis using space_runes_tl r assms(2) by (metis disjoint_iff)
    qed
  qed simp
  then have "space_width (m @ w) = 0 \<longleftrightarrow> space_width m = 0"
    and "r \<in> set space_runes \<Longrightarrow> prefix r m \<Longrightarrow> space_width (m @ w) = space_width m" for r
    by (auto simp: space_width_0 space_width_rune)
  then show ?thesis using space_width_0 by metis
qed

section \<open>TrimSpace\<close>

text \<open>\<open>k\<close> bytes of a rune of white space are still to be skipped.\<close>

fun trim_left :: "nat \<Rightarrow> string \<Rightarrow> string" where
  "trim_left k [] = []"
| "trim_left (Suc k) (c # s) = trim_left k s"
| "trim_left 0 (c # s) =
    (let n = space_width (c # s) in if n = 0 then c # s else trim_left (n - 1) s)"

text \<open>The same from the right, on the reversed string and the reversed encodings.\<close>

definition rev_runes :: "string list" where
  "rev_runes = map rev space_runes"

fun trim_rev :: "nat \<Rightarrow> string \<Rightarrow> string" where
  "trim_rev k [] = []"
| "trim_rev (Suc k) (c # s) = trim_rev k s"
| "trim_rev 0 (c # s) =
    (let n = rune_width rev_runes (c # s) in if n = 0 then c # s else trim_rev (n - 1) s)"

definition TrimSpace :: "string \<Rightarrow> string" where
  "TrimSpace s = rev (trim_rev 0 (rev (trim_left 0 s)))"

lemma trim_left_drop: "trim_left k s = trim_left 0 (drop k s)"
  by (induction k s rule: trim_left.induct) auto

lemma trim_rev_drop: "trim_rev k s = trim_rev 0 (drop k s)"
  by (induction k s rule: trim_rev.induct) auto

lemma trim_left_split:
  "k \<le> length s \<Longrightarrow>
    \<exists>es. s = take k s @ concat es @ trim_left k s \<and> set es \<subseteq> set space_runes"
proof (induction k s rule: trim_left.induct)
  case (1 k)
  then show ?case by (intro exI [of _ "[]"]) simp
next
  case (2 k c s)
  then show ?case by auto
next
  case (3 c s)
  show ?case
  proof (cases "space_width (c # s)")
    case 0
    then show ?thesis by (intro exI [of _ "[]"]) simp
  next
    case (Suc n)
    then obtain r where r: "r \<in> set space_runes" "prefix r (c # s)" "length r = Suc n"
      using space_width_pos by blast
    then have tk: "c # take n s = r"
      by (metis append_eq_conv_conj prefix_def take_Suc_Cons)
    have "n \<le> length s" using Suc space_width_le [of "c # s"] by simp
    with 3 Suc obtain es where "s = take n s @ concat es @ trim_left n s" "set es \<subseteq> set space_runes"
      by auto
    with tk r(1) Suc show ?thesis
      by (intro exI [of _ "r # es"]) (simp flip: tk)
  qed
qed

lemma trim_rev_split:
  "k \<le> length s \<Longrightarrow>
    \<exists>es. s = take k s @ concat (map rev es) @ trim_rev k s \<and> set es \<subseteq> set space_runes"
proof (induction k s rule: trim_rev.induct)
  case (1 k)
  then show ?case by (intro exI [of _ "[]"]) simp
next
  case (2 k c s)
  then show ?case by auto
next
  case (3 c s)
  show ?case
  proof (cases "rune_width rev_runes (c # s)")
    case 0
    then show ?thesis by (intro exI [of _ "[]"]) simp
  next
    case (Suc n)
    then obtain r where r: "r \<in> set space_runes" "prefix (rev r) (c # s)" "length r = Suc n"
      using rune_width_pos by (fastforce simp: rev_runes_def)
    then have tk: "c # take n s = rev r"
      by (metis append_eq_conv_conj length_rev prefix_def take_Suc_Cons)
    have "n \<le> length s" using r prefix_length_le by fastforce
    with 3 Suc obtain es
      where "s = take n s @ concat (map rev es) @ trim_rev n s" "set es \<subseteq> set space_runes"
      by auto
    with tk r(1) Suc show ?thesis
      by (intro exI [of _ "r # es"]) (simp flip: tk)
  qed
qed

lemma rev_concat_rev: "rev (concat (map rev es)) = concat (rev es)"
  by (induction es) auto

text \<open>The string is white space, the trimmed string, white space.\<close>

lemma TrimSpace_split:
  "\<exists>es fs. s = concat es @ TrimSpace s @ concat fs \<and> set es \<subseteq> set space_runes \<and>
    set fs \<subseteq> set space_runes \<and> trim_left 0 s = TrimSpace s @ concat fs"
proof -
  obtain es where es: "s = concat es @ trim_left 0 s" "set es \<subseteq> set space_runes"
    using trim_left_split [of 0 s] by auto
  obtain fs where fs: "rev (trim_left 0 s) = concat (map rev fs) @ trim_rev 0 (rev (trim_left 0 s))"
    "set fs \<subseteq> set space_runes"
    using trim_rev_split [of 0 "rev (trim_left 0 s)"] by auto
  then have "trim_left 0 s = TrimSpace s @ concat (rev fs)"
    unfolding TrimSpace_def by (metis rev_append rev_concat_rev rev_rev_ident)
  with es fs(2) show ?thesis by (metis set_rev)
qed

lemma set_TrimSpace: "set (TrimSpace s) \<subseteq> set s"
  using TrimSpace_split [of s] by (metis Un_subset_iff set_append subset_refl)

lemma TrimSpace_sublist: "sublist (TrimSpace s) s"
  using TrimSpace_split [of s] by (metis sublist_appendI)

lemma concat_space_bytes: "set es \<subseteq> set space_runes \<Longrightarrow> set (concat es) \<subseteq> set space_bytes"
  by (auto simp: space_bytes_def)

text \<open>A word without bytes of white space is in the trimmed string if it is in the string.\<close>

lemma sublist_drop_front:
  "sublist t (x @ y) \<Longrightarrow> t \<noteq> [] \<Longrightarrow> set t \<inter> set x = {} \<Longrightarrow> sublist t y"
proof (induction x)
  case Nil
  then show ?case by simp
next
  case (Cons c x)
  then show ?case by (cases t) (auto simp: sublist_Cons_right)
qed

lemma sublist_strip:
  assumes t: "sublist t (a @ m @ b)" "t \<noteq> []" and "set t \<inter> set a = {}" and "set t \<inter> set b = {}"
  shows "sublist t m"
proof -
  have "sublist t (m @ b)" using sublist_drop_front assms by blast
  then have "sublist (rev t) (rev b @ rev m)" by (simp flip: rev_append)
  then have "sublist (rev t) (rev m)" by (rule sublist_drop_front) (use assms in auto)
  then show ?thesis by simp
qed

lemma Contains_TrimSpace:
  assumes "t \<noteq> []" and "set t \<inter> set space_bytes = {}"
  shows "Contains (TrimSpace s) t \<longleftrightarrow> Contains s t"
proof -
  obtain es fs where s: "s = concat es @ TrimSpace s @ concat fs"
    "set es \<subseteq> set space_runes" "set fs \<subseteq> set space_runes"
    using TrimSpace_split by blast
  have "set t \<inter> set (concat es) = {}" "set t \<inter> set (concat fs) = {}"
    using concat_space_bytes [OF s(2)] concat_space_bytes [OF s(3)] assms(2) by blast+
  then have "sublist t (TrimSpace s)" if "sublist t s"
    using sublist_strip [of t "concat es" "TrimSpace s" "concat fs"] that assms(1) s(1) by metis
  then show ?thesis
    unfolding Contains_iff using TrimSpace_sublist sublist_order.order.trans by blast
qed

section \<open>Fields\<close>

text \<open>
  One scan: \<open>k\<close> bytes of a rune of white space still to be skipped, \<open>w\<close> the bytes of the current
  field, which white space or the end of the string closes.
\<close>

definition flush :: "string \<Rightarrow> string list" where
  "flush w = (if w = [] then [] else [w])"

fun fields_scan :: "nat \<Rightarrow> string \<Rightarrow> string \<Rightarrow> string list" where
  "fields_scan k w [] = flush w"
| "fields_scan (Suc k) w (c # s) = fields_scan k w s"
| "fields_scan 0 w (c # s) =
    (let n = space_width (c # s)
     in if n = 0 then fields_scan 0 (w @ [c]) s else flush w @ fields_scan (n - 1) [] s)"

definition Fields :: "string \<Rightarrow> string list" where
  "Fields s = fields_scan 0 [] s"

lemma fields_scan_trim_left: "fields_scan k [] s = fields_scan 0 [] (trim_left k s)"
  by (induction k s rule: trim_left.induct) (auto simp: flush_def Let_def)

lemma fields_scan_space:
  "r \<in> set space_runes \<Longrightarrow> fields_scan 0 w r = flush w"
proof -
  assume r: "r \<in> set space_runes"
  then have "r \<noteq> []" using space_runes_ne by blast
  then obtain c s where c: "r = c # s" by (auto simp: neq_Nil_conv)
  have skip: "fields_scan (length s) [] s = []" for s by (induction s) (auto simp: flush_def)
  have "space_width r = length r" using r by (rule space_width_rune) simp
  with c skip show ?thesis by simp
qed

lemma fields_scan_snoc:
  assumes r: "r \<in> set space_runes"
  shows "k \<le> length m \<Longrightarrow> fields_scan k w (m @ r) = fields_scan k w m"
proof (induction k w m rule: fields_scan.induct)
  case (1 k w)
  then show ?case using r by (simp add: fields_scan_space)
next
  case (2 k w c s)
  then show ?case by simp
next
  case (3 w c s)
  have "r = [] \<or> hd r \<in> set space_heads" using r space_runes_hd by blast
  then have "space_width (c # s @ r) = space_width (c # s)"
    using space_width_app [of "c # s" r] by simp
  moreover have "space_width (c # s) - 1 \<le> length s" using space_width_le [of "c # s"] by simp
  ultimately show ?case using 3 by (auto simp: Let_def)
qed

lemma Fields_snoc_spaces: "set fs \<subseteq> set space_runes \<Longrightarrow> Fields (m @ concat fs) = Fields m"
proof (induction fs arbitrary: m)
  case Nil
  then show ?case by simp
next
  case (Cons r fs)
  from Cons.IH [of "m @ r"] Cons.prems show ?case
    by (simp add: Fields_def fields_scan_snoc)
qed

text \<open>Trimming does not change the fields.\<close>

lemma Fields_TrimSpace [gostr]: "Fields (TrimSpace s) = Fields s"
proof -
  obtain fs where "trim_left 0 s = TrimSpace s @ concat fs" "set fs \<subseteq> set space_runes"
    using TrimSpace_split by blast
  then have "Fields (TrimSpace s) = Fields (trim_left 0 s)" by (simp add: Fields_snoc_spaces)
  then show ?thesis using fields_scan_trim_left [of 0 s] by (simp add: Fields_def)
qed

text \<open>Fields are never empty, and hold bytes of the string only.\<close>

lemma fields_scan_sound:
  "f \<in> set (fields_scan k w s) \<Longrightarrow> f \<noteq> [] \<and> set f \<subseteq> set w \<union> set s"
proof (induction k w s rule: fields_scan.induct)
  case (1 k w)
  then show ?case by (auto simp: flush_def split: if_splits)
next
  case (2 k w c s)
  then show ?case by auto
next
  case (3 w c s)
  then show ?case by (fastforce simp: flush_def Let_def split: if_splits)
qed

lemma Fields_sound: "f \<in> set (Fields s) \<Longrightarrow> f \<noteq> [] \<and> set f \<subseteq> set s"
  using fields_scan_sound [of f 0 "[]" s] by (simp add: Fields_def)

lemma fields_scan_sublist:
  "f \<in> set (fields_scan k w s) \<Longrightarrow> k = 0 \<or> w = [] \<Longrightarrow> sublist f (w @ s)"
proof (induction k w s rule: fields_scan.induct)
  case (1 k w)
  then show ?case by (auto simp: flush_def split: if_splits)
next
  case (2 k w c s)
  then show ?case by (auto simp: sublist_Cons_right)
next
  case (3 w c s)
  show ?case
  proof (cases "space_width (c # s)")
    case 0
    with 3 show ?thesis by simp
  next
    case (Suc n)
    with 3 consider "f = w" | "sublist f s" by (auto simp: flush_def split: if_splits)
    then show ?thesis
    proof cases
      case 2
      then show ?thesis
        by (metis append.assoc append_Cons append_Nil sublist_appendI sublist_order.order.trans
            append_Nil2)
    qed auto
  qed
qed

lemma Fields_sublist: "f \<in> set (Fields s) \<Longrightarrow> sublist f s"
  using fields_scan_sublist [of f 0 "[]" s] by (simp add: Fields_def)

text \<open>
  Fields of plain words: a string without first bytes of white space is one field, and words
  joined by single spaces are split into the words again.
\<close>

definition plain_word :: "string \<Rightarrow> bool" where
  "plain_word w \<longleftrightarrow> w \<noteq> [] \<and> set w \<inter> set space_heads = {}"

lemma fields_scan_plain:
  "set v \<inter> set space_heads = {} \<Longrightarrow> fields_scan 0 w (v @ s) = fields_scan 0 (w @ v) s"
  by (induction v arbitrary: w) (auto simp: space_width_plain)

lemma space_width_blank: "space_width (CHR '' '' # s) = 1"
  by (simp add: space_width_def ascii_spaces_def)

lemma Fields_plain: "plain_word w \<Longrightarrow> Fields w = [w]"
  using fields_scan_plain [of w "[]" "[]"] by (simp add: Fields_def plain_word_def flush_def)

lemma Fields_Cons_plain: "plain_word w \<Longrightarrow> Fields (w @ CHR '' '' # s) = w # Fields s"
  using fields_scan_plain [of w "[]" "CHR '' '' # s"]
  by (simp add: Fields_def plain_word_def flush_def space_width_blank)

lemma Fields_Join: "\<forall>w \<in> set ws. plain_word w \<Longrightarrow> Fields (Join ws '' '') = ws"
proof (induction ws)
  case Nil
  then show ?case by (simp add: Fields_def flush_def)
next
  case (Cons w ws)
  then show ?case by (cases ws) (auto simp: Fields_plain Fields_Cons_plain)
qed

lemma trim_left_plain: "s = [] \<or> hd s \<notin> set space_heads \<Longrightarrow> trim_left 0 s = s"
  by (cases s) (auto simp: space_width_plain)

lemma trim_rev_plain: "s = [] \<or> hd s \<notin> set space_bytes \<Longrightarrow> trim_rev 0 s = s"
proof (cases s)
  case (Cons c t)
  assume "s = [] \<or> hd s \<notin> set space_bytes"
  then have c: "c \<notin> set space_bytes" using Cons by simp
  have "rune_width rev_runes (c # t) = 0"
  proof (rule ccontr)
    assume "rune_width rev_runes (c # t) \<noteq> 0"
    then obtain n r where "r \<in> set space_runes" "prefix (rev r) (c # t)" "length (rev r) = Suc n"
      using rune_width_pos by (fastforce simp: rev_runes_def gr0_conv_Suc)
    then have "c \<in> set r" by (cases "rev r") (auto simp: prefix_Cons simp flip: set_rev [of r])
    with \<open>r \<in> set space_runes\<close> c show False by (auto simp: space_bytes_def)
  qed
  with Cons show ?thesis by simp
qed simp

lemma TrimSpace_id:
  assumes "s = [] \<or> hd s \<notin> set space_heads" and "s = [] \<or> last s \<notin> set space_bytes"
  shows "TrimSpace s = s"
proof -
  have "trim_rev 0 (rev s) = rev s"
    by (rule trim_rev_plain) (use assms(2) in \<open>auto simp: hd_rev\<close>)
  with trim_left_plain [OF assms(1)] show ?thesis by (simp add: TrimSpace_def)
qed

end
