(* ===== verification/Go_Conv.thy ===== *)
theory Go_Conv
  imports Go_Space
begin

text \<open>
  Conversions of the packages \<open>strconv\<close>, \<open>strings\<close> and \<open>fmt\<close>: decimal and hexadecimal numbers, lower
  case, replacement, and the quoted form of the verb \<open>%q\<close>.
\<close>

section \<open>Character classes\<close>

definition digits :: string where
  "digits = ''0123456789''"

definition lowers :: string where
  "lowers = ''abcdefghijklmnopqrstuvwxyz''"

definition uppers :: string where
  "uppers = ''ABCDEFGHIJKLMNOPQRSTUVWXYZ''"

definition is_alnum :: "char \<Rightarrow> bool" where
  "is_alnum c \<longleftrightarrow> c \<in> set uppers \<or> c \<in> set lowers \<or> c \<in> set digits"

lemma alnum_space_check:
  "list_all (\<lambda>c. c \<notin> set space_heads \<and> c \<notin> set space_bytes) (uppers @ lowers @ digits)"
  by code_simp

lemma alnum_not_space: "is_alnum c \<Longrightarrow> c \<notin> set space_heads \<and> c \<notin> set space_bytes"
  using alnum_space_check by (auto simp: is_alnum_def list_all_iff)

section \<open>Numbers\<close>

function dec_digits :: "int \<Rightarrow> string" where
  "dec_digits n =
    (if n < 10 then [digits ! nat n] else dec_digits (n div 10) @ [digits ! nat (n mod 10)])"
  by pat_completeness auto
termination
  by (relation "measure nat") auto

declare dec_digits.simps [simp del]

definition Itoa :: "int \<Rightarrow> string" where
  "Itoa n = (if n < 0 then CHR ''-'' # dec_digits (- n) else dec_digits n)"

text \<open>The value of a digit in bases up to 16.\<close>

definition digit_value :: "char \<Rightarrow> int option" where
  "digit_value c =
    map_of (zip ''0123456789abcdefABCDEF''
      [0, 1, 2, 3, 4, 5, 6, 7, 8, 9, 10, 11, 12, 13, 14, 15, 10, 11, 12, 13, 14, 15]) c"

fun digits_value :: "int \<Rightarrow> int \<Rightarrow> string \<Rightarrow> int option" where
  "digits_value base acc [] = Some acc"
| "digits_value base acc (c # s) =
    (case digit_value c of
       None \<Rightarrow> None
     | Some d \<Rightarrow> if d < base then digits_value base (acc * base + d) s else None)"

text \<open>
  \<open>strconv.ParseInt(s, base, bits)\<close> with \<open>lim\<close> the power \<open>2 ^ (bits - 1)\<close>; \<^const>\<open>None\<close> is its error.
\<close>

definition ParseInt :: "int \<Rightarrow> int \<Rightarrow> string \<Rightarrow> int option" where
  "ParseInt base lim s =
    (let neg = HasPrefix s ''-'';
         ds = (if neg \<or> HasPrefix s ''+'' then tl s else s)
     in if ds = [] then None
        else case digits_value base 0 ds of
               None \<Rightarrow> None
             | Some n \<Rightarrow>
                 if neg then if n \<le> lim then Some (- n) else None
                 else if n < lim then Some n else None)"

definition Atoi :: "string \<Rightarrow> int option" where
  "Atoi s = ParseInt 10 (2 ^ 63) s"

lemma digits_value_app:
  "digits_value base acc (s @ t) =
    (case digits_value base acc s of None \<Rightarrow> None | Some n \<Rightarrow> digits_value base n t)"
  by (induction s arbitrary: acc) (auto split: option.splits)

lemma digit_cases: "0 \<le> n \<Longrightarrow> n < 10 \<Longrightarrow> n \<in> {0, 1, 2, 3, 4, 5, 6, 7, 8, 9 :: int}"
  by simp presburger

lemma digit_value_check:
  "list_all (\<lambda>n. digit_value (digits ! nat n) = Some n) [0, 1, 2, 3, 4, 5, 6, 7, 8, 9]"
  by code_simp

lemma digit_value_dec: "0 \<le> n \<Longrightarrow> n < 10 \<Longrightarrow> digit_value (digits ! nat n) = Some n"
  using digit_value_check digit_cases [of n] by (auto simp: list_all_iff)

lemma digits_value_dec_digits: "0 \<le> n \<Longrightarrow> digits_value 10 0 (dec_digits n) = Some n"
proof (induction n rule: dec_digits.induct)
  case (1 n)
  show ?case
  proof (cases "n < 10")
    case True
    with 1 show ?thesis by (subst dec_digits.simps) (simp add: digit_value_dec)
  next
    case False
    then have "digits_value 10 0 (dec_digits n) =
      digits_value 10 0 (dec_digits (n div 10) @ [digits ! nat (n mod 10)])"
      by (subst dec_digits.simps) simp
    also have "\<dots> = Some (n div 10 * 10 + n mod 10)"
      using 1 False by (simp add: digits_value_app digit_value_dec)
    finally show ?thesis by simp
  qed
qed

lemma nth_digits: "0 \<le> n \<Longrightarrow> n < 10 \<Longrightarrow> digits ! nat n \<in> set digits"
  by (rule nth_mem) (simp add: digits_def)

lemma set_dec_digits: "0 \<le> n \<Longrightarrow> set (dec_digits n) \<subseteq> set digits"
proof (induction n rule: dec_digits.induct)
  case (1 n)
  show ?case
  proof (cases "n < 10")
    case True
    with 1 nth_digits [of n] show ?thesis by (subst dec_digits.simps) simp
  next
    case False
    then have "dec_digits n = dec_digits (n div 10) @ [digits ! nat (n mod 10)]"
      by (subst dec_digits.simps) simp
    moreover have "digits ! nat (n mod 10) \<in> set digits" by (rule nth_digits) simp_all
    ultimately show ?thesis using 1 False by simp
  qed
qed

lemma dec_digits_ne [simp]: "dec_digits n \<noteq> []"
  by (subst dec_digits.simps) simp

lemma digits_no_sign: "CHR ''-'' \<notin> set digits" "CHR ''+'' \<notin> set digits"
  by (simp_all add: digits_def)

text \<open>Reading a number that was printed, also one with a sign.\<close>

lemma ParseInt_dec_digits:
  assumes "0 \<le> n" and "n < lim"
  shows "ParseInt 10 lim (dec_digits n) = Some n"
proof -
  obtain c s where c: "dec_digits n = c # s" by (cases "dec_digits n") auto
  then have "c \<in> set digits" using set_dec_digits [OF assms(1)] by auto
  then have "c \<noteq> CHR ''-''" "c \<noteq> CHR ''+''" using digits_no_sign by metis+
  then have "\<not> HasPrefix (dec_digits n) ''-''" "\<not> HasPrefix (dec_digits n) ''+''"
    by (simp_all add: c HasPrefix_def)
  then show ?thesis using assms by (simp add: ParseInt_def Let_def digits_value_dec_digits)
qed

lemma Atoi_Itoa: "- (2 ^ 63) \<le> n \<Longrightarrow> n < 2 ^ 63 \<Longrightarrow> Atoi (Itoa n) = Some n"
proof (cases "n < 0")
  case True
  assume "- (2 ^ 63) \<le> n"
  with True show ?thesis
    by (simp add: Atoi_def Itoa_def ParseInt_def HasPrefix_def digits_value_dec_digits)
qed (simp add: Atoi_def Itoa_def ParseInt_dec_digits)

lemma set_Itoa: "0 \<le> n \<Longrightarrow> set (Itoa n) \<subseteq> set digits"
  using set_dec_digits by (simp add: Itoa_def)

lemma Itoa_ne [simp]: "Itoa n \<noteq> []"
  by (simp add: Itoa_def)

section \<open>Lower case\<close>

text \<open>
  \<open>strings.ToLower\<close>, exact for every rune whose lower case is in ASCII: the ASCII letters, the Kelvin
  sign U+212A and the dotted capital I U+0130. Other runes are kept as they are; the callers only
  look at the ASCII bytes of the result.
\<close>

definition lower_byte :: "char \<Rightarrow> char" where
  "lower_byte c =
    (case map_of (zip ''ABCDEFGHIJKLMNOPQRSTUVWXYZ'' ''abcdefghijklmnopqrstuvwxyz'') c of
       None \<Rightarrow> c | Some d \<Rightarrow> d)"

fun ToLower :: "string \<Rightarrow> string" where
  "ToLower [] = []"
| "ToLower (a # b # c # s) =
    (if [a, b, c] = [CHR 0xE2, CHR 0x84, CHR 0xAA] then CHR ''k'' # ToLower s
     else if [a, b] = [CHR 0xC4, CHR 0xB0] then CHR ''i'' # ToLower (c # s)
     else lower_byte a # ToLower (b # c # s))"
| "ToLower [a, b] =
    (if [a, b] = [CHR 0xC4, CHR 0xB0] then ''i'' else [lower_byte a, lower_byte b])"
| "ToLower [a] = [lower_byte a]"

section \<open>Replacing\<close>

text \<open>\<open>strings.ReplaceAll\<close> of a non-empty string; \<open>k\<close> bytes of a match are still to be skipped.\<close>

fun replace_scan :: "string \<Rightarrow> string \<Rightarrow> nat \<Rightarrow> string \<Rightarrow> string" where
  "replace_scan old new k [] = []"
| "replace_scan old new (Suc k) (c # s) = replace_scan old new k s"
| "replace_scan old new 0 (c # s) =
    (if HasPrefix (c # s) old then new @ replace_scan old new (length old - 1) s
     else c # replace_scan old new 0 s)"

definition ReplaceAll :: "string \<Rightarrow> string \<Rightarrow> string \<Rightarrow> string" where
  "ReplaceAll s old new = replace_scan old new 0 s"

section \<open>Quoting\<close>

text \<open>
  The verb \<open>%q\<close>: \<open>strconv.Quote\<close> for ASCII bytes. Bytes outside ASCII are kept, as \<open>Quote\<close> keeps
  printable runes.
\<close>

definition byte_escapes :: "(char \<times> string) list" where
  "byte_escapes =
    [(CHR 0x22, [CHR 0x5C, CHR 0x22]), (CHR 0x5C, [CHR 0x5C, CHR 0x5C]),
     (CHR 0x07, [CHR 0x5C, CHR ''a'']), (CHR 0x08, [CHR 0x5C, CHR ''b'']),
     (CHR 0x0C, [CHR 0x5C, CHR ''f'']), (CHR 0x0A, [CHR 0x5C, CHR ''n'']),
     (CHR 0x0D, [CHR 0x5C, CHR ''r'']), (CHR 0x09, [CHR 0x5C, CHR ''t'']),
     (CHR 0x0B, [CHR 0x5C, CHR ''v''])]"

definition hex_byte :: "char \<Rightarrow> string" where
  "hex_byte c =
    (let n = (of_char c :: nat)
     in [''0123456789abcdef'' ! (n div 16), ''0123456789abcdef'' ! (n mod 16)])"

definition quote_byte :: "char \<Rightarrow> string" where
  "quote_byte c =
    (case map_of byte_escapes c of
       Some e \<Rightarrow> e
     | None \<Rightarrow> let n = (of_char c :: nat)
               in if n < 32 \<or> n = 127 then [CHR 0x5C, CHR ''x''] @ hex_byte c else [c])"

definition Quote :: "string \<Rightarrow> string" where
  "Quote s = [CHR 0x22] @ concat (map quote_byte s) @ [CHR 0x22]"

text \<open>\<open>%q\<close> of a slice of strings.\<close>

definition QuoteList :: "string list \<Rightarrow> string" where
  "QuoteList ss = ''['' @ Join (map Quote ss) '' '' @ '']''"

end
