(* ===== verification/Recipe.thy ===== *)
theory Recipe
  imports Go_Conv "HOL-Library.List_Lexorder" "HOL-Library.Char_ord"
begin

text \<open>
  \<open>internal/recipe/recipe.go\<close>: the recipe, the manifest of the inspector, \<open>Validate\<close> with the
  allow-list of programs, \<open>Split\<close>, which turns a command line into a program without a shell, and
  \<open>EnvList\<close>. An \<open>error\<close> that may be \<open>nil\<close> is an \<^typ>\<open>error option\<close>.
\<close>

section \<open>Recipes and manifests\<close>

record recipe =
  r_kind :: string
  r_cwd :: string
  r_install :: "string list"
  r_start :: string
  r_port :: int
  r_env :: "(string, string) gomap"
  r_detector :: string

definition no_recipe :: recipe where
  "no_recipe = \<lparr>r_kind = [], r_cwd = [], r_install = [], r_start = [], r_port = 0, r_env = [],
    r_detector = []\<rparr>"

record packageJSON =
  p_name :: string
  p_scripts :: "(string, string) gomap"
  p_dependencies :: "(string, string) gomap"
  p_devDependencies :: "(string, string) gomap"
  p_packageManager :: string

record manifest =
  m_files :: "string list"
  m_cmdDirs :: "string list"
  m_packageJSON :: "packageJSON option"
  m_lockfiles :: "string list"
  m_pyProject :: string
  m_requirements :: string
  m_goMod :: string
  m_cargoToml :: string
  m_procfile :: string
  m_makeTargets :: "string list"
  m_readme :: string
  m_tryliveYAML :: string
  m_dockerfile :: string
  m_hasIndexHTML :: bool

definition KindWeb :: string where
  "KindWeb = ''web''"

definition KindTerminal :: string where
  "KindTerminal = ''terminal''"

section \<open>Commands\<close>

definition allowedPrograms :: "string list" where
  "allowedPrograms =
    [''npm'', ''npx'', ''pnpm'', ''yarn'', ''bun'', ''bunx'', ''node'', ''deno'',
     ''pip'', ''pip3'', ''python'', ''python3'', ''poetry'', ''uv'', ''pipenv'',
     ''streamlit'', ''uvicorn'', ''gunicorn'', ''flask'', ''gradio'',
     ''go'', ''cargo'', ''make'', ''bundle'', ''ruby'', ''rails'',
     ''hugo'', ''jekyll'', ''mkdocs'', ''php'', ''composer'', ''dotnet'',
     ''corepack'', ''env'', ''true'']"

definition forbiddenTokens :: "string list" where
  "forbiddenTokens =
    [''|'', [CHR 0x60], ''$('', ''>'', ''<'', '';'', ''&&'', ''||'', ''sudo'', ''curl'', ''wget'',
     ''chmod'', ''eval'']"

text \<open>A leading field that is an environment assignment, not the program.\<close>

definition is_assignment :: "string \<Rightarrow> bool" where
  "is_assignment f \<longleftrightarrow> Contains f ''='' \<and> \<not> HasPrefix f ''-''"

definition validateCommand :: "string \<Rightarrow> error option" where
  "validateCommand c0 =
    (let c = TrimSpace c0
     in if c = [] then Some (Errorf ''empty command'')
        else case List.find (Contains c) forbiddenTokens of
               Some t \<Rightarrow> Some (Errorf (''contains '' @ Quote t))
             | None \<Rightarrow>
                 (case dropWhile is_assignment (Fields c) of
                    [] \<Rightarrow> Some (Errorf ''no program'')
                  | prog # _ \<Rightarrow>
                      if prog \<in> set allowedPrograms then None
                      else Some (Errorf (''program '' @ Quote prog @ '' is not allowed''))))"

definition Split :: "string \<Rightarrow> string list \<times> string \<times> string list" where
  "Split c =
    (let fields = Fields c
     in (takeWhile is_assignment fields,
         case dropWhile is_assignment fields of [] \<Rightarrow> ([], []) | prog # args \<Rightarrow> (prog, args)))"

section \<open>Validate\<close>

text \<open>The loop over the install commands: the first one that is rejected.\<close>

fun validate_install :: "string list \<Rightarrow> error option" where
  "validate_install [] = None"
| "validate_install (c # cs) =
    (case validateCommand c of
       Some e \<Rightarrow> Some (Wrapf (''install '' @ Quote c) e)
     | None \<Rightarrow> validate_install cs)"

fun validate_env :: "(string, string) gomap \<Rightarrow> error option" where
  "validate_env [] = None"
| "validate_env ((k, v) # env) =
    (if k = [] \<or> ContainsAny k [CHR ''='', CHR '' '', CHR 0x0A] \<or> ContainsAny v [CHR 0x0A]
     then Some (Errorf (''env '' @ Quote k @ '' is malformed''))
     else validate_env env)"

definition Validate :: "recipe \<Rightarrow> error option" where
  "Validate r =
    (if r_kind r \<noteq> KindWeb \<and> r_kind r \<noteq> KindTerminal
     then Some (Errorf (''kind '' @ Quote (r_kind r) @ '' must be web or terminal''))
     else if HasPrefix (r_cwd r) ''/'' \<or> Contains (r_cwd r) ''..''
     then Some (Errorf (''cwd '' @ Quote (r_cwd r) @ '' must be relative and inside the repo''))
     else if length (r_install r) > 8 then Some (Errorf ''too many install commands'')
     else case validate_install (r_install r) of
            Some e \<Rightarrow> Some e
          | None \<Rightarrow>
              if r_kind r = KindWeb \<and> r_start r = []
              then Some (Errorf ''web recipe needs a start command'')
              else if r_kind r = KindWeb \<and> (r_port r < 1 \<or> r_port r > 65535)
              then Some (Errorf (''port '' @ Itoa (r_port r) @ '' out of range''))
              else case (if r_start r \<noteq> [] then validateCommand (r_start r) else None) of
                     Some e \<Rightarrow> Some (Wrapf (''start '' @ Quote (r_start r)) e)
                   | None \<Rightarrow> validate_env (r_env r))"

text \<open>\<open>EnvList\<close>: the keys in byte order, each with its value.\<close>

definition EnvList :: "recipe \<Rightarrow> string list" where
  "EnvList r =
    map (\<lambda>k. k @ ''='' @ (case map_of (r_env r) k of None \<Rightarrow> [] | Some v \<Rightarrow> v))
      (sort (map fst (r_env r)))"

section \<open>What a valid command is\<close>

text \<open>
  The specification: the program that \<open>Split\<close> finds is on the allow-list and the line holds none of
  the forbidden tokens.
\<close>

definition safe_command :: "string \<Rightarrow> bool" where
  "safe_command c \<longleftrightarrow>
    fst (snd (Split c)) \<in> set allowedPrograms \<and> list_all (\<lambda>t. \<not> Contains c t) forbiddenTokens"

lemma tokens_no_space: "list_all (\<lambda>t. t \<noteq> [] \<and> list_all (\<lambda>c. c \<notin> set space_bytes) t) forbiddenTokens"
  by code_simp

lemma allowed_ne: "list_all (\<lambda>p. p \<noteq> []) allowedPrograms"
  by code_simp

lemma Contains_token_TrimSpace:
  "t \<in> set forbiddenTokens \<Longrightarrow> Contains (TrimSpace c) t \<longleftrightarrow> Contains c t"
  by (rule Contains_TrimSpace) (use tokens_no_space in \<open>auto simp: list_all_iff\<close>)

lemma Fields_Nil: "Fields [] = []"
  by (simp add: Fields_def flush_def)

lemma validateCommand_iff: "validateCommand c = None \<longleftrightarrow> safe_command c"
proof -
  have tok: "List.find (Contains (TrimSpace c)) forbiddenTokens = None \<longleftrightarrow>
      list_all (\<lambda>t. \<not> Contains c t) forbiddenTokens"
    using Contains_token_TrimSpace by (auto simp: find_None_iff list_all_iff)
  have prog: "fst (snd (Split c)) \<in> set allowedPrograms \<longleftrightarrow>
      (\<exists>p args. dropWhile is_assignment (Fields c) = p # args \<and> p \<in> set allowedPrograms)"
  proof (cases "dropWhile is_assignment (Fields c)")
    case Nil
    have "fst (snd (Split c)) = []" by (simp add: Split_def Let_def Nil)
    moreover have "[] \<notin> set allowedPrograms" using allowed_ne by (auto simp: list_all_iff)
    ultimately show ?thesis by (simp add: Nil)
  qed (simp add: Split_def Let_def)
  have empty: "Fields c = []" if "TrimSpace c = []"
    using Fields_TrimSpace [of c] that by (simp add: Fields_Nil)
  have first: "(case ws of [] \<Rightarrow> Some e | p # _ \<Rightarrow> if p \<in> A then None else Some (g p)) = None \<longleftrightarrow>
      (\<exists>p args. ws = p # args \<and> p \<in> A)" for ws :: "string list" and e :: error and A g
    by (cases ws) auto
  show ?thesis
  proof (cases "TrimSpace c = []")
    case True
    then show ?thesis
      by (auto simp: validateCommand_def safe_command_def prog empty)
  next
    case False
    then show ?thesis
      unfolding validateCommand_def safe_command_def prog tok [symmetric] Let_def
      by (simp add: Fields_TrimSpace first option.case_eq_if conj_commute)
  qed
qed

lemma validateCommand_Some: "validateCommand c = Some e \<Longrightarrow> \<not> safe_command c"
  by (simp flip: validateCommand_iff)

lemma validate_install_iff: "validate_install cs = None \<longleftrightarrow> list_all safe_command cs"
  by (induction cs) (simp_all add: option.case_eq_if flip: validateCommand_iff)

text \<open>An environment entry that cannot be mistaken: a key without separators, a value of one line.\<close>

definition env_ok :: "string \<times> string \<Rightarrow> bool" where
  "env_ok kv \<longleftrightarrow> fst kv \<noteq> [] \<and> CHR ''='' \<notin> set (fst kv) \<and> CHR '' '' \<notin> set (fst kv) \<and>
    CHR 0x0A \<notin> set (fst kv) \<and> CHR 0x0A \<notin> set (snd kv)"

lemma validate_env_iff: "validate_env env = None \<longleftrightarrow> list_all env_ok env"
  by (induction env rule: validate_env.induct) (auto simp: env_ok_def ContainsAny_def list_ex_iff)

text \<open>The specification of a valid recipe.\<close>

definition recipe_ok :: "recipe \<Rightarrow> bool" where
  "recipe_ok r \<longleftrightarrow>
    (r_kind r = KindWeb \<or> r_kind r = KindTerminal) \<and>
    \<not> HasPrefix (r_cwd r) ''/'' \<and> \<not> Contains (r_cwd r) ''..'' \<and>
    length (r_install r) \<le> 8 \<and> list_all safe_command (r_install r) \<and>
    (r_kind r = KindWeb \<longrightarrow> r_start r \<noteq> [] \<and> 1 \<le> r_port r \<and> r_port r \<le> 65535) \<and>
    (r_start r \<noteq> [] \<longrightarrow> safe_command (r_start r)) \<and>
    list_all env_ok (r_env r)"

lemma Validate_recipe_ok: "Validate r = None \<longleftrightarrow> recipe_ok r"
  unfolding Validate_def recipe_ok_def
  by (auto simp: option.case_eq_if validate_install_iff validateCommand_iff validate_env_iff
      KindWeb_def KindTerminal_def dest: validateCommand_Some)

lemma safe_command_parts:
  assumes "safe_command c" and "Split c = (env, prog, args)"
  shows "prog \<in> set allowedPrograms \<and> list_all is_assignment env \<and>
    list_all (\<lambda>w. list_all (\<lambda>t. \<not> Contains w t) forbiddenTokens) (env @ prog # args)"
proof -
  have fields: "Fields c = env @ prog # args"
    using assms allowed_ne
    by (auto simp: safe_command_def Split_def Let_def list_all_iff split: list.splits)
      (metis takeWhile_dropWhile_id)+
  have "list_all is_assignment env"
    using assms(2) by (auto simp: Split_def Let_def list_all_iff dest: set_takeWhileD)
  moreover have "\<not> Contains w t" if "w \<in> set (env @ prog # args)" "t \<in> set forbiddenTokens" for w t
    using assms(1) that Fields_sublist [of w c] fields sublist_order.order.trans
    by (auto simp: safe_command_def list_all_iff Contains_iff)
  ultimately show ?thesis using assms by (auto simp: safe_command_def list_all_iff)
qed

section \<open>The interface of the command policy\<close>

text \<open>
  What the builder relies on when it runs a command line: a line that passed the check splits into
  a program that is allowed and words that are clean.
\<close>

locale command_policy =
  fixes check :: "string \<Rightarrow> error option"
    and split_line :: "string \<Rightarrow> string list \<times> string \<times> string list"
    and allowed :: "string \<Rightarrow> bool"
    and clean :: "string \<Rightarrow> bool"
  assumes check_program: "check c = None \<Longrightarrow> split_line c = (env, prog, args) \<Longrightarrow> allowed prog"
    and check_clean: "check c = None \<Longrightarrow> split_line c = (env, prog, args) \<Longrightarrow>
      list_all clean (env @ prog # args)"
begin

text \<open>A list of checked lines only starts allowed programs with clean arguments.\<close>

definition runnable :: "string list \<times> string \<times> string list \<Rightarrow> bool" where
  "runnable cmd \<longleftrightarrow>
    allowed (fst (snd cmd)) \<and> list_all clean (fst cmd @ fst (snd cmd) # snd (snd cmd))"

lemma check_runnable: "check c = None \<Longrightarrow> runnable (split_line c)"
  using check_program check_clean by (cases "split_line c") (auto simp: runnable_def)

lemma checks_runnable: "list_all (\<lambda>c. check c = None) cs \<Longrightarrow> list_all runnable (map split_line cs)"
  by (auto simp: list_all_iff check_runnable)

end

definition allowed_program :: "string \<Rightarrow> bool" where
  "allowed_program p \<longleftrightarrow> p \<in> set allowedPrograms"

definition token_free :: "string \<Rightarrow> bool" where
  "token_free w \<longleftrightarrow> list_all (\<lambda>t. \<not> Contains w t) forbiddenTokens"

interpretation policy: command_policy validateCommand Split allowed_program token_free
proof
  fix c env prog args
  assume c: "validateCommand c = None" "Split c = (env, prog, args)"
  note parts = safe_command_parts [OF c(1) [unfolded validateCommand_iff] c(2)]
  show "allowed_program prog" using parts by (simp add: allowed_program_def)
  show "list_all token_free (env @ prog # args)"
    using parts by (simp add: token_free_def list_all_iff)
qed

section \<open>Environment lists\<close>

lemma EnvList_perm:
  assumes "wf_map (r_env r)" and "mset env = mset (r_env r)"
  shows "EnvList (r\<lparr>r_env := env\<rparr>) = EnvList r"
proof -
  have "sort (map fst env) = sort (map fst (r_env r))"
    by (rule properties_for_sort) (simp_all add: assms(2))
  with map_of_perm [OF assms] show ?thesis by (simp add: EnvList_def)
qed

definition env_pair :: "string \<Rightarrow> string \<times> string" where
  "env_pair e = (case CutByte (CHR ''='') e of (k, v, _) \<Rightarrow> (k, v))"

lemma env_pair_app: "CHR ''='' \<notin> set k \<Longrightarrow> env_pair (k @ ''='' @ v) = (k, v)"
  by (simp add: env_pair_def)

lemma EnvList_pairs:
  assumes "wf_map (r_env r)" and "list_all env_ok (r_env r)"
  shows "mset (map env_pair (EnvList r)) = mset (r_env r)"
proof -
  let ?val = "\<lambda>k. case map_of (r_env r) k of None \<Rightarrow> [] | Some v \<Rightarrow> v"
  have key: "CHR ''='' \<notin> set k" if "k \<in> set (map fst (r_env r))" for k
    using that assms(2) by (auto simp: list_all_iff env_ok_def)
  have "map env_pair (EnvList r) = map (\<lambda>k. (k, ?val k)) (sort (map fst (r_env r)))"
    unfolding EnvList_def map_map by (rule map_cong [OF refl]) (use key env_pair_app in auto)
  then have "mset (map env_pair (EnvList r)) = mset (map (\<lambda>k. (k, ?val k)) (map fst (r_env r)))"
    by (simp add: image_mset.compositionality)
  also have "map (\<lambda>k. (k, ?val k)) (map fst (r_env r)) = r_env r"
    unfolding map_map by (rule map_idI) (use assms(1) wf_map_in_iff in \<open>fastforce\<close>)
  finally show ?thesis .
qed

section \<open>Properties\<close>

text \<open>
  C25: \<open>Validate\<close> accepts exactly the recipes of the specification: a known kind, a relative working
  directory without "..", at most eight install commands, every install and start command
  safe, a start command and a port in range for a web recipe, and a well-formed environment.
\<close>

theorem Validate_spec: "Validate r = None \<longleftrightarrow> recipe_ok r"
  by (rule Validate_recipe_ok)

text \<open>
  C7: Every command of a valid recipe, install or start, is split into environment assignments,
  a program of the allow-list, and arguments, and none of these words contains one of the thirteen
  strings of \<open>forbiddenTokens\<close>. These are not all the operators of a shell, as the next lemma shows; no
  shell reads the line, so what they miss reaches the program as an argument.
\<close>

theorem validated_commands_allowed:
  assumes "Validate r = None" and "c \<in> set (r_install r) \<or> (c = r_start r \<and> c \<noteq> [])"
    and "Split c = (env, prog, args)"
  shows "prog \<in> set allowedPrograms \<and> list_all is_assignment env \<and>
    list_all (\<lambda>w. list_all (\<lambda>t. \<not> Contains w t) forbiddenTokens) (env @ prog # args)"
proof (rule safe_command_parts [OF _ assms(3)])
  show "safe_command c"
    using assms(1,2) by (auto simp: Validate_recipe_ok recipe_ok_def list_all_iff)
qed

definition demo_recipe :: recipe where
  "demo_recipe = \<lparr>r_kind = ''web'', r_cwd = [], r_install = [''npm ci''],
    r_start = ''NODE_ENV=dev npm run dev -- --host 0.0.0.0'', r_port = 5173,
    r_env = [(''PORT'', ''5173''), (''CI'', ''true'')], r_detector = []\<rparr>"

theorem validated_commands_allowed_witness:
  "''npm'' \<in> set allowedPrograms \<and>
    list_all (\<lambda>w. list_all (\<lambda>t. \<not> Contains w t) forbiddenTokens)
      [''NODE_ENV=dev'', ''npm'', ''run'', ''dev'', ''--'', ''--host'', ''0.0.0.0'']"
proof -
  have v: "Validate demo_recipe = None" by code_simp
  have c: "r_start demo_recipe \<in> set (r_install demo_recipe) \<or>
    (r_start demo_recipe = r_start demo_recipe \<and> r_start demo_recipe \<noteq> [])"
    by (simp add: demo_recipe_def)
  have s: "Split (r_start demo_recipe) =
    ([''NODE_ENV=dev''], ''npm'', [''run'', ''dev'', ''--'', ''--host'', ''0.0.0.0''])" by code_simp
  show ?thesis using validated_commands_allowed [OF v c s] by simp
qed

text \<open>
  A single ampersand, a line break and the expansion of a variable pass the check, although its comment promises
  a line without shell metacharacters.
\<close>

lemma accepted_metacharacters:
  "validateCommand ''npm start & x'' = None" "Split ''npm start & x'' = ([], ''npm'', [''start'', ''&'', ''x''])"
  "validateCommand (''npm ci'' @ [CHR 0x0A] @ ''bash x'') = None" "validateCommand ''echo=1 node $HOME'' = None"
  by code_simp+

text \<open>
  Words without white space survive \<open>Split\<close>: a line of assignments, a program and arguments
  joined by blanks is split into exactly these parts.
\<close>

theorem Split_Join:
  assumes "list_all plain_word (env @ prog # args)" and "list_all is_assignment env"
    and "\<not> is_assignment prog"
  shows "Split (Join (env @ prog # args) '' '') = (env, prog, args)"
proof -
  have "Fields (Join (env @ prog # args) '' '') = env @ prog # args"
    by (rule Fields_Join) (use assms(1) in \<open>simp add: list_all_iff\<close>)
  moreover have "takeWhile is_assignment (env @ prog # args) = env"
    "dropWhile is_assignment (env @ prog # args) = prog # args"
    using assms(2,3) by (simp_all add: list_all_iff takeWhile_append dropWhile_append)
  ultimately show ?thesis by (simp add: Split_def)
qed

theorem Split_Join_witness:
  "Split (Join [''A=1'', ''npm'', ''ci''] '' '') = ([''A=1''], ''npm'', [''ci''])"
proof -
  have "list_all plain_word ([''A=1''] @ ''npm'' # [''ci''])" by code_simp
  moreover have "list_all is_assignment [''A=1'']" by code_simp
  moreover have "\<not> is_assignment ''npm''" by code_simp
  ultimately show ?thesis using Split_Join [of "[''A=1'']" "''npm''" "[''ci'']"] by simp
qed

text \<open>
  \<open>EnvList\<close> does not depend on the iteration order of the map, its keys come in byte order, and
  cutting its entries at the first \<open>=\<close> gives the environment of a valid recipe back.
\<close>

theorem EnvList_roundtrip:
  assumes "Validate r = None" and "wf_map (r_env r)" and "mset env = mset (r_env r)"
  shows "EnvList (r\<lparr>r_env := env\<rparr>) = EnvList r \<and>
    mset (map env_pair (EnvList r)) = mset (r_env r) \<and> sorted (map (fst \<circ> env_pair) (EnvList r))"
proof -
  have ok: "list_all env_ok (r_env r)" using assms(1) by (simp add: Validate_recipe_ok recipe_ok_def)
  have "map (fst \<circ> env_pair) (EnvList r) = sort (map fst (r_env r))"
    unfolding EnvList_def map_map
    by (rule map_idI) (use ok env_pair_app in \<open>auto simp: list_all_iff env_ok_def\<close>)
  with EnvList_perm [OF assms(2,3)] EnvList_pairs [OF assms(2) ok] show ?thesis by simp
qed

theorem EnvList_roundtrip_witness:
  "EnvList (demo_recipe\<lparr>r_env := [(''CI'', ''true''), (''PORT'', ''5173'')]\<rparr>) = EnvList demo_recipe \<and>
    EnvList demo_recipe = [''CI=true'', ''PORT=5173'']"
proof -
  have v: "Validate demo_recipe = None" by code_simp
  have w: "wf_map (r_env demo_recipe)" by code_simp
  have m: "mset [(''CI'', ''true''), (''PORT'', ''5173'')] = mset (r_env demo_recipe)"
    by (simp add: demo_recipe_def)
  have e: "EnvList demo_recipe = [''CI=true'', ''PORT=5173'']" by code_simp
  show ?thesis using EnvList_roundtrip [OF v w m] e by blast
qed

end
