(* ===== verification/Fanout.thy ===== *)
theory Fanout
  imports Prelude
begin

text \<open>
  \<open>internal/fanout/fanout.go\<close>: an append-only event history with subscribers. The log is a record;
  \<open>Emit\<close>, \<open>Finish\<close> and \<open>Subscribe\<close> are functions on it; the goroutine that \<open>Subscribe\<close> starts is a step
  relation, one rule for each way through its loop, its \<open>select\<close> statements and its deferred calls.
  A run interleaves calls, goroutine steps, receives and cancellations in any order: every step is
  what the code does between two points where other goroutines can run (under the mutex, or at one
  channel operation).
\<close>

section \<open>The log and its subscribers\<close>

text \<open>
  Where a subscriber's goroutine stands: at the head of its loop, in the \<open>select\<close> that sends an
  event, in the \<open>select\<close> that waits to be woken, before the deferred \<open>delete\<close>, before the deferred
  \<open>close\<close>, ended.
\<close>

datatype 'a sub_pc = Looping | Sending 'a | Waiting | Leaving | Closing | Gone

text \<open>
  \<open>sb_wake\<close> is the buffered channel \<open>wake\<close> of capacity 1 (a token or none), \<open>sb_out\<close> the buffer of the
  channel \<open>out\<close>, \<open>sb_reg\<close> membership in the set \<open>subs\<close>, \<open>sb_ctx\<close> that the context has ended, \<open>sb_got\<close>
  what the reader of the channel has received.
\<close>

record 'a sub =
  sb_pc :: "'a sub_pc"
  sb_cursor :: nat
  sb_wake :: bool
  sb_reg :: bool
  sb_out :: "'a list"
  sb_closed :: bool
  sb_ctx :: bool
  sb_got :: "'a list"

record 'a log =
  lg_events :: "'a list"
  lg_done :: bool
  lg_subs :: "'a sub list"

definition out_cap :: nat where
  "out_cap = 64"

definition New :: "'a log" where
  "New = \<lparr>lg_events = [], lg_done = False, lg_subs = []\<rparr>"

definition wakeAll :: "'a log \<Rightarrow> 'a log" where
  "wakeAll l =
    l\<lparr>lg_subs := map (\<lambda>s. if sb_reg s then s\<lparr>sb_wake := True\<rparr> else s) (lg_subs l)\<rparr>"

definition Emit :: "'a \<Rightarrow> 'a log \<Rightarrow> 'a log" where
  "Emit ev l = wakeAll (l\<lparr>lg_events := lg_events l @ [ev]\<rparr>)"

definition Finish :: "'a log \<Rightarrow> 'a log" where
  "Finish l = wakeAll (l\<lparr>lg_done := True\<rparr>)"

definition Done :: "'a log \<Rightarrow> bool" where
  "Done l = lg_done l"

definition Events :: "'a log \<Rightarrow> 'a list" where
  "Events l = lg_events l"

definition new_sub :: "'a sub" where
  "new_sub = \<lparr>sb_pc = Looping, sb_cursor = 0, sb_wake = False, sb_reg = True, sb_out = [],
    sb_closed = False, sb_ctx = False, sb_got = []\<rparr>"

definition Subscribe :: "'a log \<Rightarrow> 'a log" where
  "Subscribe l = l\<lparr>lg_subs := lg_subs l @ [new_sub]\<rparr>"

text \<open>The goroutine of \<open>Subscribe\<close>.\<close>

inductive goroutine :: "'a log \<Rightarrow> 'a sub \<Rightarrow> 'a sub \<Rightarrow> bool" where
  take_event: "sb_pc s = Looping \<Longrightarrow> sb_cursor s < length (lg_events l) \<Longrightarrow>
    goroutine l s
      (s\<lparr>sb_pc := Sending (lg_events l ! sb_cursor s), sb_cursor := Suc (sb_cursor s)\<rparr>)"
| see_done: "sb_pc s = Looping \<Longrightarrow> \<not> sb_cursor s < length (lg_events l) \<Longrightarrow> lg_done l \<Longrightarrow>
    goroutine l s (s\<lparr>sb_pc := Leaving\<rparr>)"
| go_wait: "sb_pc s = Looping \<Longrightarrow> \<not> sb_cursor s < length (lg_events l) \<Longrightarrow> \<not> lg_done l \<Longrightarrow>
    goroutine l s (s\<lparr>sb_pc := Waiting\<rparr>)"
| send_out: "sb_pc s = Sending ev \<Longrightarrow> length (sb_out s) < out_cap \<Longrightarrow>
    goroutine l s (s\<lparr>sb_pc := Looping, sb_out := sb_out s @ [ev]\<rparr>)"
| send_cancelled: "sb_pc s = Sending ev \<Longrightarrow> sb_ctx s \<Longrightarrow>
    goroutine l s (s\<lparr>sb_pc := Leaving\<rparr>)"
| woken: "sb_pc s = Waiting \<Longrightarrow> sb_wake s \<Longrightarrow>
    goroutine l s (s\<lparr>sb_pc := Looping, sb_wake := False\<rparr>)"
| wait_cancelled: "sb_pc s = Waiting \<Longrightarrow> sb_ctx s \<Longrightarrow>
    goroutine l s (s\<lparr>sb_pc := Leaving\<rparr>)"
| unregister: "sb_pc s = Leaving \<Longrightarrow>
    goroutine l s (s\<lparr>sb_pc := Closing, sb_reg := False\<rparr>)"
| close_out: "sb_pc s = Closing \<Longrightarrow>
    goroutine l s (s\<lparr>sb_pc := Gone, sb_closed := True\<rparr>)"

code_pred (modes: i \<Rightarrow> i \<Rightarrow> o \<Rightarrow> bool) goroutine .

text \<open>What can happen to a log: calls, subscriber \<open>i\<close> moving, its reader receiving, its context ending.\<close>

datatype 'a act = CallEmit 'a | CallFinish | CallSubscribe | Run nat | Recv nat | Cancel nat

inductive log_step :: "'a log \<Rightarrow> 'a act \<Rightarrow> 'a log \<Rightarrow> bool" where
  emit: "log_step l (CallEmit ev) (Emit ev l)"
| finish: "log_step l CallFinish (Finish l)"
| subscribe: "log_step l CallSubscribe (Subscribe l)"
| run: "i < length (lg_subs l) \<Longrightarrow> goroutine l (lg_subs l ! i) s' \<Longrightarrow>
    log_step l (Run i) (l\<lparr>lg_subs := (lg_subs l)[i := s']\<rparr>)"
| recv: "i < length (lg_subs l) \<Longrightarrow> lg_subs l ! i = s \<Longrightarrow> sb_out s = x # xs \<Longrightarrow>
    log_step l (Recv i)
      (l\<lparr>lg_subs := (lg_subs l)[i := s\<lparr>sb_out := xs, sb_got := sb_got s @ [x]\<rparr>]\<rparr>)"
| cancel: "i < length (lg_subs l) \<Longrightarrow> lg_subs l ! i = s \<Longrightarrow>
    log_step l (Cancel i) (l\<lparr>lg_subs := (lg_subs l)[i := s\<lparr>sb_ctx := True\<rparr>]\<rparr>)"

inductive log_run :: "'a log \<Rightarrow> 'a act list \<Rightarrow> 'a log \<Rightarrow> bool" for l where
  run_nil: "log_run l [] l"
| run_snoc: "log_run l as m \<Longrightarrow> log_step m a n \<Longrightarrow> log_run l (as @ [a]) n"

inductive_cases goroutine_E: "goroutine l s s'"
inductive_cases log_step_RunE: "log_step l (Run i) m"
inductive_cases log_step_RecvE: "log_step l (Recv i) m"
inductive_simps log_step_emit_iff: "log_step l (CallEmit ev) m"
inductive_simps log_step_finish_iff: "log_step l CallFinish m"
inductive_simps log_step_subscribe_iff: "log_step l CallSubscribe m"
inductive_simps log_run_Nil_iff: "log_run l [] m"

text \<open>The events of a run, all of them and those before the first call of \<open>Finish\<close>.\<close>

fun emitted :: "'a act list \<Rightarrow> 'a list" where
  "emitted [] = []"
| "emitted (CallEmit ev # as) = ev # emitted as"
| "emitted (_ # as) = emitted as"

definition before_finish :: "'a act list \<Rightarrow> 'a act list" where
  "before_finish as = takeWhile (\<lambda>a. a \<noteq> CallFinish) as"

lemma emitted_app [simp]: "emitted (as @ bs) = emitted as @ emitted bs"
  by (induction as rule: emitted.induct) auto

lemma before_finish_app:
  "CallFinish \<in> set as \<Longrightarrow> before_finish (as @ bs) = before_finish as"
  by (auto simp: before_finish_def takeWhile_append)

lemma before_finish_snoc:
  "before_finish (as @ [a]) =
    (if CallFinish \<in> set as then before_finish as
     else if a = CallFinish then as else as @ [a])"
  by (auto simp: before_finish_def takeWhile_append takeWhile_eq_all_conv)

section \<open>The interface of an event log\<close>

text \<open>
  What the builder and the session manager rely on: a history that only grows, by the event that is
  emitted, also after it was finished, and a flag that only \<open>Finish\<close> sets.
\<close>

locale event_log =
  fixes empty :: 'l
    and emit :: "'e \<Rightarrow> 'l \<Rightarrow> 'l"
    and finish :: "'l \<Rightarrow> 'l"
    and events :: "'l \<Rightarrow> 'e list"
    and is_done :: "'l \<Rightarrow> bool"
  assumes events_empty: "events empty = []"
    and events_emit: "events (emit e l) = events l @ [e]"
    and events_finish: "events (finish l) = events l"
    and done_empty: "\<not> is_done empty"
    and done_emit: "is_done (emit e l) = is_done l"
    and done_finish: "is_done (finish l)"
begin

lemma events_emits: "events (fold emit es l) = events l @ es"
  by (induction es arbitrary: l) (simp_all add: events_emit)

lemma done_emits: "is_done (fold emit es l) = is_done l"
  by (induction es arbitrary: l) (simp_all add: done_emit)

lemmas log_facts = events_empty events_emit events_finish done_empty done_emit done_finish
  events_emits done_emits

end

lemma wakeAll_sel [simp]:
  "lg_events (wakeAll l) = lg_events l" "lg_done (wakeAll l) = lg_done l"
  "length (lg_subs (wakeAll l)) = length (lg_subs l)"
  by (simp_all add: wakeAll_def)

lemma Emit_sel [simp]:
  "lg_events (Emit ev l) = lg_events l @ [ev]" "lg_done (Emit ev l) = lg_done l"
  "length (lg_subs (Emit ev l)) = length (lg_subs l)"
  by (simp_all add: Emit_def)

lemma Finish_sel [simp]:
  "lg_events (Finish l) = lg_events l" "lg_done (Finish l)"
  "length (lg_subs (Finish l)) = length (lg_subs l)"
  by (simp_all add: Finish_def)

lemma Subscribe_sel [simp]:
  "lg_events (Subscribe l) = lg_events l" "lg_done (Subscribe l) = lg_done l"
  by (simp_all add: Subscribe_def)

interpretation flog: event_log New Emit Finish Events Done
  by unfold_locales (simp_all add: New_def Events_def Done_def)

section \<open>The invariant\<close>

definition pending :: "'a sub \<Rightarrow> 'a list" where
  "pending s = (case sb_pc s of Sending ev \<Rightarrow> [ev] | _ \<Rightarrow> [])"

definition leaving :: "'a sub \<Rightarrow> bool" where
  "leaving s \<longleftrightarrow> sb_pc s \<in> {Leaving, Closing, Gone}"

text \<open>
  The subscriber has taken the first \<open>sb_cursor\<close> events; what its reader has, what is buffered and
  what it is sending are those events in order (a cancelled one may have dropped the last). One
  that waits without a token has nothing to do. One that leaves on its own has taken all of the
  first \<open>n\<close> events, where \<open>n\<close> counts the events before \<open>Finish\<close>.
\<close>

definition sub_inv :: "nat \<Rightarrow> 'a list \<Rightarrow> bool \<Rightarrow> 'a sub \<Rightarrow> bool" where
  "sub_inv n evs fin s \<longleftrightarrow>
    sb_cursor s \<le> length evs \<and>
    prefix (sb_got s @ sb_out s @ pending s) (take (sb_cursor s) evs) \<and>
    (sb_ctx s \<and> leaving s \<or> sb_got s @ sb_out s @ pending s = take (sb_cursor s) evs) \<and>
    length (sb_out s) \<le> out_cap \<and>
    (sb_reg s \<longleftrightarrow> sb_pc s \<noteq> Closing \<and> sb_pc s \<noteq> Gone) \<and>
    (sb_closed s \<longleftrightarrow> sb_pc s = Gone) \<and>
    (sb_pc s = Waiting \<and> \<not> sb_wake s \<longrightarrow> sb_cursor s = length evs \<and> \<not> fin) \<and>
    (leaving s \<and> \<not> sb_ctx s \<longrightarrow> fin \<and> n \<le> sb_cursor s)"

definition log_inv :: "'a act list \<Rightarrow> 'a log \<Rightarrow> bool" where
  "log_inv as l \<longleftrightarrow>
    lg_events l = emitted as \<and>
    (lg_done l \<longleftrightarrow> CallFinish \<in> set as) \<and>
    (\<forall>s \<in> set (lg_subs l).
      sub_inv (length (emitted (before_finish as))) (lg_events l) (lg_done l) s)"

lemma emitted_before_finish_le: "length (emitted (before_finish as)) \<le> length (emitted as)"
proof -
  have "as = before_finish as @ dropWhile (\<lambda>a. a \<noteq> CallFinish) as"
    by (simp add: before_finish_def)
  then have "emitted as = emitted (before_finish as) @ emitted (dropWhile (\<lambda>a. a \<noteq> CallFinish) as)"
    by (metis emitted_app)
  then show ?thesis by simp
qed

lemma sub_inv_new: "sub_inv n evs fin new_sub"
  by (simp add: sub_inv_def new_sub_def pending_def leaving_def)

text \<open>Each step of the goroutine keeps the invariant.\<close>

lemma goroutine_inv:
  assumes "goroutine l s s'" and "sub_inv n (lg_events l) (lg_done l) s"
    and "n \<le> length (lg_events l)"
  shows "sub_inv n (lg_events l) (lg_done l) s'"
  using assms
proof (induction rule: goroutine.induct)
  case (take_event s l)
  then show ?case
    by (auto simp: sub_inv_def pending_def leaving_def take_Suc_conv_app_nth)
next
  case (send_cancelled s ev l)
  then show ?case
    by (auto simp: sub_inv_def pending_def leaving_def simp flip: append_assoc dest: append_prefixD)
qed (auto simp: sub_inv_def pending_def leaving_def)

lemma recv_inv:
  "sub_inv n evs fin s \<Longrightarrow> sb_out s = x # xs \<Longrightarrow>
    sub_inv n evs fin (s\<lparr>sb_out := xs, sb_got := sb_got s @ [x]\<rparr>)"
  by (auto simp: sub_inv_def pending_def leaving_def)

lemma cancel_inv: "sub_inv n evs fin s \<Longrightarrow> sub_inv n evs fin (s\<lparr>sb_ctx := True\<rparr>)"
  by (auto simp: sub_inv_def pending_def leaving_def)

text \<open>The calls: a new event, or the end, wakes every registered subscriber.\<close>

definition woken_sub :: "'a sub \<Rightarrow> 'a sub" where
  "woken_sub s = (if sb_reg s then s\<lparr>sb_wake := True\<rparr> else s)"

lemma set_subs_wakeAll: "set (lg_subs (wakeAll l)) = woken_sub ` set (lg_subs l)"
  by (simp add: wakeAll_def woken_sub_def)

lemma emit_inv: "sub_inv n evs fin s \<Longrightarrow> n \<le> length evs \<Longrightarrow>
    sub_inv (if fin then n else Suc n) (evs @ [ev]) fin (woken_sub s)"
  by (auto simp: sub_inv_def pending_def leaving_def woken_sub_def intro: prefix_prefix)

lemma finish_inv: "sub_inv n evs fin s \<Longrightarrow> sub_inv n evs True (woken_sub s)"
  by (auto simp: sub_inv_def pending_def leaving_def woken_sub_def)

lemma sub_inv_unfinished: "sub_inv n evs False s \<Longrightarrow> sub_inv m evs False s"
  by (auto simp: sub_inv_def)

lemma log_step_inv:
  assumes step: "log_step l a m" and inv: "log_inv as l"
  shows "log_inv (as @ [a]) m"
  using step
proof cases
  case (emit ev)
  let ?n = "length (emitted (before_finish as))"
  have "sub_inv (length (emitted (before_finish (as @ [a])))) (lg_events m) (lg_done m) s"
    if "s \<in> set (lg_subs m)" for s
  proof -
    from that emit obtain s0 where s0: "s0 \<in> set (lg_subs l)" "s = woken_sub s0"
      by (auto simp: Emit_def set_subs_wakeAll)
    have "sub_inv ?n (emitted as) (lg_done l) s0" "?n \<le> length (emitted as)"
      using inv s0 emitted_before_finish_le by (auto simp: log_inv_def)
    from emit_inv [OF this, of ev] sub_inv_unfinished show ?thesis
      using emit inv s0(2) by (auto simp: log_inv_def before_finish_snoc)
  qed
  with emit inv show ?thesis by (auto simp: log_inv_def)
next
  case finish
  have "sub_inv (length (emitted (before_finish (as @ [a])))) (lg_events m) (lg_done m) s"
    if "s \<in> set (lg_subs m)" for s
  proof -
    from that finish obtain s0 where s0: "s0 \<in> set (lg_subs l)" "s = woken_sub s0"
      by (auto simp: Finish_def set_subs_wakeAll)
    have s0_inv: "sub_inv (length (emitted (before_finish as))) (emitted as) (lg_done l) s0"
      using inv s0 by (auto simp: log_inv_def)
    have "sub_inv (length (emitted (before_finish (as @ [a])))) (emitted as) (lg_done l) s0"
      using s0_inv sub_inv_unfinished inv by (auto simp: before_finish_snoc finish log_inv_def)
    from finish_inv [OF this] show ?thesis using finish inv s0(2) by (simp add: log_inv_def)
  qed
  with finish inv show ?thesis by (auto simp: log_inv_def)
next
  case subscribe
  then show ?thesis using inv sub_inv_new
    by (auto simp: log_inv_def Subscribe_def before_finish_snoc sub_inv_unfinished)
next
  case (run i s')
  then have "sub_inv (length (emitted (before_finish as))) (lg_events l) (lg_done l) s'"
    using goroutine_inv inv emitted_before_finish_le by (fastforce simp: log_inv_def)
  with run inv show ?thesis
    by (auto simp: log_inv_def before_finish_snoc sub_inv_unfinished dest!: set_update_subset_insert [THEN subsetD])
next
  case (recv i s x xs)
  then have "sub_inv (length (emitted (before_finish as))) (lg_events l) (lg_done l)
      (s\<lparr>sb_out := xs, sb_got := sb_got s @ [x]\<rparr>)"
    using recv_inv inv by (fastforce simp: log_inv_def)
  with recv inv show ?thesis
    by (auto simp: log_inv_def before_finish_snoc sub_inv_unfinished dest!: set_update_subset_insert [THEN subsetD])
next
  case (cancel i s)
  then have "sub_inv (length (emitted (before_finish as))) (lg_events l) (lg_done l) (s\<lparr>sb_ctx := True\<rparr>)"
    using cancel_inv inv by (fastforce simp: log_inv_def)
  with cancel inv show ?thesis
    by (auto simp: log_inv_def before_finish_snoc sub_inv_unfinished dest!: set_update_subset_insert [THEN subsetD])
qed

lemma log_run_inv: "log_run New as l \<Longrightarrow> log_inv as l"
proof (induction rule: log_run.induct)
  case run_nil
  then show ?case by (simp add: log_inv_def New_def)
next
  case (run_snoc as m a n)
  then show ?case using log_step_inv by blast
qed

lemma run_sub_inv:
  "log_run New as l \<Longrightarrow> i < length (lg_subs l) \<Longrightarrow>
    sub_inv (length (emitted (before_finish as))) (emitted as) (CallFinish \<in> set as) (lg_subs l ! i)"
  using log_run_inv by (fastforce simp: log_inv_def)

lemma run_events: "log_run New as l \<Longrightarrow> lg_events l = emitted as \<and> (lg_done l \<longleftrightarrow> CallFinish \<in> set as)"
  using log_run_inv by (auto simp: log_inv_def)

lemma log_run_app: "log_run m bs n \<Longrightarrow> log_run l as m \<Longrightarrow> log_run l (as @ bs) n"
  by (induction rule: log_run.induct) (auto intro: run_snoc simp flip: append_assoc)

lemma before_finish_take: "emitted (before_finish as) = take (length (emitted (before_finish as))) (emitted as)"
proof -
  have "emitted as = emitted (before_finish as) @ emitted (dropWhile (\<lambda>a. a \<noteq> CallFinish) as)"
    unfolding before_finish_def by (metis emitted_app takeWhile_dropWhile_id)
  then show ?thesis by (metis append_eq_conv_conj)
qed

lemma closed_complete:
  assumes "log_run New as l" and "i < length (lg_subs l)"
    and "sb_closed (lg_subs l ! i)" and "\<not> sb_ctx (lg_subs l ! i)"
  shows "CallFinish \<in> set as \<and>
    prefix (emitted (before_finish as)) (sb_got (lg_subs l ! i) @ sb_out (lg_subs l ! i))"
proof -
  let ?s = "lg_subs l ! i" and ?n = "length (emitted (before_finish as))"
  have s: "sb_got ?s @ sb_out ?s = take (sb_cursor ?s) (emitted as)" "?n \<le> sb_cursor ?s"
    "CallFinish \<in> set as"
    using run_sub_inv [OF assms(1,2)] assms(3,4) by (auto simp: sub_inv_def pending_def leaving_def)
  then have "prefix (emitted (before_finish as)) (take (sb_cursor ?s) (emitted as))"
    by (subst before_finish_take) (metis min_def take_is_prefix take_take)
  with s show ?thesis by simp
qed

section \<open>Draining\<close>

text \<open>
  After \<open>Finish\<close>, each step of a subscriber and each receive of its reader uses up one unit: five
  for an event not taken yet, one for a buffered event, and what the place in the loop still needs.
\<close>

fun pc_weight :: "'a sub_pc \<Rightarrow> nat" where
  "pc_weight Looping = 3"
| "pc_weight (Sending ev) = 5"
| "pc_weight Waiting = 3"
| "pc_weight Leaving = 2"
| "pc_weight Closing = 1"
| "pc_weight Gone = 0"

definition drain_measure :: "'a list \<Rightarrow> 'a sub \<Rightarrow> nat" where
  "drain_measure evs s =
    5 * (length evs - sb_cursor s) + length (sb_out s) + of_bool (sb_wake s) + pc_weight (sb_pc s)"

lemma goroutine_drains:
  "goroutine l s s' \<Longrightarrow> lg_done l \<Longrightarrow>
    drain_measure (lg_events l) s' < drain_measure (lg_events l) s"
  by (induction rule: goroutine.induct) (auto simp: drain_measure_def)

lemma drain_step:
  assumes "log_step l a m" and "a \<in> {Run i, Recv i}" and "lg_done l"
  shows "drain_measure (lg_events m) (lg_subs m ! i) < drain_measure (lg_events l) (lg_subs l ! i)
    \<and> lg_events m = lg_events l \<and> lg_done m \<and> length (lg_subs m) = length (lg_subs l)"
  using assms by cases (auto dest: goroutine_drains simp: drain_measure_def)

lemma drain_run:
  assumes "log_run l bs m" and "set bs \<subseteq> {Run i, Recv i}" and "lg_done l"
  shows "length bs + drain_measure (lg_events m) (lg_subs m ! i)
      \<le> drain_measure (lg_events l) (lg_subs l ! i)
    \<and> lg_events m = lg_events l \<and> lg_done m \<and> length (lg_subs m) = length (lg_subs l)"
  using assms
proof (induction rule: log_run.induct)
  case run_nil
  then show ?case by simp
next
  case (run_snoc bs m a n)
  then have "length bs + drain_measure (lg_events m) (lg_subs m ! i)
      \<le> drain_measure (lg_events l) (lg_subs l ! i)" "lg_done m" "a \<in> {Run i, Recv i}"
    "lg_events m = lg_events l" "length (lg_subs m) = length (lg_subs l)" by auto
  with drain_step [OF run_snoc.hyps(2)] show ?case by fastforce
qed

text \<open>When a goroutine cannot move.\<close>

lemma goroutine_stuck:
  assumes "\<forall>s'. \<not> goroutine l s s'"
  shows "sb_pc s = Gone \<or> (\<exists>ev. sb_pc s = Sending ev \<and> out_cap \<le> length (sb_out s)) \<or>
    (sb_pc s = Waiting \<and> \<not> sb_wake s)"
proof (cases "sb_pc s")
  case Looping
  then show ?thesis using assms goroutine.take_event goroutine.see_done goroutine.go_wait by metis
next
  case (Sending ev)
  then show ?thesis using assms goroutine.send_out not_le by metis
next
  case Waiting
  then show ?thesis using assms goroutine.woken by metis
next
  case Leaving
  then show ?thesis using assms goroutine.unregister by metis
next
  case Closing
  then show ?thesis using assms goroutine.close_out by metis
qed simp

lemma run_stuck:
  assumes "i < length (lg_subs m)" and "\<forall>n. \<not> log_step m (Run i) n"
  shows "\<forall>s'. \<not> goroutine m (lg_subs m ! i) s'"
  using assms log_step.run by blast

lemma recv_stuck:
  assumes "i < length (lg_subs m)" and "\<forall>n. \<not> log_step m (Recv i) n"
  shows "sb_out (lg_subs m ! i) = []"
proof (cases "sb_out (lg_subs m ! i)")
  case (Cons x xs)
  from log_step.recv [OF assms(1) refl this] assms(2) show ?thesis by blast
qed

section \<open>An executable scheduler\<close>

text \<open>
  One way to run the relation: a goroutine that can send does so, cancelled or not. It produces the
  concrete runs of the witnesses.
\<close>

definition move :: "'a log \<Rightarrow> 'a sub \<Rightarrow> 'a sub option" where
  "move l s =
    (case sb_pc s of
       Looping \<Rightarrow>
         if sb_cursor s < length (lg_events l)
         then Some (s\<lparr>sb_pc := Sending (lg_events l ! sb_cursor s), sb_cursor := Suc (sb_cursor s)\<rparr>)
         else if lg_done l then Some (s\<lparr>sb_pc := Leaving\<rparr>)
         else Some (s\<lparr>sb_pc := Waiting\<rparr>)
     | Sending ev \<Rightarrow>
         if length (sb_out s) < out_cap
         then Some (s\<lparr>sb_pc := Looping, sb_out := sb_out s @ [ev]\<rparr>)
         else if sb_ctx s then Some (s\<lparr>sb_pc := Leaving\<rparr>) else None
     | Waiting \<Rightarrow>
         if sb_wake s then Some (s\<lparr>sb_pc := Looping, sb_wake := False\<rparr>)
         else if sb_ctx s then Some (s\<lparr>sb_pc := Leaving\<rparr>) else None
     | Leaving \<Rightarrow> Some (s\<lparr>sb_pc := Closing, sb_reg := False\<rparr>)
     | Closing \<Rightarrow> Some (s\<lparr>sb_pc := Gone, sb_closed := True\<rparr>)
     | Gone \<Rightarrow> None)"

fun do_act :: "'a log \<Rightarrow> 'a act \<Rightarrow> 'a log option" where
  "do_act l (CallEmit ev) = Some (Emit ev l)"
| "do_act l CallFinish = Some (Finish l)"
| "do_act l CallSubscribe = Some (Subscribe l)"
| "do_act l (Run i) =
    (if i < length (lg_subs l)
     then map_option (\<lambda>s'. l\<lparr>lg_subs := (lg_subs l)[i := s']\<rparr>) (move l (lg_subs l ! i)) else None)"
| "do_act l (Recv i) =
    (if i < length (lg_subs l)
     then case sb_out (lg_subs l ! i) of
            [] \<Rightarrow> None
          | x # xs \<Rightarrow>
              Some (l\<lparr>lg_subs := (lg_subs l)
                [i := (lg_subs l ! i)\<lparr>sb_out := xs, sb_got := sb_got (lg_subs l ! i) @ [x]\<rparr>]\<rparr>)
     else None)"
| "do_act l (Cancel i) =
    (if i < length (lg_subs l)
     then Some (l\<lparr>lg_subs := (lg_subs l)[i := (lg_subs l ! i)\<lparr>sb_ctx := True\<rparr>]\<rparr>) else None)"

fun do_acts :: "'a log \<Rightarrow> 'a act list \<Rightarrow> 'a log option" where
  "do_acts l [] = Some l"
| "do_acts l (a # as) = (case do_act l a of None \<Rightarrow> None | Some m \<Rightarrow> do_acts m as)"

lemma move_goroutine: "move l s = Some s' \<Longrightarrow> goroutine l s s'"
  by (auto simp: move_def split: sub_pc.splits if_splits intro: goroutine.intros)

lemma do_act_step: "do_act l a = Some m \<Longrightarrow> log_step l a m"
  by (cases a) (auto split: if_splits list.splits intro: log_step.intros dest: move_goroutine)

lemma log_run_Cons: "log_step l a m \<Longrightarrow> log_run m as n \<Longrightarrow> log_run l (a # as) n"
  using log_run_app [of m as n l "[a]"] run_snoc [OF run_nil] by fastforce

lemma do_acts_run: "do_acts l as = Some m \<Longrightarrow> log_run l as m"
proof (induction as arbitrary: l)
  case Nil
  then show ?case by (simp add: run_nil)
next
  case (Cons a as)
  then show ?case by (auto split: option.splits intro: log_run_Cons do_act_step)
qed

text \<open>A run: a subscriber that joins late, waits, is woken by \<open>Finish\<close> and drains.\<close>

definition demo_acts :: "nat act list" where
  "demo_acts =
    [CallEmit 7, CallSubscribe, CallEmit 8, Run 0, Run 0, Run 0, Run 0, Run 0, CallFinish]"

definition demo_drain :: "nat act list" where
  "demo_drain = [Run 0, Run 0, Run 0, Run 0, Recv 0, Recv 0]"

definition demo_log :: "nat log" where
  "demo_log = the (do_acts New demo_acts)"

definition demo_end :: "nat log" where
  "demo_end = the (do_acts demo_log demo_drain)"

lemma demo_runs: "do_acts New demo_acts = Some demo_log" "do_acts demo_log demo_drain = Some demo_end"
  by code_simp+

lemma demo_log_run: "log_run New demo_acts demo_log"
  by (rule do_acts_run [OF demo_runs(1)])

lemma demo_end_run: "log_run New (demo_acts @ demo_drain) demo_end"
  by (rule log_run_app [OF do_acts_run [OF demo_runs(2)] demo_log_run])

lemma run_prefix:
  assumes "log_run New as l" and "i < length (lg_subs l)"
  shows "prefix (sb_got (lg_subs l ! i) @ sb_out (lg_subs l ! i)) (emitted as)"
proof -
  have "prefix (sb_got (lg_subs l ! i) @ sb_out (lg_subs l ! i) @ pending (lg_subs l ! i))
      (take (sb_cursor (lg_subs l ! i)) (emitted as))"
    using run_sub_inv [OF assms] by (simp add: sub_inv_def)
  then show ?thesis
    by (metis append_assoc append_prefixD prefix_order.trans take_is_prefix)
qed

section \<open>Properties\<close>

text \<open>
  C2: However calls, goroutines, receives and cancellations interleave, what a subscriber has
  received and what is buffered for it is, in order and without gap or repetition, the beginning of
  the sequence of all emitted events: a late subscriber replays the history from the start.
\<close>

theorem fanout_in_order:
  assumes "log_run New as l" and "i < length (lg_subs l)"
  shows "prefix (sb_got (lg_subs l ! i) @ sb_out (lg_subs l ! i)) (emitted as)"
  by (rule run_prefix [OF assms])

theorem fanout_in_order_witness:
  "log_run New (demo_acts @ demo_drain) demo_end \<and>
    prefix (sb_got (lg_subs demo_end ! 0) @ sb_out (lg_subs demo_end ! 0)) (emitted (demo_acts @ demo_drain)) \<and>
    sb_got (lg_subs demo_end ! 0) = [7, 8]"
proof -
  have n: "0 < length (lg_subs demo_end)" by code_simp
  have g: "sb_got (lg_subs demo_end ! 0) = [7, 8]" by code_simp
  show ?thesis using demo_end_run fanout_in_order [OF demo_end_run n] g by blast
qed

text \<open>
  A subscriber whose channel was closed and whose context has not ended got every event emitted
  before \<open>Finish\<close>: the channel is closed after \<open>Finish\<close> only, and nothing emitted before is lost.
\<close>

theorem fanout_complete:
  assumes "log_run New as l" and "i < length (lg_subs l)"
    and "sb_closed (lg_subs l ! i)" and "\<not> sb_ctx (lg_subs l ! i)"
  shows "CallFinish \<in> set as \<and>
    prefix (emitted (before_finish as)) (sb_got (lg_subs l ! i) @ sb_out (lg_subs l ! i))"
  using closed_complete [OF assms] .

theorem fanout_complete_witness:
  "prefix (emitted (before_finish (demo_acts @ demo_drain)))
     (sb_got (lg_subs demo_end ! 0) @ sb_out (lg_subs demo_end ! 0)) \<and>
   emitted (before_finish (demo_acts @ demo_drain)) = [7, 8]"
proof -
  have n: "0 < length (lg_subs demo_end)" by code_simp
  have c: "sb_closed (lg_subs demo_end ! 0)" by code_simp
  have x: "\<not> sb_ctx (lg_subs demo_end ! 0)" by code_simp
  have e: "emitted (before_finish (demo_acts @ demo_drain)) = [7, 8]" by code_simp
  show ?thesis using fanout_complete [OF demo_end_run n c x] e by blast
qed

text \<open>
  C22: No wake-up is lost: in every reachable state a subscriber can move, or has ended, or has a
  full buffer its reader must empty, or waits having taken every event of a log that is not finished.
\<close>

theorem fanout_no_lost_wakeup:
  assumes "log_run New as l" and "i < length (lg_subs l)" and "\<forall>m. \<not> log_step l (Run i) m"
  shows "sb_pc (lg_subs l ! i) = Gone \<or> length (sb_out (lg_subs l ! i)) = out_cap \<or>
    (sb_cursor (lg_subs l ! i) = length (emitted as) \<and> CallFinish \<notin> set as)"
proof -
  let ?s = "lg_subs l ! i"
  from goroutine_stuck [OF run_stuck [OF assms(2,3)]] run_sub_inv [OF assms(1,2)] show ?thesis
    by (auto simp: sub_inv_def)
qed

theorem fanout_no_lost_wakeup_witness:
  "sb_pc (lg_subs demo_end ! 0) = Gone \<or> length (sb_out (lg_subs demo_end ! 0)) = out_cap \<or>
    (sb_cursor (lg_subs demo_end ! 0) = length (emitted (demo_acts @ demo_drain)) \<and>
      CallFinish \<notin> set (demo_acts @ demo_drain))"
proof -
  have n: "0 < length (lg_subs demo_end)" by code_simp
  have "sb_pc (lg_subs demo_end ! 0) = Gone" by code_simp
  then have stuck: "\<forall>m. \<not> log_step demo_end (Run 0) m"
    by (auto elim!: log_step_RunE goroutine_E)
  show ?thesis using fanout_no_lost_wakeup [OF demo_end_run n stuck] .
qed

text \<open>
  C23: After \<open>Finish\<close>, a subscriber and its reader left to themselves end: every run of theirs is
  bounded by a measure of what is left, and where neither can move any more the channel is closed,
  its buffer is empty, and a subscriber that was not cancelled has received every event emitted before \<open>Finish\<close>.
\<close>

theorem fanout_drains:
  assumes "log_run New as l" and "CallFinish \<in> set as" and "i < length (lg_subs l)"
    and "log_run l bs m" and "set bs \<subseteq> {Run i, Recv i}"
  shows "length bs \<le> drain_measure (lg_events l) (lg_subs l ! i) \<and>
    ((\<forall>n. \<not> log_step m (Run i) n \<and> \<not> log_step m (Recv i) n) \<longrightarrow>
      sb_closed (lg_subs m ! i) \<and> sb_out (lg_subs m ! i) = [] \<and>
      (sb_ctx (lg_subs m ! i) \<or> prefix (emitted (before_finish as)) (sb_got (lg_subs m ! i))))"
proof -
  let ?s = "lg_subs m ! i"
  have l: "lg_done l" using run_events [OF assms(1)] assms(2) by blast
  have m: "length bs \<le> drain_measure (lg_events l) (lg_subs l ! i)" "i < length (lg_subs m)"
    using drain_run [OF assms(4,5) l] assms(3) by auto
  have run: "log_run New (as @ bs) m" using log_run_app assms(1,4) by blast
  have closed: "sb_closed ?s \<and> sb_out ?s = []"
    if "\<forall>n. \<not> log_step m (Run i) n \<and> \<not> log_step m (Recv i) n"
  proof -
    have out: "sb_out ?s = []" by (rule recv_stuck [OF m(2)]) (use that in simp)
    have "\<forall>s'. \<not> goroutine m ?s s'" by (rule run_stuck [OF m(2)]) (use that in simp)
    from goroutine_stuck [OF this] out have "sb_pc ?s = Gone \<or> sb_pc ?s = Waiting \<and> \<not> sb_wake ?s"
      by (auto simp: out_cap_def)
    with run_sub_inv [OF run m(2)] assms(2) have "sb_closed ?s" by (auto simp: sub_inv_def)
    with out show ?thesis by blast
  qed
  have "before_finish (as @ bs) = before_finish as"
    using assms(2) by (rule before_finish_app)
  then have "sb_ctx ?s \<or> prefix (emitted (before_finish as)) (sb_got ?s)"
    if "sb_closed ?s" "sb_out ?s = []"
    using closed_complete [OF run m(2)] that by auto
  with closed have "(\<forall>n. \<not> log_step m (Run i) n \<and> \<not> log_step m (Recv i) n) \<longrightarrow>
    sb_closed ?s \<and> sb_out ?s = [] \<and>
      (sb_ctx ?s \<or> prefix (emitted (before_finish as)) (sb_got ?s))" by simp
  with m(1) show ?thesis by (rule conjI)
qed

theorem fanout_drains_witness:
  "length demo_drain \<le> drain_measure (lg_events demo_log) (lg_subs demo_log ! 0) \<and>
    sb_closed (lg_subs demo_end ! 0) \<and> sb_out (lg_subs demo_end ! 0) = []"
proof -
  have n: "0 < length (lg_subs demo_log)" by code_simp
  have f: "CallFinish \<in> set demo_acts" by code_simp
  have b: "set demo_drain \<subseteq> {Run 0, Recv 0}" by (auto simp: demo_drain_def)
  have "sb_pc (lg_subs demo_end ! 0) = Gone" "sb_out (lg_subs demo_end ! 0) = []" by code_simp+
  then have "\<forall>n. \<not> log_step demo_end (Run 0) n \<and> \<not> log_step demo_end (Recv 0) n"
    by (auto elim!: log_step_RunE log_step_RecvE goroutine_E)
  with fanout_drains [OF demo_log_run f n do_acts_run [OF demo_runs(2)] b] show ?thesis by blast
qed

end
