(* ===== verification/Probe.thy ===== *)
theory Probe
  imports Go_Conv
begin

text \<open>
  \<open>internal/builder/probe.go\<close>: reading the listening TCP ports from the output of \<open>ss\<close> or from
  \<open>/proc/net/tcp\<close>, and choosing the port of the app. The set \<open>seen\<close> is the set of the ports that the
  lines give; sorting makes the order in which Go ranges over it irrelevant.
\<close>

definition reservedPorts :: "int list" where
  "reservedPorts = [44772, 22, 35729]"

definition hexPort :: "string \<Rightarrow> int" where
  "hexPort addr =
    (case LastIndexByte (CHR '':'') addr of
       None \<Rightarrow> 0
     | Some i \<Rightarrow> (case ParseInt 16 (2 ^ 31) (drop (Suc i) addr) of None \<Rightarrow> 0 | Some p \<Rightarrow> p))"

text \<open>One word of a line of \<open>ss\<close>: its port when it is an address with one.\<close>

definition word_port :: "string \<Rightarrow> int option" where
  "word_port f =
    (case LastIndexByte (CHR '':'') f of
       None \<Rightarrow> None
     | Some i \<Rightarrow>
         if 0 < i \<and> i < length f - 1 \<and> \<not> HasSuffix f '':*''
         then (case Atoi (drop (Suc i) f) of
                 None \<Rightarrow> None
               | Some p \<Rightarrow> if 0 < p \<and> p < 65536 then Some p else None)
         else None)"

text \<open>The loop over the words, left at the first port.\<close>

fun first_port :: "string list \<Rightarrow> int option" where
  "first_port [] = None"
| "first_port (f # fs) = (case word_port f of Some p \<Rightarrow> Some p | None \<Rightarrow> first_port fs)"

text \<open>The body of the loop over the lines: the port that the line adds to \<open>seen\<close>.\<close>

definition line_port :: "string \<Rightarrow> int option" where
  "line_port line =
    (let fields = Fields line
     in if fields = [] then None
        else if 4 \<le> length fields \<and> HasSuffix (fields ! 0) '':'' \<and> length (fields ! 3) = 2
        then if fields ! 3 \<noteq> ''0A'' then None
             else let p = hexPort (fields ! 1) in if 0 < p then Some p else None
        else first_port fields)"

definition seen_ports :: "string \<Rightarrow> int list" where
  "seen_ports out = remdups (List.map_filter line_port (SplitByte (CHR 0x0A) out))"

definition ParseListening :: "string \<Rightarrow> int list" where
  "ParseListening out = sort (filter (\<lambda>p. p \<notin> set reservedPorts) (seen_ports out))"

definition ChoosePort :: "int \<Rightarrow> int list \<Rightarrow> int" where
  "ChoosePort hint listening =
    (if hint \<in> set listening then hint else case listening of p # _ \<Rightarrow> p | [] \<Rightarrow> 0)"

section \<open>What the lines give\<close>

lemma set_seen: "set (seen_ports out) = {p. \<exists>l \<in> set (SplitByte (CHR 0x0A) out). line_port l = Some p}"
  by (auto simp: seen_ports_def List.map_filter_def image_iff) force

lemma set_ParseListening:
  "set (ParseListening out) =
    {p. \<exists>l \<in> set (SplitByte (CHR 0x0A) out). line_port l = Some p} - set reservedPorts"
  by (auto simp: ParseListening_def set_seen)

lemma ParseListening_strict: "sorted (ParseListening out) \<and> distinct (ParseListening out)"
  by (simp add: ParseListening_def seen_ports_def)

lemma ParseListening_set: "ParseListening out = sorted_list_of_set (set (ParseListening out))"
  using ParseListening_strict by (simp add: sorted_list_of_set.idem_if_sorted_distinct)

lemma word_port_bounds: "word_port f = Some p \<Longrightarrow> 0 < p \<and> p < 65536"
  by (auto simp: word_port_def split: option.splits if_splits)

lemma first_port_bounds: "first_port fs = Some p \<Longrightarrow> 0 < p \<and> p < 65536"
  by (induction fs) (auto split: option.splits dest: word_port_bounds)

lemma digit_value_nonneg: "digit_value c = Some d \<Longrightarrow> 0 \<le> d"
  unfolding digit_value_def by (drule map_of_SomeD, drule set_zip_rightD) auto

lemma digits_value_nonneg: "0 \<le> base \<Longrightarrow> 0 \<le> acc \<Longrightarrow> digits_value base acc s = Some n \<Longrightarrow> 0 \<le> n"
proof (induction s arbitrary: acc)
  case (Cons c s)
  then obtain d where "digit_value c = Some d" "digits_value base (acc * base + d) s = Some n"
    by (auto split: option.splits if_splits)
  moreover from this digit_value_nonneg Cons.prems have "0 \<le> acc * base + d" by fastforce
  ultimately show ?case using Cons.IH Cons.prems(1) by blast
qed simp

lemma ParseInt_upper: "ParseInt base lim s = Some p \<Longrightarrow> 0 < lim \<Longrightarrow> 0 \<le> base \<Longrightarrow> p < lim"
  by (auto simp: ParseInt_def Let_def split: option.splits if_splits dest: digits_value_nonneg [rotated 2])

lemma hexPort_bound: "hexPort a < 2 ^ 31"
  using ParseInt_upper [of 16 "2 ^ 31"] by (fastforce simp: hexPort_def split: option.split)

lemma line_port_bounds: "line_port l = Some p \<Longrightarrow> 0 < p \<and> p < 2 ^ 31"
  using hexPort_bound
  by (auto simp: line_port_def Let_def split: if_splits dest: first_port_bounds)

section \<open>Lines in the two formats\<close>

text \<open>
  A socket as \<open>ss -ltnH\<close> prints it (queues, local address and port, peer), and a row of
  \<open>/proc/net/tcp\<close> (number, local address and port in hexadecimal, remote address, state, the rest).
\<close>

datatype socket =
    SsSocket nat nat string int string
  | ProcSocket nat string int string string "string list"

definition hex_digit :: "int \<Rightarrow> char" where
  "hex_digit n = ''0123456789ABCDEF'' ! nat n"

definition hex4 :: "int \<Rightarrow> string" where
  "hex4 p = map hex_digit [p div 4096 mod 16, p div 256 mod 16, p div 16 mod 16, p mod 16]"

fun socket_words :: "socket \<Rightarrow> string list" where
  "socket_words (SsSocket rq sq a p peer) =
    [''LISTEN'', Itoa (int rq), Itoa (int sq), a @ CHR '':'' # Itoa p, peer @ '':*'']"
| "socket_words (ProcSocket n a p rem st rest) =
    [Itoa (int n) @ '':'', a @ CHR '':'' # hex4 p, rem, st] @ rest"

definition socket_line :: "socket \<Rightarrow> string" where
  "socket_line s = Join (socket_words s) '' ''"

fun socket_ok :: "socket \<Rightarrow> bool" where
  "socket_ok (SsSocket rq sq a p peer) = (plain_word a \<and> plain_word peer \<and> 0 < p \<and> p < 65536)"
| "socket_ok (ProcSocket n a p rem st rest) =
    (plain_word a \<and> 0 < p \<and> p < 65536 \<and> list_all plain_word (rem # st # rest) \<and> length st = 2)"

text \<open>The port of a socket in the state LISTEN.\<close>

fun listening_port :: "socket \<Rightarrow> int option" where
  "listening_port (SsSocket rq sq a p peer) = Some p"
| "listening_port (ProcSocket n a p rem st rest) = (if st = ''0A'' then Some p else None)"

lemma plain_app [simp]: "plain_word a \<Longrightarrow> set b \<inter> set space_heads = {} \<Longrightarrow> plain_word (a @ b)"
  by (auto simp: plain_word_def)

lemma hex_check:
  "list_all (\<lambda>n. digit_value (hex_digit n) = Some n \<and> is_alnum (hex_digit n))
    [0, 1, 2, 3, 4, 5, 6, 7, 8, 9, 10, 11, 12, 13, 14, 15]"
  by code_simp

lemma hex_digit: "0 \<le> n \<Longrightarrow> n < 16 \<Longrightarrow> digit_value (hex_digit n) = Some n \<and> is_alnum (hex_digit n)"
proof -
  assume "0 \<le> n" "n < 16"
  then have "n \<in> set [0, 1, 2, 3, 4, 5, 6, 7, 8, 9, 10, 11, 12, 13, 14, 15]" by simp presburger
  with hex_check show ?thesis unfolding list_all_iff by blast
qed

lemma alnum_no_sign:
  "is_alnum c \<Longrightarrow> c \<noteq> CHR ''-'' \<and> c \<noteq> CHR ''+'' \<and> c \<noteq> CHR '':'' \<and> c \<noteq> CHR 0x0A \<and> c \<notin> set space_heads"
proof -
  have "list_all (\<lambda>c. c \<noteq> CHR ''-'' \<and> c \<noteq> CHR ''+'' \<and> c \<noteq> CHR '':'' \<and> c \<noteq> CHR 0x0A \<and> c \<notin> set space_heads)
    (uppers @ lowers @ digits)" by code_simp
  then show "is_alnum c \<Longrightarrow> ?thesis" unfolding list_all_iff is_alnum_def set_append by blast
qed

lemma alnum_Itoa: "0 \<le> n \<Longrightarrow> c \<in> set (Itoa n) \<Longrightarrow> is_alnum c"
  using set_Itoa by (auto simp: is_alnum_def)

lemma alnum_hex4: "c \<in> set (hex4 p) \<Longrightarrow> is_alnum c"
  using hex_digit by (auto simp: hex4_def)

lemma hex4_value:
  fixes p :: int
  assumes "0 \<le> p" and "p < 65536"
  shows "((p div 4096 mod 16 * 16 + p div 256 mod 16) * 16 + p div 16 mod 16) * 16 + p mod 16 = p"
proof -
  have "p div 4096 mod 16 = p div 4096" using assms by (intro mod_pos_pos_trivial) auto
  moreover have "p div 4096 = p div 256 div 16" "p div 256 = p div 16 div 16"
    using zdiv_zmult2_eq [of 16 p 256] zdiv_zmult2_eq [of 16 p 16] by simp_all
  ultimately show ?thesis by (simp only: div_mult_mod_eq)
qed

lemma ParseInt_hex_digits:
  assumes "list_all (\<lambda>n. 0 \<le> n \<and> n < 16) [a, b, c, d]"
    and "((a * 16 + b) * 16 + c) * 16 + d < 2 ^ 31"
  shows "ParseInt 16 (2 ^ 31) (map hex_digit [a, b, c, d]) = Some (((a * 16 + b) * 16 + c) * 16 + d)"
proof -
  have v: "digits_value 16 0 (map hex_digit [a, b, c, d]) = Some (((a * 16 + b) * 16 + c) * 16 + d)"
    using assms(1) by (simp add: hex_digit)
  have "hex_digit a \<noteq> CHR ''-''" "hex_digit a \<noteq> CHR ''+''"
    using alnum_no_sign [OF conjunct2 [OF hex_digit [of a]]] assms(1) by auto
  then have "\<not> HasPrefix (map hex_digit [a, b, c, d]) ''-''" "\<not> HasPrefix (map hex_digit [a, b, c, d]) ''+''"
    by (auto simp: HasPrefix_def)
  then show ?thesis unfolding ParseInt_def Let_def using v assms(2) by simp
qed

lemma ParseInt_hex4:
  assumes "0 \<le> p" and "p < 65536"
  shows "ParseInt 16 (2 ^ 31) (hex4 p) = Some p"
proof -
  have "((p div 4096 mod 16 * 16 + p div 256 mod 16) * 16 + p div 16 mod 16) * 16 + p mod 16 < 2 ^ 31"
    unfolding hex4_value [OF assms] using assms by simp
  from ParseInt_hex_digits [OF _ this] show ?thesis
    unfolding hex4_value [OF assms] hex4_def by simp
qed

lemma word_port_ss:
  assumes "a \<noteq> []" and "0 < p" and "p < 65536"
  shows "word_port (a @ CHR '':'' # Itoa p) = Some p"
proof -
  let ?w = "a @ CHR '':'' # Itoa p"
  have d: "c \<in> set (Itoa p) \<Longrightarrow> c \<noteq> CHR '':'' \<and> c \<in> set digits" for c
    using assms(2) alnum_Itoa [of p c] alnum_no_sign set_Itoa [of p] by auto
  then have l: "LastIndexByte (CHR '':'') ?w = Some (length a)" by (intro LastIndexByte_app) auto
  have "last ?w = last (Itoa p)" by simp
  then have "last ?w \<in> set digits" using d [of "last (Itoa p)"] by simp
  then have "last ?w \<noteq> CHR ''*''" by (auto simp: digits_def)
  then have s: "\<not> HasSuffix ?w '':*''"
    unfolding HasSuffix_def suffix_def by (metis last.simps last_appendR list.distinct(1))
  have "Itoa p \<noteq> []" by simp
  then have "length a < length ?w - 1" by (cases "Itoa p") auto
  moreover have "Atoi (Itoa p) = Some p" using assms by (intro Atoi_Itoa) auto
  ultimately show ?thesis using assms l s by (simp add: word_port_def)
qed

lemma word_port_plain: "CHR '':'' \<notin> set w \<Longrightarrow> word_port w = None"
  by (simp add: word_port_def LastIndexByte_None [THEN iffD2])

lemma plain_digits: "0 \<le> n \<Longrightarrow> plain_word (Itoa n)"
  using alnum_Itoa alnum_no_sign by (fastforce simp: plain_word_def)

lemma plain_hex4: "plain_word (hex4 p)"
  using alnum_hex4 alnum_no_sign by (fastforce simp: plain_word_def hex4_def)

lemma marks_not_space: "set '':*'' \<inter> set space_heads = {}" "CHR 0x0A \<in> set space_heads"
  by code_simp+

lemma plain_socket_words: "socket_ok s \<Longrightarrow> list_all plain_word (socket_words s)"
proof (cases s)
  case (SsSocket rq sq a p peer)
  moreover assume "socket_ok s"
  moreover have "plain_word ''LISTEN''" by code_simp
  moreover have "set (CHR '':'' # Itoa p) \<inter> set space_heads = {}" if "0 < p"
    using that plain_digits [of p] marks_not_space by (auto simp: plain_word_def)
  ultimately show ?thesis using plain_digits marks_not_space by auto
next
  case (ProcSocket n a p rem st rest)
  moreover assume "socket_ok s"
  moreover have "set (CHR '':'' # hex4 p) \<inter> set space_heads = {}"
    using plain_hex4 marks_not_space by (auto simp: plain_word_def)
  ultimately show ?thesis using plain_digits [of "int n"] marks_not_space by auto
qed

lemma Fields_socket_line: "socket_ok s \<Longrightarrow> Fields (socket_line s) = socket_words s"
  using plain_socket_words by (simp add: socket_line_def Fields_Join list_all_iff)

lemma set_Join: "set (Join ws sep) \<subseteq> (\<Union>w \<in> set ws. set w) \<union> set sep"
  by (induction ws sep rule: Join.induct) auto

lemma socket_line_one_line: "socket_ok s \<Longrightarrow> CHR 0x0A \<notin> set (socket_line s)"
  using plain_socket_words [of s] set_Join [of "socket_words s" "'' ''"] marks_not_space(2)
  by (fastforce simp: socket_line_def list_all_iff plain_word_def)

lemma line_port_socket:
  assumes "socket_ok s"
  shows "line_port (socket_line s) = listening_port s"
proof (cases s)
  case (SsSocket rq sq a p peer)
  with assms have a: "a \<noteq> []" "0 < p" "p < 65536" by (auto simp: plain_word_def)
  have "word_port ''LISTEN'' = None" "\<not> HasSuffix ''LISTEN'' '':''" by code_simp+
  moreover have "word_port (Itoa (int n)) = None" for n
    using alnum_Itoa [of "int n" "CHR '':''"] alnum_no_sign by (intro word_port_plain) auto
  ultimately show ?thesis
    unfolding line_port_def Fields_socket_line [OF assms] using a
    by (simp add: SsSocket word_port_ss Let_def)
next
  case (ProcSocket n a p rem st rest)
  with assms have p: "0 < p" "p < 65536" "length st = 2" by auto
  have "LastIndexByte (CHR '':'') (a @ CHR '':'' # hex4 p) = Some (length a)"
    using alnum_hex4 alnum_no_sign by (intro LastIndexByte_app) blast
  with p have "hexPort (a @ CHR '':'' # hex4 p) = p"
    by (simp add: hexPort_def ParseInt_hex4 [simplified])
  then show ?thesis
    unfolding line_port_def Fields_socket_line [OF assms] using p
    by (simp add: ProcSocket Let_def)
qed

lemma SplitByte_lines:
  "list_all (\<lambda>l. c \<notin> set l) ls \<Longrightarrow> SplitByte c (concat (map (\<lambda>l. l @ [c]) ls)) = ls @ [[]]"
  by (induction ls) (simp_all add: SplitByte_app)

text \<open>The output of a command for a list of sockets: one line each.\<close>

definition socket_output :: "socket list \<Rightarrow> string" where
  "socket_output ss = concat (map (\<lambda>s. socket_line s @ [CHR 0x0A]) ss)"

lemma SplitByte_socket_output:
  assumes "list_all socket_ok ss"
  shows "SplitByte (CHR 0x0A) (socket_output ss) = map socket_line ss @ [[]]"
  using assms SplitByte_lines [of "CHR 0x0A" "map socket_line ss"] socket_line_one_line
  by (simp add: socket_output_def list_all_iff comp_def)

lemma line_port_Nil [simp]: "line_port [] = None"
  by code_simp

lemma ChoosePort_reserved: "ChoosePort hint (ParseListening out) \<notin> set reservedPorts"
proof -
  have "(0::int) \<notin> set reservedPorts" by (simp add: reservedPorts_def)
  then show ?thesis
    using set_ParseListening [of out] by (cases "ParseListening out") (auto simp: ChoosePort_def)
qed

section \<open>The properties\<close>

text \<open>
  C38: The listening sockets printed by \<open>ss\<close> or read from \<open>/proc/net/tcp\<close>, in any mixture of the two
  formats and with any well-formed addresses, are read back: \<open>ParseListening\<close> returns exactly the
  ports of the sockets in the state LISTEN without the reserved ones, in order and once each.
\<close>

theorem ParseListening_sockets:
  assumes "list_all socket_ok ss"
  shows "ParseListening (socket_output ss) =
    sorted_list_of_set ({p. \<exists>s \<in> set ss. listening_port s = Some p} - set reservedPorts)"
proof -
  have "set (ParseListening (socket_output ss)) =
      {p. \<exists>s \<in> set ss. listening_port s = Some p} - set reservedPorts"
    unfolding set_ParseListening SplitByte_socket_output [OF assms]
    using assms by (auto simp: list_all_iff line_port_socket)
  then show ?thesis using ParseListening_set by metis
qed

definition demo_sockets :: "socket list" where
  "demo_sockets =
    [SsSocket 0 511 ''0.0.0.0'' 3000 ''0.0.0.0'', SsSocket 0 128 ''[::]'' 22 ''[::]'',
     ProcSocket 0 ''0100007F'' 8501 ''00000000:0000'' ''0A'' [''0''],
     ProcSocket 1 ''0100007F'' 9999 ''00000000:0000'' ''01'' [], SsSocket 0 5 ''*'' 3000 ''*'']"

theorem ParseListening_sockets_witness:
  "ParseListening (socket_output demo_sockets) = [3000, 8501] \<and>
   sorted_list_of_set ({p. \<exists>s \<in> set demo_sockets. listening_port s = Some p} - set reservedPorts) = [3000, 8501]"
proof -
  have "list_all socket_ok demo_sockets" by code_simp
  then have "ParseListening (socket_output demo_sockets) =
      sorted_list_of_set ({p. \<exists>s \<in> set demo_sockets. listening_port s = Some p} - set reservedPorts)"
    by (rule ParseListening_sockets)
  moreover have "ParseListening (socket_output demo_sockets) = [3000, 8501]" by code_simp
  ultimately show ?thesis by simp
qed

text \<open>
  Whatever the command printed, the port chosen is the hint when it is listening, otherwise the
  lowest listening port, and zero exactly when nothing usable is listening; it is never reserved.
\<close>

theorem ChoosePort_lowest:
  "ChoosePort hint (ParseListening out) =
     (if hint \<in> set (ParseListening out) then hint
      else if ParseListening out = [] then 0 else Min (set (ParseListening out))) \<and>
   (ChoosePort hint (ParseListening out) = 0 \<longleftrightarrow> ParseListening out = []) \<and>
   ChoosePort hint (ParseListening out) \<notin> set reservedPorts"
proof -
  let ?ps = "ParseListening out"
  have pos: "0 < p \<and> p \<notin> set reservedPorts" if "p \<in> set ?ps" for p
    using that line_port_bounds by (auto simp: set_ParseListening)
  have zero: "(0::int) \<notin> set reservedPorts" by (simp add: reservedPorts_def)
  show ?thesis
  proof (cases ?ps)
    case Nil
    with zero show ?thesis by (simp add: ChoosePort_def)
  next
    case (Cons p qs)
    then have "sorted (p # qs)" using ParseListening_strict [of out] by simp
    then have "Min (set (p # qs)) = p" by (intro Min_eqI) auto
    with Cons pos show ?thesis by (auto simp: ChoosePort_def)
  qed
qed

end
