(* ===== verification/Repo.thy ===== *)
theory Repo
  imports Go_Conv
begin

text \<open>
  \<open>internal/repo/repo.go\<close>: parsing repository references and resolving them against GitHub. What the
  code uses of \<open>net/url\<close> (\<open>url.Parse\<close>, \<open>url.PathEscape\<close>) is modelled on byte strings; the HTTP client
  and the JSON decoder are parameters.
\<close>

section \<open>net/url\<close>

definition hex_value :: "char \<Rightarrow> nat option" where
  "hex_value c = map_option nat (digit_value c)"

text \<open>\<open>unescape\<close> in the modes of paths, fragments and user names: \<^const>\<open>None\<close> for a bad escape.\<close>

fun unescape :: "string \<Rightarrow> string option" where
  "unescape [] = Some []"
| "unescape (c # s) =
    (if c = CHR ''%''
     then case s of
            a # b # t \<Rightarrow>
              (case (hex_value a, hex_value b) of
                 (Some x, Some y) \<Rightarrow> map_option ((#) (char_of (x * 16 + y))) (unescape t)
               | _ \<Rightarrow> None)
          | _ \<Rightarrow> None
     else map_option ((#) c) (unescape s))"

definition path_unreserved :: "char \<Rightarrow> bool" where
  "path_unreserved c \<longleftrightarrow> is_alnum c \<or> c \<in> set ''-_.~$&+:=@''"

definition upper_hex :: "nat \<Rightarrow> char" where
  "upper_hex n = ''0123456789ABCDEF'' ! n"

definition escape_byte :: "char \<Rightarrow> string" where
  "escape_byte c =
    (if path_unreserved c then [c]
     else let n = (of_char c :: nat) in [CHR ''%'', upper_hex (n div 16), upper_hex (n mod 16)])"

definition PathEscape :: "string \<Rightarrow> string" where
  "PathEscape s = concat (map escape_byte s)"

text \<open>\<open>getScheme\<close>: the scheme and the rest, or \<^const>\<open>None\<close> for a missing scheme before the colon.\<close>

fun scheme_scan :: "string \<Rightarrow> string \<Rightarrow> (string \<times> string) option" where
  "scheme_scan acc [] = None"
| "scheme_scan acc (c # s) =
    (if c \<in> set uppers \<or> c \<in> set lowers then scheme_scan (acc @ [c]) s
     else if c \<in> set digits \<or> c \<in> set ''+-.''
     then if acc = [] then None else scheme_scan (acc @ [c]) s
     else if c = CHR '':'' then Some (acc, s)
     else None)"

definition getScheme :: "string \<Rightarrow> (string \<times> string) option" where
  "getScheme s =
    (case scheme_scan [] s of
       None \<Rightarrow> Some ([], s)
     | Some (sch, rest) \<Rightarrow> if sch = [] then None else Some (sch, rest))"

definition is_ctl :: "char \<Rightarrow> bool" where
  "is_ctl c \<longleftrightarrow> (of_char c :: nat) < 32 \<or> c = CHR 0x7F"

definition userinfo_byte :: "char \<Rightarrow> bool" where
  "userinfo_byte c \<longleftrightarrow> is_alnum c \<or> c = CHR 0x27 \<or> c \<in> set ''-._:~!$&()*+,;=%@''"

text \<open>
  \<open>parseAuthority\<close>: the host after the last \<open>@\<close>, or \<^const>\<open>None\<close> for bad user information. The host is
  kept as it is written: decoding or rejecting it can only give something else than the two names
  that \<open>Parse\<close> compares it with, since an escape in a host decodes to \<open>%\<close> or a byte outside ASCII.
\<close>

definition parseAuthority :: "string \<Rightarrow> string option" where
  "parseAuthority a =
    (case LastIndexByte (CHR ''@'') a of
       None \<Rightarrow> Some a
     | Some i \<Rightarrow>
         let info = take i a;
             (user, pass, _) = CutByte (CHR '':'') info
         in if list_all userinfo_byte info \<and> unescape user \<noteq> None \<and> unescape pass \<noteq> None
            then Some (drop (Suc i) a) else None)"

text \<open>\<open>url.Parse\<close>: host and path of a URL, or \<^const>\<open>None\<close> for its error.\<close>

definition authority_path :: "string \<Rightarrow> string \<Rightarrow> (string \<times> string) option" where
  "authority_path sch rest =
    (if \<not> HasPrefix rest ''/'' \<and> sch \<noteq> [] then Some ([], [])
     else if \<not> HasPrefix rest ''/'' \<and> CHR '':'' \<in> set (fst (CutByte (CHR ''/'') rest)) then None
     else let auth = ((sch \<noteq> [] \<or> \<not> HasPrefix rest ''///'') \<and> HasPrefix rest ''//'');
              a = takeWhile (\<lambda>c. c \<noteq> CHR ''/'') (drop 2 rest);
              path = (if auth then dropWhile (\<lambda>c. c \<noteq> CHR ''/'') (drop 2 rest) else rest)
          in case (if auth then parseAuthority a else Some []) of
               None \<Rightarrow> None
             | Some host \<Rightarrow> map_option (Pair host) (unescape path))"

definition url_Parse :: "string \<Rightarrow> (string \<times> string) option" where
  "url_Parse raw =
    (let (u, frag, _) = CutByte (CHR ''#'') raw
     in if list_ex is_ctl u \<or> unescape frag = None then None
        else case getScheme u of
               None \<Rightarrow> None
             | Some (sch, rest) \<Rightarrow> authority_path sch (fst (CutByte (CHR ''?'') rest)))"

section \<open>References\<close>

record ref =
  ref_Owner :: string
  ref_Name :: string

definition Slug :: "ref \<Rightarrow> string" where
  "Slug r = ref_Owner r @ ''/'' @ ref_Name r"

text \<open>\<open>partRE\<close> and \<open>slugRE\<close>.\<close>

definition part_byte :: "char \<Rightarrow> bool" where
  "part_byte c \<longleftrightarrow> is_alnum c \<or> c \<in> set ''._-''"

definition part_ok :: "string \<Rightarrow> bool" where
  "part_ok s \<longleftrightarrow> s \<noteq> [] \<and> list_all part_byte s"

definition owner_ok :: "string \<Rightarrow> bool" where
  "owner_ok s \<longleftrightarrow>
    s \<noteq> [] \<and> is_alnum (hd s) \<and> is_alnum (last s) \<and> list_all (\<lambda>c. is_alnum c \<or> c = CHR ''-'') s"

definition slug_ok :: "string \<Rightarrow> bool" where
  "slug_ok s = (case CutByte (CHR ''/'') s of (owner, name, found) \<Rightarrow> found \<and> owner_ok owner \<and> part_ok name)"

definition github_hosts :: "string list" where
  "github_hosts = [''github.com'', ''www.github.com'']"

text \<open>The part of \<open>Parse\<close> that reduces a URL to a slug.\<close>

definition url_slug :: "string \<Rightarrow> string result" where
  "url_slug s =
    (case url_Parse s of
       None \<Rightarrow> Inl ErrInvalidRef
     | Some (host, path) \<Rightarrow>
         if host \<notin> set github_hosts then Inl ErrInvalidRef
         else case SplitByte (CHR ''/'') (TrimByte (CHR ''/'') path) of
                p0 # p1 # _ \<Rightarrow> Inr (p0 @ ''/'' @ TrimSuffix p1 ''.git'')
              | _ \<Rightarrow> Inl ErrInvalidRef)"

definition parse_slug :: "string \<Rightarrow> ref result" where
  "parse_slug s =
    (if \<not> slug_ok s then Inl ErrInvalidRef
     else let (owner, name0, _) = CutByte (CHR ''/'') s;
              name = TrimSuffix name0 ''.git''
          in if \<not> part_ok name \<or> name = ''.'' \<or> name = ''..'' then Inl ErrInvalidRef
             else Inr \<lparr>ref_Owner = owner, ref_Name = name\<rparr>)"

definition Parse :: "string \<Rightarrow> ref result" where
  "Parse s0 =
    (let s1 = TrimSpace s0
     in if s1 = [] then Inl ErrInvalidRef
        else let s2 = (if HasPrefix s1 ''git@github.com:''
                       then ''https://github.com/'' @ TrimPrefix s1 ''git@github.com:'' else s1)
             in if Contains s2 ''://'' \<or> HasPrefix s2 ''github.com/'' \<or> HasPrefix s2 ''www.github.com/''
                then let s3 = (if \<not> Contains s2 ''://'' then ''https://'' @ s2 else s2)
                     in case url_slug s3 of Inl e \<Rightarrow> Inl e | Inr s4 \<Rightarrow> parse_slug s4
                else parse_slug s2)"

section \<open>Resolution\<close>

record info =
  in_Ref :: ref
  in_DefaultBranch :: string
  in_SHA :: string
  in_SizeKB :: int
  in_Private :: bool
  in_CloneURL :: string

definition MaxSizeKB :: int where
  "MaxSizeKB = 500 * 1024"

record github =
  gh_Token :: string
  gh_Base :: string

text \<open>The constructor.\<close>

definition NewGitHub :: "string \<Rightarrow> github" where
  "NewGitHub token = \<lparr>gh_Token = token, gh_Base = ''https://api.github.com''\<rparr>"

record http_request =
  rq_url :: string
  rq_headers :: "(string \<times> string) list"

record http_reply =
  rp_status :: int
  rp_remaining :: string
  rp_body :: string

text \<open>
  One API call. \<open>do_http\<close> is the client (an error, or the reply) and \<open>decode\<close> the JSON decoder for the
  target of the call.
\<close>

definition get_request :: "github \<Rightarrow> string \<Rightarrow> http_request" where
  "get_request g path =
    \<lparr>rq_url = gh_Base g @ path,
     rq_headers = [(''Accept'', ''application/vnd.github+json''), (''User-Agent'', ''trylive'')] @
       (if gh_Token g \<noteq> [] then [(''Authorization'', ''Bearer '' @ gh_Token g)] else [])\<rparr>"

definition get_github ::
  "(http_request \<Rightarrow> http_reply result) \<Rightarrow> (string \<Rightarrow> 'a result) \<Rightarrow> github \<Rightarrow> string \<Rightarrow> 'a result" where
  "get_github do_http decode g path =
    (case do_http (get_request g path) of
       Inl e \<Rightarrow> Inl e
     | Inr resp \<Rightarrow>
         if rp_status resp = 404 then Inl ErrRepoNotFound
         else if (rp_status resp = 403 \<or> rp_status resp = 429) \<and> rp_remaining resp = ''0'' then Inl ErrRateLimit
         else if 300 \<le> rp_status resp
         then Inl (Errorf (''github '' @ path @ '': status '' @ Itoa (rp_status resp) @ '': '' @
                TrimSpace (take 512 (rp_body resp))))
         else decode (rp_body resp))"

record repo_meta =
  mt_DefaultBranch :: string
  mt_Size :: int
  mt_Private :: bool
  mt_CloneURL :: string

definition meta_path :: "ref \<Rightarrow> string" where
  "meta_path ref = ''/repos/'' @ ref_Owner ref @ ''/'' @ ref_Name ref"

definition commit_path :: "ref \<Rightarrow> string \<Rightarrow> string" where
  "commit_path ref branch = meta_path ref @ ''/commits/'' @ PathEscape branch"

definition Resolve ::
  "(http_request \<Rightarrow> http_reply result) \<Rightarrow> (string \<Rightarrow> repo_meta result) \<Rightarrow> (string \<Rightarrow> string result) \<Rightarrow>
    github \<Rightarrow> ref \<Rightarrow> info result" where
  "Resolve do_http decode_meta decode_sha g ref =
    (case get_github do_http decode_meta g (meta_path ref) of
       Inl e \<Rightarrow> Inl e
     | Inr meta \<Rightarrow>
         if mt_Private meta then Inl ErrPrivate
         else if mt_Size meta > MaxSizeKB then Inl ErrTooLarge
         else case get_github do_http decode_sha g (commit_path ref (mt_DefaultBranch meta)) of
                Inl e \<Rightarrow> Inl e
              | Inr sha \<Rightarrow>
                  Inr \<lparr>in_Ref = ref, in_DefaultBranch = mt_DefaultBranch meta, in_SHA = sha,
                       in_SizeKB = mt_Size meta, in_Private = False, in_CloneURL = mt_CloneURL meta\<rparr>)"

section \<open>Escaping\<close>

lemma percent_reserved: "\<not> path_unreserved (CHR ''%'')" "\<not> path_unreserved (CHR ''/'')"
  by code_simp+

lemma upper_hex_check:
  "list_all (\<lambda>n. hex_value (upper_hex n) = Some n \<and> upper_hex n \<noteq> CHR ''/'') [0..<16]"
  by code_simp

lemma upper_hex: "n < 16 \<Longrightarrow> hex_value (upper_hex n) = Some n \<and> upper_hex n \<noteq> CHR ''/''"
  using upper_hex_check by (simp only: list_all_iff set_upt) simp

lemma byte_halves: "(of_char c :: nat) div 16 < 16" "(of_char c :: nat) div 16 * 16 + of_char c mod 16 = of_char c"
proof -
  show "(of_char c :: nat) div 16 < 16" by (rule less_mult_imp_div_less) simp
qed simp

lemma unescape_escape_byte: "unescape (escape_byte c @ s) = map_option ((#) c) (unescape s)"
proof (cases "path_unreserved c")
  case True
  then have "c \<noteq> CHR ''%''" using percent_reserved by metis
  with True show ?thesis by (simp add: escape_byte_def)
next
  case False
  have "char_of ((of_char c :: nat) div 16 * 16 + of_char c mod 16) = c"
    unfolding byte_halves(2) by simp
  with False byte_halves(1) [of c] upper_hex show ?thesis by (simp add: escape_byte_def Let_def)
qed

lemma unescape_PathEscape: "unescape (PathEscape s) = Some s"
proof (induction s)
  case Nil
  then show ?case by (simp add: PathEscape_def)
next
  case (Cons c s)
  have "PathEscape (c # s) = escape_byte c @ PathEscape s" by (simp add: PathEscape_def)
  with Cons show ?case by (simp add: unescape_escape_byte)
qed

lemma PathEscape_no_slash: "CHR ''/'' \<notin> set (PathEscape s)"
proof -
  have "CHR ''/'' \<notin> set (escape_byte c)" for c
    using percent_reserved(2) upper_hex [OF byte_halves(1) [of c]] upper_hex [of "of_char c mod 16"]
    by (cases "path_unreserved c") (auto simp: escape_byte_def Let_def)
  then show ?thesis by (auto simp: PathEscape_def)
qed

lemma unescape_plain: "CHR ''%'' \<notin> set s \<Longrightarrow> unescape s = Some s"
  by (induction s) auto

section \<open>Slugs\<close>

definition ref_ok :: "ref \<Rightarrow> bool" where
  "ref_ok r \<longleftrightarrow> owner_ok (ref_Owner r) \<and> part_ok (ref_Name r) \<and> ref_Name r \<noteq> ''.'' \<and> ref_Name r \<noteq> ''..''"

text \<open>The bytes of owners and names are harmless everywhere in a URL.\<close>

definition url_marks :: string where
  "url_marks = ''#?%@:/''"

lemma part_check:
  "list_all (\<lambda>c. c \<notin> set url_marks \<and> \<not> is_ctl c \<and> c \<notin> set space_heads \<and> c \<notin> set space_bytes)
    (uppers @ lowers @ digits @ ''._-'')"
  by code_simp

lemma part_byte_plain:
  "part_byte c \<Longrightarrow> c \<notin> set url_marks \<and> \<not> is_ctl c \<and> c \<notin> set space_heads \<and> c \<notin> set space_bytes"
  using part_check unfolding list_all_iff part_byte_def is_alnum_def set_append by blast

lemma owner_part: "owner_ok s \<Longrightarrow> part_ok s"
  by (auto simp: owner_ok_def part_ok_def part_byte_def list_all_iff)

lemma part_no_mark: "part_ok s \<Longrightarrow> c \<in> set url_marks \<Longrightarrow> c \<notin> set s"
  using part_byte_plain unfolding part_ok_def list_all_iff by blast

lemma slash_mark [simp]: "CHR ''/'' \<in> set url_marks" "CHR '':'' \<in> set url_marks"
  "CHR ''#'' \<in> set url_marks" "CHR ''?'' \<in> set url_marks" "CHR ''%'' \<in> set url_marks" "CHR ''@'' \<in> set url_marks"
  by (simp_all add: url_marks_def)

lemma slug_ok_iff: "slug_ok s \<longleftrightarrow> (\<exists>o' n. s = o' @ ''/'' @ n \<and> owner_ok o' \<and> part_ok n)"
proof
  assume ok: "slug_ok s"
  let ?o = "takeWhile (\<lambda>x. x \<noteq> CHR ''/'') s" and ?d = "dropWhile (\<lambda>x. x \<noteq> CHR ''/'') s"
  from ok have s: "CHR ''/'' \<in> set s" "owner_ok ?o" "part_ok (drop 1 ?d)"
    by (simp_all add: slug_ok_def CutByte_def)
  have "?d \<noteq> []" unfolding dropWhile_eq_Nil_conv using s(1) by blast
  moreover from this have "hd ?d = CHR ''/''" using hd_dropWhile [of "\<lambda>x. x \<noteq> CHR ''/''" s] by simp
  ultimately have "?d = ''/'' @ drop 1 ?d" by (metis append_Cons append_Nil drop0 drop_Suc list.exhaust_sel One_nat_def)
  then have "s = ?o @ ''/'' @ drop 1 ?d" by (metis takeWhile_dropWhile_id)
  with s show "\<exists>o' n. s = o' @ ''/'' @ n \<and> owner_ok o' \<and> part_ok n" by blast
next
  assume "\<exists>o' n. s = o' @ ''/'' @ n \<and> owner_ok o' \<and> part_ok n"
  then show "slug_ok s" using owner_part part_no_mark by (auto simp: slug_ok_def)
qed

lemma parse_slug_form:
  assumes "owner_ok o'" and "part_ok n"
  shows "parse_slug (o' @ ''/'' @ n) =
    (let r = \<lparr>ref_Owner = o', ref_Name = TrimSuffix n ''.git''\<rparr> in if ref_ok r then Inr r else Inl ErrInvalidRef)"
proof -
  have "slug_ok (o' @ ''/'' @ n)" using assms slug_ok_iff by blast
  moreover have "CHR ''/'' \<notin> set o'" using owner_part [OF assms(1)] part_no_mark by auto
  ultimately show ?thesis using assms by (simp add: parse_slug_def ref_ok_def Let_def)
qed

lemma parse_slug_ok: "parse_slug s = Inr r \<Longrightarrow> ref_ok r"
proof -
  assume r: "parse_slug s = Inr r"
  then have "slug_ok s" by (auto simp: parse_slug_def split: if_splits)
  then obtain o' n where s: "s = o' @ ''/'' @ n" "owner_ok o'" "part_ok n" by (auto simp: slug_ok_iff)
  with r show ?thesis unfolding s(1) parse_slug_form [OF s(2,3)] by (auto simp: Let_def split: if_splits)
qed

lemma Parse_ref_ok: "Parse s = Inr r \<Longrightarrow> ref_ok r"
  by (auto simp: Parse_def Let_def split: if_splits sum.splits dest: parse_slug_ok)

section \<open>The accepted forms\<close>

lemma letters_check:
  "list_all (\<lambda>c. c \<notin> set digits \<and> c \<notin> set ''+-.'' \<and> c \<noteq> CHR '':'' \<and> c \<noteq> CHR ''#'' \<and> c \<noteq> CHR ''?'') lowers"
  "CHR '':'' \<notin> set uppers" "CHR '':'' \<notin> set lowers" "CHR '':'' \<notin> set digits"
  by code_simp+

lemma scheme_scan_letters:
  "list_all (\<lambda>c. c \<in> set lowers) sch \<Longrightarrow> scheme_scan acc (sch @ CHR '':'' # s) = Some (acc @ sch, s)"
  using letters_check(2-4) by (induction sch arbitrary: acc) auto

lemma getScheme_letters:
  "sch \<noteq> [] \<Longrightarrow> list_all (\<lambda>c. c \<in> set lowers) sch \<Longrightarrow> getScheme (sch @ CHR '':'' # s) = Some (sch, s)"
  by (simp add: getScheme_def scheme_scan_letters)

text \<open>A path as it follows the repository in an address: nothing, or more segments of plain bytes.\<close>

definition rest_ok :: "string \<Rightarrow> bool" where
  "rest_ok s \<longleftrightarrow> (s = [] \<or> hd s = CHR ''/'') \<and> list_all (\<lambda>c. part_byte c \<or> c = CHR ''/'') s"

lemma TrimRightByte_app:
  "TrimRightByte c (x @ y) = (if \<forall>b \<in> set y. b = c then TrimRightByte c x else x @ TrimRightByte c y)"
  by (auto simp: TrimRightByte_def dropWhile_append)

lemma TrimByte_path:
  assumes "x \<noteq> []" and "hd x \<noteq> c" and "last x \<noteq> c" and "s = [] \<or> hd s = c"
  shows "\<exists>s'. TrimByte c (c # x @ s) = x @ s' \<and> (s' = [] \<or> hd s' = c)"
proof -
  have "TrimLeftByte c (c # x @ s) = x @ s" using assms by (cases x) (auto simp: TrimLeftByte_def)
  then have t: "TrimByte c (c # x @ s) = TrimRightByte c (x @ s)" by (simp add: TrimByte_def)
  show ?thesis
  proof (cases "\<forall>b \<in> set s. b = c")
    case True
    with t assms show ?thesis by (simp add: TrimRightByte_app TrimRightByte_id)
  next
    case False
    with assms(4) obtain s1 where s1: "s = c # s1" by (cases s) auto
    with False have "\<not> (\<forall>b \<in> set s1. b = c)" by auto
    then have "TrimRightByte c s = c # TrimRightByte c s1"
      using TrimRightByte_app [of c "[c]" s1] unfolding s1 by auto
    with t False show ?thesis by (auto simp: TrimRightByte_app)
  qed
qed

lemma TrimByte_slug:
  assumes "part_ok o'" and "part_ok n" and "rest_ok s"
  shows "\<exists>ps. SplitByte (CHR ''/'') (TrimByte (CHR ''/'') (CHR ''/'' # o' @ ''/'' @ n @ s)) = o' # n # ps"
proof -
  let ?x = "o' @ ''/'' @ n"
  have o: "o' \<noteq> []" "CHR ''/'' \<notin> set o'" and n: "n \<noteq> []" "CHR ''/'' \<notin> set n"
    using assms part_no_mark by (auto simp: part_ok_def)
  then have "hd o' \<noteq> CHR ''/''" "last n \<noteq> CHR ''/''" by (metis hd_in_set, metis last_in_set)
  with o n have "hd ?x \<noteq> CHR ''/''" "last ?x \<noteq> CHR ''/''" by auto
  then obtain s' where s': "TrimByte (CHR ''/'') (CHR ''/'' # ?x @ s) = ?x @ s'" "s' = [] \<or> hd s' = CHR ''/''"
    using TrimByte_path [of ?x "CHR ''/''" s] assms(3) by (auto simp: rest_ok_def)
  have "\<exists>ps. SplitByte (CHR ''/'') (n @ s') = n # ps"
    using s'(2) n by (cases s') (auto simp: SplitByte_single SplitByte_app)
  moreover have "SplitByte (CHR ''/'') (?x @ s') = o' # SplitByte (CHR ''/'') (n @ s')"
    using o SplitByte_app [of "CHR ''/''" o' "n @ s'"] by simp
  ultimately show ?thesis using s'(1) by simp
qed

text \<open>A URL of plain bytes with a scheme in lower case: its host and its path.\<close>

lemma authority_path_form:
  assumes "sch \<noteq> []" and "CHR ''/'' \<notin> set host" and "CHR ''@'' \<notin> set host" and "CHR ''%'' \<notin> set path"
  shows "authority_path sch (''//'' @ host @ CHR ''/'' # path) = Some (host, CHR ''/'' # path)"
proof -
  have t: "takeWhile (\<lambda>c. c \<noteq> CHR ''/'') (host @ CHR ''/'' # path) = host"
    "dropWhile (\<lambda>c. c \<noteq> CHR ''/'') (host @ CHR ''/'' # path) = CHR ''/'' # path"
    using assms(2) by (auto simp: takeWhile_append dropWhile_append)
  have "parseAuthority host = Some host"
    using assms(3) by (simp add: parseAuthority_def LastIndexByte_None [THEN iffD2])
  then show ?thesis
    using assms(1,4) by (simp add: authority_path_def HasPrefix_def t unescape_plain)
qed

lemma url_Parse_form:
  assumes "sch \<noteq> []" and "list_all (\<lambda>c. c \<in> set lowers) sch"
    and "list_all part_byte host" and "list_all (\<lambda>c. part_byte c \<or> c = CHR ''/'') path"
  shows "url_Parse (sch @ ''://'' @ host @ CHR ''/'' # path) = Some (host, CHR ''/'' # path)"
proof -
  let ?u = "sch @ ''://'' @ host @ CHR ''/'' # path"
  have sep: "\<not> is_ctl (CHR '':'')" "\<not> is_ctl (CHR ''/'')" by code_simp+
  have byte: "part_byte c \<or> c \<in> set '':/''" if "c \<in> set ?u" for c
    using that assms(2-4) by (auto simp: list_all_iff part_byte_def is_alnum_def)
  have plain: "\<not> is_ctl c" "c \<noteq> CHR ''#''" "c \<noteq> CHR ''?''" "c \<noteq> CHR ''%''" if "c \<in> set ?u" for c
    using byte [OF that] part_byte_plain [of c] sep by (auto simp: url_marks_def)
  have cut: "CutByte (CHR ''#'') ?u = (?u, [], False)" by (rule CutByte_none) (use plain(2) in blast)
  have q: "CutByte (CHR ''?'') (''//'' @ host @ CHR ''/'' # path) = (''//'' @ host @ CHR ''/'' # path, [], False)"
    by (rule CutByte_none) (use plain(3) in auto)
  have "getScheme ?u = Some (sch, ''//'' @ host @ CHR ''/'' # path)"
    using getScheme_letters [OF assms(1,2), of "''//'' @ host @ CHR ''/'' # path"] by simp
  moreover have "authority_path sch (''//'' @ host @ CHR ''/'' # path) = Some (host, CHR ''/'' # path)"
    by (rule authority_path_form [OF assms(1)])
      (use assms(3,4) part_byte_plain in \<open>auto simp: list_all_iff url_marks_def\<close>)
  moreover have "\<not> list_ex is_ctl ?u" using plain(1) by (auto simp: list_ex_iff)
  ultimately show ?thesis unfolding url_Parse_def cut by (simp add: q [simplified])
qed

lemma hosts_check: "list_all (\<lambda>h. list_all part_byte h \<and> \<not> HasPrefix h ''git@github.com:'') github_hosts"
  by code_simp

lemma url_slug_form:
  assumes "sch \<noteq> []" and "list_all (\<lambda>c. c \<in> set lowers) sch" and "host \<in> set github_hosts"
    and "part_ok o'" and "part_ok n" and "rest_ok rest"
  shows "url_slug (sch @ ''://'' @ host @ CHR ''/'' # o' @ ''/'' @ n @ rest) =
    Inr (o' @ ''/'' @ TrimSuffix n ''.git'')"
proof -
  obtain ps where "SplitByte (CHR ''/'') (TrimByte (CHR ''/'') (CHR ''/'' # o' @ ''/'' @ n @ rest)) = o' # n # ps"
    using TrimByte_slug [OF assms(4-6)] by blast
  moreover have "list_all part_byte host" using hosts_check assms(3) unfolding list_all_iff by blast
  moreover have "list_all (\<lambda>c. part_byte c \<or> c = CHR ''/'') (o' @ ''/'' @ n @ rest)"
    using assms(4-6) by (auto simp: part_ok_def rest_ok_def list_all_iff)
  ultimately show ?thesis
    using url_Parse_form [OF assms(1,2), of host "o' @ ''/'' @ n @ rest"] assms(3) by (simp add: url_slug_def)
qed

text \<open>The names of a repository that may follow its owner.\<close>

definition name_forms :: "string \<Rightarrow> string list" where
  "name_forms n = [n, n @ ''.git'']"

lemma name_forms_ok:
  assumes "ref_ok r" and "\<not> HasSuffix (ref_Name r) ''.git''" and "n \<in> set (name_forms (ref_Name r))"
  shows "part_ok n \<and> TrimSuffix n ''.git'' = ref_Name r \<and>
    parse_slug (ref_Owner r @ ''/'' @ n) = Inr r"
proof -
  have "list_all part_byte ''.git''" by code_simp
  then have "part_ok n" using assms(1,3) by (auto simp: name_forms_def ref_ok_def part_ok_def)
  moreover have "TrimSuffix n ''.git'' = ref_Name r"
    using assms(2,3) by (auto simp: name_forms_def TrimSuffix_id)
  ultimately show ?thesis using assms(1) parse_slug_form [of "ref_Owner r" n] by (simp add: ref_ok_def Let_def)
qed

lemma url_form_parsed:
  assumes "ref_ok r" and "\<not> HasSuffix (ref_Name r) ''.git''" and "n \<in> set (name_forms (ref_Name r))"
    and "rest_ok rest" and "host \<in> set github_hosts" and "sch \<noteq> []" and "list_all (\<lambda>c. c \<in> set lowers) sch"
  shows "(case url_slug (sch @ ''://'' @ host @ CHR ''/'' # ref_Owner r @ ''/'' @ n @ rest) of
      Inl e \<Rightarrow> Inl e | Inr s \<Rightarrow> parse_slug s) = Inr r"
proof -
  have "part_ok (ref_Owner r)" using assms(1) owner_part by (simp add: ref_ok_def)
  moreover have "ref_Name r \<in> set (name_forms (ref_Name r))" by (simp add: name_forms_def)
  ultimately show ?thesis
    using name_forms_ok [OF assms(1-3)] name_forms_ok [OF assms(1,2), of "ref_Name r"]
      url_slug_form [OF assms(6,7,5), of "ref_Owner r" n rest] assms(4) by simp
qed

lemma no_mark_prefix: "c \<in> set p \<Longrightarrow> c \<notin> set s \<Longrightarrow> \<not> HasPrefix s p \<and> \<not> Contains s p"
  by (auto simp: HasPrefix_def Contains_iff sublist_def prefix_def)

lemma slug_not_host:
  assumes "owner_ok o'" and "p \<in> set [''github.com/'', ''www.github.com/'']"
  shows "\<not> HasPrefix (o' @ ''/'' @ n) p"
proof
  assume "HasPrefix (o' @ ''/'' @ n) p"
  moreover have "p \<in> set (map (\<lambda>h. h @ ''/'') github_hosts)" using assms(2) by (simp add: github_hosts_def)
  then obtain h where h2: "h \<in> set github_hosts" "p = h @ ''/''" unfolding set_map by blast
  ultimately obtain y where h1: "o' @ ''/'' @ n = h @ ''/'' @ y" by (auto simp: HasPrefix_def prefix_def)
  note h = h1 h2(1)
  have "CHR ''/'' \<notin> set o'" using owner_part [OF assms(1)] part_no_mark by simp
  moreover have "list_all (\<lambda>h. CHR ''/'' \<notin> set h) github_hosts" by code_simp
  then have "CHR ''/'' \<notin> set h" using h(2) unfolding list_all_iff by blast
  ultimately have "o' = h" using arg_cong [OF h1, of "\<lambda>s. fst (CutByte (CHR ''/'') s)"] by simp
  moreover have "list_all (\<lambda>h. \<not> owner_ok h) github_hosts" by code_simp
  ultimately show False using assms(1) h(2) unfolding list_all_iff by blast
qed

lemma Parse_slug_form:
  assumes "owner_ok o'" and "part_ok n" and "TrimSpace s = o' @ ''/'' @ n"
  shows "Parse s = parse_slug (o' @ ''/'' @ n)"
proof -
  have no: "CHR '':'' \<notin> set (o' @ ''/'' @ n)"
    using owner_part [OF assms(1)] assms(2) part_no_mark by auto
  have "\<not> HasPrefix (o' @ ''/'' @ n) ''git@github.com:''" "\<not> Contains (o' @ ''/'' @ n) ''://''"
    using no_mark_prefix [OF _ no] by simp_all
  moreover have "\<not> HasPrefix (o' @ ''/'' @ n) ''github.com/''" "\<not> HasPrefix (o' @ ''/'' @ n) ''www.github.com/''"
    using slug_not_host [OF assms(1)] by simp_all
  moreover have "o' @ ''/'' @ n \<noteq> []" by simp
  ultimately show ?thesis unfolding Parse_def Let_def assms(3) by (simp only: if_False simp_thms)
qed

text \<open>All the ways to write a repository that \<open>Parse\<close> documents.\<close>

definition url_schemes :: "string list" where
  "url_schemes = [''https'', ''http'']"

definition ref_forms :: "ref \<Rightarrow> string \<Rightarrow> string list" where
  "ref_forms r rest =
    [ref_Owner r @ ''/'' @ n. n \<leftarrow> name_forms (ref_Name r)] @
    [''git@github.com:'' @ ref_Owner r @ ''/'' @ n @ rest. n \<leftarrow> name_forms (ref_Name r)] @
    [h @ CHR ''/'' # ref_Owner r @ ''/'' @ n @ rest. h \<leftarrow> github_hosts, n \<leftarrow> name_forms (ref_Name r)] @
    [sch @ ''://'' @ h @ CHR ''/'' # ref_Owner r @ ''/'' @ n @ rest.
      sch \<leftarrow> url_schemes, h \<leftarrow> github_hosts, n \<leftarrow> name_forms (ref_Name r)]"

lemma Contains_mid: "Contains (a @ p @ b) p"
  unfolding Contains_iff sublist_def by blast

lemma Parse_url:
  assumes "TrimSpace s = sch @ ''://'' @ u" and "\<not> HasPrefix (TrimSpace s) ''git@github.com:''"
  shows "Parse s = (case url_slug (sch @ ''://'' @ u) of Inl e \<Rightarrow> Inl e | Inr t \<Rightarrow> parse_slug t)"
proof -
  have c: "Contains (TrimSpace s) ''://''" unfolding assms(1) by (rule Contains_mid)
  have "TrimSpace s \<noteq> []" by (simp add: assms(1))
  with c assms(2) show ?thesis unfolding Parse_def Let_def assms(1) by (simp only: if_True if_False simp_thms)
qed

lemma Parse_host:
  assumes "TrimSpace s = h @ CHR ''/'' # u" and "h \<in> set github_hosts" and "CHR '':'' \<notin> set (TrimSpace s)"
  shows "Parse s = (case url_slug (''https'' @ ''://'' @ TrimSpace s) of Inl e \<Rightarrow> Inl e | Inr t \<Rightarrow> parse_slug t)"
proof -
  have n: "\<not> Contains (TrimSpace s) ''://''" "\<not> HasPrefix (TrimSpace s) ''git@github.com:''"
    using no_mark_prefix [OF _ assms(3)] by simp_all
  have "HasPrefix (TrimSpace s) (h @ ''/'')" by (simp add: assms(1) HasPrefix_def)
  with assms(2) have "HasPrefix (TrimSpace s) ''github.com/'' \<or> HasPrefix (TrimSpace s) ''www.github.com/''"
    by (auto simp: github_hosts_def)
  moreover have "TrimSpace s \<noteq> []" by (simp add: assms(1))
  ultimately show ?thesis
    using n unfolding Parse_def Let_def by (simp only: if_True if_False simp_thms) simp
qed

lemma Parse_git:
  assumes "TrimSpace s = ''git@github.com:'' @ u"
  shows "Parse s =
    (case url_slug (''https'' @ ''://'' @ ''github.com'' @ CHR ''/'' # u) of Inl e \<Rightarrow> Inl e | Inr t \<Rightarrow> parse_slug t)"
proof -
  have s: "''https://github.com/'' @ u = ''https'' @ ''://'' @ ''github.com'' @ CHR ''/'' # u" by simp
  have "TrimSpace s \<noteq> []" "HasPrefix (TrimSpace s) ''git@github.com:''" "TrimPrefix (TrimSpace s) ''git@github.com:'' = u"
    unfolding assms by (simp_all only: HasPrefix_app TrimPrefix_app) simp
  moreover have "Contains (''https'' @ ''://'' @ ''github.com'' @ CHR ''/'' # u) ''://''" by (rule Contains_mid)
  ultimately show ?thesis
    unfolding Parse_def Let_def by (simp only: if_True if_False simp_thms s)
qed

lemma Parse_ref_forms:
  assumes ok: "ref_ok r" "\<not> HasSuffix (ref_Name r) ''.git''" "rest_ok rest"
    and f: "TrimSpace s \<in> set (ref_forms r rest)"
  shows "Parse s = Inr r"
proof -
  let ?t = "\<lambda>n. ref_Owner r @ ''/'' @ n @ rest"
  note url = url_form_parsed [OF ok(1,2) _ ok(3)]
  have ow: "owner_ok (ref_Owner r)" "part_ok (ref_Owner r)" using ok(1) owner_part by (auto simp: ref_ok_def)
  from f consider
      (slug) n where "n \<in> set (name_forms (ref_Name r))" "TrimSpace s = ref_Owner r @ ''/'' @ n"
    | (git) n where "n \<in> set (name_forms (ref_Name r))" "TrimSpace s = ''git@github.com:'' @ ?t n"
    | (host) n h where "n \<in> set (name_forms (ref_Name r))" "h \<in> set github_hosts" "TrimSpace s = h @ CHR ''/'' # ?t n"
    | (url) n h sch where "n \<in> set (name_forms (ref_Name r))" "h \<in> set github_hosts" "sch \<in> set url_schemes"
        "TrimSpace s = sch @ ''://'' @ h @ CHR ''/'' # ?t n"
    unfolding ref_forms_def by auto
  then show ?thesis
  proof cases
    case slug
    with name_forms_ok [OF ok(1,2) slug(1)] Parse_slug_form [OF ow(1), of n s] show ?thesis by simp
  next
    case git
    have "list_all (\<lambda>c. c \<in> set lowers) ''https''" "''github.com'' \<in> set github_hosts" by code_simp+
    with url [OF git(1), of "''github.com''" "''https''"] Parse_git [OF git(2)] show ?thesis by simp
  next
    case host
    have h: "part_ok h" using hosts_check host(2) unfolding list_all_iff by (auto simp: part_ok_def github_hosts_def)
    have "CHR '':'' \<notin> set (TrimSpace s)"
      using part_no_mark [OF h] part_no_mark [OF ow(2)] name_forms_ok [OF ok(1,2) host(1)] part_no_mark [of n "CHR '':''"]
        ok(3) part_byte_plain [of "CHR '':''"]
      by (auto simp: host(3) rest_ok_def list_all_iff)
    moreover have "list_all (\<lambda>c. c \<in> set lowers) ''https''" by code_simp
    ultimately show ?thesis
      using url [OF host(1,2), of "''https''"] Parse_host [OF host(3,2)] by (simp add: host(3))
  next
    case url
    have "list_all (\<lambda>sch. sch \<noteq> [] \<and> list_all (\<lambda>c. c \<in> set lowers) sch \<and> hd sch \<noteq> CHR ''g'') url_schemes" by code_simp
    with url(3) have sch: "sch \<noteq> []" "list_all (\<lambda>c. c \<in> set lowers) sch" "hd sch \<noteq> CHR ''g''"
      unfolding list_all_iff by blast+
    then have "\<not> HasPrefix (TrimSpace s) ''git@github.com:''" by (cases sch) (auto simp: url(4) HasPrefix_def)
    with Parse_url [OF url(4)] \<open>sch \<noteq> []\<close> show ?thesis
      using url_form_parsed [OF ok(1,2) url(1) ok(3) url(2) sch(1,2)] by simp
  qed
qed

section \<open>The properties\<close>

text \<open>
  C36: Every documented way to write a repository, with or without \<open>.git\<close>, as a slug, an address with
  or without scheme and \<open>www\<close> and with further path segments, or an SSH reference, and with white
  space around it, is parsed to the same reference.
\<close>

theorem Parse_all_forms:
  assumes "ref_ok r" and "\<not> HasSuffix (ref_Name r) ''.git''" and "rest_ok rest"
    and "TrimSpace s \<in> set (ref_forms r rest)"
  shows "Parse s = Inr r"
  using Parse_ref_forms [OF assms] .

definition demo_ref :: ref where
  "demo_ref = \<lparr>ref_Owner = ''pallets'', ref_Name = ''flask''\<rparr>"

theorem Parse_all_forms_witness:
  "Parse '' https://www.github.com/pallets/flask.git/tree/main '' = Inr demo_ref"
proof -
  have "ref_ok demo_ref" "\<not> HasSuffix (ref_Name demo_ref) ''.git''" "rest_ok ''/tree/main''" by code_simp+
  moreover have "TrimSpace '' https://www.github.com/pallets/flask.git/tree/main '' \<in> set (ref_forms demo_ref ''/tree/main'')"
    by code_simp
  ultimately show ?thesis by (rule Parse_all_forms)
qed

text \<open>
  C35: What \<open>Parse\<close> accepts cannot change the requests of \<open>Resolve\<close>: the paths it asks for have
  exactly the segments of the API, with the owner and the name unchanged and not a dot segment, no
  query, fragment or escape from the reference, and the branch as one segment that decodes to it.
\<close>

theorem Resolve_paths_confined:
  assumes "Parse s = Inr r"
  shows "SplitByte (CHR ''/'') (commit_path r branch) =
      [[], ''repos'', ref_Owner r, ref_Name r, ''commits'', PathEscape branch] \<and>
    unescape (PathEscape branch) = Some branch \<and>
    ref_Owner r \<noteq> [] \<and> ref_Name r \<notin> set [[], ''.'', ''..''] \<and>
    list_all (\<lambda>c. c \<notin> set (meta_path r)) ''?#%''"
proof -
  have r: "ref_ok r" using assms by (rule Parse_ref_ok)
  then have ok: "part_ok (ref_Owner r)" "part_ok (ref_Name r)" using owner_part by (auto simp: ref_ok_def)
  then have no: "c \<notin> set (ref_Owner r)" "c \<notin> set (ref_Name r)" if "c \<in> set url_marks" for c
    using part_no_mark that by blast+
  have "SplitByte (CHR ''/'') (commit_path r branch) =
      [[], ''repos'', ref_Owner r, ref_Name r, ''commits'', PathEscape branch]"
    using no [of "CHR ''/''"] PathEscape_no_slash [of branch]
    by (simp add: commit_path_def meta_path_def SplitByte_app SplitByte_single)
  moreover have "list_all (\<lambda>c. c \<in> set url_marks \<and> c \<notin> set ''/repos/'') ''?#%''" by code_simp
  then have "list_all (\<lambda>c. c \<notin> set (meta_path r)) ''?#%''"
    using no by (auto simp: meta_path_def)
  ultimately show ?thesis using r ok unescape_PathEscape by (simp add: ref_ok_def part_ok_def)
qed

theorem Resolve_paths_confined_witness:
  "SplitByte (CHR ''/'') (commit_path demo_ref ''feature/x'') =
    [[], ''repos'', ''pallets'', ''flask'', ''commits'', ''feature%2Fx'']"
proof -
  have "Parse ''pallets/flask'' = Inr demo_ref" by code_simp
  then have "SplitByte (CHR ''/'') (commit_path demo_ref ''feature/x'') =
    [[], ''repos'', ref_Owner demo_ref, ref_Name demo_ref, ''commits'', PathEscape ''feature/x'']"
    using Resolve_paths_confined [of "''pallets/flask''" demo_ref "''feature/x''"] by blast
  moreover have "PathEscape ''feature/x'' = ''feature%2Fx''" by code_simp
  ultimately show ?thesis by (simp add: demo_ref_def)
qed

text \<open>
  The slug of a parsed reference parses to the same reference, unless its name still ends in
  \<open>.git\<close> (a name written with the ending twice).
\<close>

theorem Parse_Slug:
  assumes "Parse s = Inr r" and "\<not> HasSuffix (ref_Name r) ''.git''"
  shows "Parse (Slug r) = Inr r"
proof (rule Parse_ref_forms [of r "[]"])
  show ok: "ref_ok r" using assms(1) by (rule Parse_ref_ok)
  show "\<not> HasSuffix (ref_Name r) ''.git''" by (rule assms(2))
  show "rest_ok []" by (simp add: rest_ok_def)
  have p: "part_ok (ref_Owner r)" "part_ok (ref_Name r)" using ok owner_part by (auto simp: ref_ok_def)
  then have "hd (Slug r) \<notin> set space_heads" "last (Slug r) \<notin> set space_bytes"
    using part_byte_plain [of "hd (ref_Owner r)"] part_byte_plain [of "last (ref_Name r)"]
    by (auto simp: Slug_def part_ok_def list_all_iff)
  then have "TrimSpace (Slug r) = Slug r" by (intro TrimSpace_id) auto
  then show "TrimSpace (Slug r) \<in> set (ref_forms r [])" by (simp add: ref_forms_def name_forms_def Slug_def)
qed

theorem Parse_Slug_witness:
  "Parse (Slug demo_ref) = Inr demo_ref \<and>
   Parse ''a/b.git.git'' = Inr \<lparr>ref_Owner = ''a'', ref_Name = ''b.git''\<rparr> \<and>
   Parse ''a/b.git'' = Inr \<lparr>ref_Owner = ''a'', ref_Name = ''b''\<rparr>"
proof -
  have "Parse ''github.com/pallets/flask'' = Inr demo_ref" "\<not> HasSuffix (ref_Name demo_ref) ''.git''" by code_simp+
  then have "Parse (Slug demo_ref) = Inr demo_ref" by (rule Parse_Slug)
  moreover have "Parse ''a/b.git.git'' = Inr \<lparr>ref_Owner = ''a'', ref_Name = ''b.git''\<rparr>"
    "Parse ''a/b.git'' = Inr \<lparr>ref_Owner = ''a'', ref_Name = ''b''\<rparr>" by code_simp+
  ultimately show ?thesis by blast
qed

text \<open>
  A resolved repository is public and at most \<open>MaxSizeKB\<close> large by the record the API gave for
  the reference, both calls were answered without an error status, and the commit is the one the API
  gave for the default branch of that record.
\<close>

theorem Resolve_accepts:
  assumes "Resolve do_http decode_meta decode_sha g r = Inr i"
  shows "\<exists>resp1 resp2 meta.
    do_http (get_request g (meta_path r)) = Inr resp1 \<and> rp_status resp1 < 300 \<and>
    decode_meta (rp_body resp1) = Inr meta \<and> \<not> mt_Private meta \<and> mt_Size meta \<le> 512000 \<and>
    do_http (get_request g (commit_path r (mt_DefaultBranch meta))) = Inr resp2 \<and> rp_status resp2 < 300 \<and>
    decode_sha (rp_body resp2) = Inr (in_SHA i) \<and>
    in_Ref i = r \<and> in_DefaultBranch i = mt_DefaultBranch meta \<and> in_CloneURL i = mt_CloneURL meta \<and>
    in_SizeKB i = mt_Size meta \<and> \<not> in_Private i"
proof -
  have get: "\<exists>resp. do_http (get_request g p) = Inr resp \<and> rp_status resp < 300 \<and> d (rp_body resp) = Inr x"
    if "get_github do_http d g p = Inr x" for d :: "string \<Rightarrow> 'a result" and p x
    using that by (auto simp: get_github_def split: sum.splits if_splits)
  show ?thesis
    using assms
    by (auto simp: Resolve_def MaxSizeKB_def split: sum.splits if_splits) (force dest: get)
qed

definition demo_http :: "http_request \<Rightarrow> http_reply result" where
  "demo_http q =
    (if rq_url q = ''https://api.github.com/repos/pallets/flask'' then Inr \<lparr>rp_status = 200, rp_remaining = ''59'', rp_body = ''meta''\<rparr>
     else if rq_url q = ''https://api.github.com/repos/pallets/flask/commits/main'' then Inr \<lparr>rp_status = 200, rp_remaining = ''58'', rp_body = ''sha''\<rparr>
     else Inr \<lparr>rp_status = 404, rp_remaining = ''57'', rp_body = []\<rparr>)"

definition demo_meta :: repo_meta where
  "demo_meta = \<lparr>mt_DefaultBranch = ''main'', mt_Size = 512000, mt_Private = False,
    mt_CloneURL = ''https://github.com/pallets/flask.git''\<rparr>"

theorem Resolve_accepts_witness:
  "\<exists>i. Resolve demo_http (\<lambda>_. Inr demo_meta) (\<lambda>b. Inr b) (NewGitHub []) demo_ref = Inr i \<and>
    in_SHA i = ''sha'' \<and> \<not> in_Private i"
proof -
  let ?i = "\<lparr>in_Ref = demo_ref, in_DefaultBranch = ''main'', in_SHA = ''sha'', in_SizeKB = 512000,
    in_Private = False, in_CloneURL = ''https://github.com/pallets/flask.git''\<rparr>"
  have i: "Resolve demo_http (\<lambda>_. Inr demo_meta) (\<lambda>b. Inr b) (NewGitHub []) demo_ref = Inr ?i" by code_simp
  then have "\<not> in_Private ?i" using Resolve_accepts [OF i] by blast
  with i show ?thesis by (intro exI [of _ ?i]) simp
qed

end
