(* ===== verification/Store_Types.thy ===== *)
theory Store_Types
  imports Recipe
begin

text \<open>
  \<open>internal/store/store.go\<close>: builds, sessions, their statuses, and the interface of a store as a record
  of its operations on a world \<open>'w\<close> (the store, the clock, whatever else the operations touch). A time
  is a number of nanoseconds, the zero time is 0, and a pointer to a time is an option. An operation
  that writes to the record it is given returns the record as it leaves it.
\<close>

section \<open>Statuses\<close>

definition BuildQueued :: string where "BuildQueued = ''queued''"
definition BuildBuilding :: string where "BuildBuilding = ''building''"
definition BuildReady :: string where "BuildReady = ''ready''"
definition BuildFailed :: string where "BuildFailed = ''failed''"
definition BuildUnsupported :: string where "BuildUnsupported = ''unsupported''"

definition SessionPending :: string where "SessionPending = ''pending''"
definition SessionBuilding :: string where "SessionBuilding = ''building''"
definition SessionStarting :: string where "SessionStarting = ''starting''"
definition SessionLive :: string where "SessionLive = ''live''"
definition SessionEnded :: string where "SessionEnded = ''ended''"

lemmas build_statuses = BuildQueued_def BuildBuilding_def BuildReady_def BuildFailed_def BuildUnsupported_def

lemmas session_statuses = SessionPending_def SessionBuilding_def SessionStarting_def SessionLive_def
  SessionEnded_def

section \<open>Records\<close>

type_synonym time = int

record build =
  b_ID :: string
  b_Owner :: string
  b_Repo :: string
  b_SHA :: string
  b_Status :: string
  b_Kind :: string
  b_Recipe :: "recipe option"
  b_Port :: int
  b_Golden :: string
  b_SnapshotID :: string
  b_Log :: string
  b_Error :: string
  b_BuiltAt :: "time option"
  b_LastVisitAt :: time
  b_Visits :: int
  b_CreatedAt :: time
  b_UpdatedAt :: time

text \<open>\<open>Build{}\<close>, the zero value.\<close>

definition no_build :: build where
  "no_build = \<lparr>b_ID = [], b_Owner = [], b_Repo = [], b_SHA = [], b_Status = [], b_Kind = [],
    b_Recipe = None, b_Port = 0, b_Golden = [], b_SnapshotID = [], b_Log = [], b_Error = [],
    b_BuiltAt = None, b_LastVisitAt = 0, b_Visits = 0, b_CreatedAt = 0, b_UpdatedAt = 0\<rparr>"

record session =
  s_ID :: string
  s_BuildID :: string
  s_Device :: string
  s_IP :: string
  s_SandboxID :: string
  s_PreviewURL :: string
  s_Status :: string
  s_TerminalReady :: bool
  s_Extended :: bool
  s_CreatedAt :: time
  s_ExpiresAt :: "time option"
  s_EndedReason :: string

definition no_session :: session where
  "no_session = \<lparr>s_ID = [], s_BuildID = [], s_Device = [], s_IP = [], s_SandboxID = [],
    s_PreviewURL = [], s_Status = [], s_TerminalReady = False, s_Extended = False, s_CreatedAt = 0,
    s_ExpiresAt = None, s_EndedReason = []\<rparr>"

definition Live :: "session \<Rightarrow> bool" where
  "Live s \<longleftrightarrow> s_Status s \<noteq> SessionEnded"

section \<open>Identifiers\<close>

text \<open>\<open>NewID\<close> of the 16 bytes that \<open>crypto/rand\<close> filled in.\<close>

definition NewID :: "string \<Rightarrow> string" where
  "NewID bytes = concat (map hex_byte bytes)"


lemma lower_hex_distinct: "distinct ''0123456789abcdef''"
  by code_simp

lemma hex_byte_inj: "hex_byte c = hex_byte d \<Longrightarrow> c = d"
proof -
  let ?h = "''0123456789abcdef''" and ?c = "of_char c :: nat" and ?d = "of_char d :: nat"
  have h: "i < 16 \<Longrightarrow> j < 16 \<Longrightarrow> ?h ! i = ?h ! j \<Longrightarrow> i = j" for i j
    using nth_eq_iff_index_eq [OF lower_hex_distinct, of i j] by simp
  have b: "?c div 16 < 16" "?d div 16 < 16" by (rule less_mult_imp_div_less, simp)+
  assume "hex_byte c = hex_byte d"
  then have "?h ! (?c div 16) = ?h ! (?d div 16)" "?h ! (?c mod 16) = ?h ! (?d mod 16)"
    by (simp_all only: hex_byte_def Let_def list.inject)
  then have "?c div 16 = ?d div 16" "?c mod 16 = ?d mod 16" using h [OF b] h by simp_all
  then have "?c = ?d" by (metis div_mult_mod_eq)
  then show ?thesis by (metis char_of_char)
qed

lemma length_hex_byte [simp]: "length (hex_byte c) = 2"
  by (simp add: hex_byte_def Let_def)

lemma NewID_length: "length (NewID bs) = 2 * length bs"
  by (induction bs) (simp_all add: NewID_def)

lemma NewID_inj: "NewID bs = NewID cs \<Longrightarrow> bs = cs"
proof (induction bs arbitrary: cs)
  case Nil
  then have "length (NewID cs) = 0" by (simp add: NewID_def)
  then show ?case by (simp add: NewID_length)
next
  case (Cons b bs)
  then have "length (NewID cs) = Suc (Suc (2 * length bs))" using NewID_length [of "b # bs"] by simp
  then obtain c cs' where cs: "cs = c # cs'" by (cases cs) (auto simp: NewID_def)
  with Cons.prems have "hex_byte b @ NewID bs = hex_byte c @ NewID cs'" by (simp add: NewID_def)
  then have "hex_byte b = hex_byte c" "NewID bs = NewID cs'" by (simp_all add: append_eq_append_conv)
  with Cons.IH cs hex_byte_inj show ?case by blast
qed

section \<open>The interface\<close>

record 'w store =
  so_CreateBuild :: "build \<Rightarrow> 'w \<Rightarrow> build result \<times> 'w"
  so_UpdateBuild :: "build \<Rightarrow> 'w \<Rightarrow> (build \<times> error option) \<times> 'w"
  so_GetBuild :: "string \<Rightarrow> 'w \<Rightarrow> build result \<times> 'w"
  so_GetBuildBySHA :: "string \<Rightarrow> string \<Rightarrow> string \<Rightarrow> 'w \<Rightarrow> build result \<times> 'w"
  so_LatestBuild :: "string \<Rightarrow> string \<Rightarrow> 'w \<Rightarrow> build result \<times> 'w"
  so_RecordVisit :: "string \<Rightarrow> time \<Rightarrow> 'w \<Rightarrow> error option \<times> 'w"
  so_CreateSession :: "session \<Rightarrow> 'w \<Rightarrow> session result \<times> 'w"
  so_UpdateSession :: "session \<Rightarrow> 'w \<Rightarrow> error option \<times> 'w"
  so_GetSession :: "string \<Rightarrow> 'w \<Rightarrow> session result \<times> 'w"
  so_LiveSessions :: "string \<Rightarrow> string \<Rightarrow> 'w \<Rightarrow> (int \<times> int \<times> int) result \<times> 'w"
  so_LiveSessionsForDevice :: "string \<Rightarrow> 'w \<Rightarrow> session list result \<times> 'w"
  so_IncrUsage :: "string \<Rightarrow> string \<Rightarrow> string \<Rightarrow> int \<Rightarrow> 'w \<Rightarrow> int result \<times> 'w"

section \<open>The contract\<close>

text \<open>
  What \<open>UpdateBuild\<close> overwrites: everything but the times and counters that belong to the store.
\<close>

definition build_body :: "build \<Rightarrow> build" where
  "build_body b = b\<lparr>b_LastVisitAt := 0, b_Visits := 0, b_CreatedAt := 0, b_UpdatedAt := 0\<rparr>"

definition build_counters :: "build \<Rightarrow> int \<times> time \<times> time" where
  "build_counters b = (b_Visits b, b_LastVisitAt b, b_CreatedAt b)"

lemma build_body_eq:
  "build_body a = build_body b \<Longrightarrow>
    b_ID a = b_ID b \<and> b_Owner a = b_Owner b \<and> b_Repo a = b_Repo b \<and> b_SHA a = b_SHA b \<and>
    b_Status a = b_Status b \<and> b_Kind a = b_Kind b \<and> b_Recipe a = b_Recipe b \<and> b_Port a = b_Port b \<and>
    b_Golden a = b_Golden b \<and> b_SnapshotID a = b_SnapshotID b \<and> b_Log a = b_Log b \<and>
    b_Error a = b_Error b \<and> b_BuiltAt a = b_BuiltAt b"
  by (cases a; cases b) (simp add: build_body_def)

text \<open>
  The builds of a store as a function of the world: reading does not change it, updating writes the
  body and keeps the counters, creating adds the build under its identifier.
\<close>

locale build_store =
  fixes S :: "'w store" and view :: "'w \<Rightarrow> string \<Rightarrow> build option"
  assumes get_build: "so_GetBuild S i w = (case view w i of None \<Rightarrow> Inl ErrStoreNotFound | Some b \<Rightarrow> Inr b, w)"
    and update_build: "view w (b_ID b) = Some cur \<Longrightarrow>
      \<exists>b' w'. so_UpdateBuild S b w = ((b', None), w') \<and> view w' = (view w)(b_ID b \<mapsto> b') \<and>
        build_body b' = build_body b \<and> build_counters b' = build_counters cur"
    and update_missing: "view w (b_ID b) = None \<Longrightarrow>
      \<exists>b' w'. so_UpdateBuild S b w = ((b', Some ErrStoreNotFound), w') \<and> view w' = view w"
    and create_build: "\<exists>b' w'. so_CreateBuild S b w = (Inr b', w') \<and> view w' = (view w)(b_ID b' \<mapsto> b') \<and>
      build_body (b'\<lparr>b_ID := b_ID b\<rparr>) = build_body b \<and> (b_ID b = [] \<or> b_ID b' = b_ID b)"
    and record_visit: "view w i = Some cur \<Longrightarrow>
      \<exists>w'. so_RecordVisit S i at w = (None, w') \<and>
        view w' = (view w)(i \<mapsto> cur\<lparr>b_Visits := b_Visits cur + 1, b_LastVisitAt := at\<rparr>)"
begin

lemma get_after_update:
  assumes "view w (b_ID b) \<noteq> None" and "so_UpdateBuild S b w = (r, w')"
  shows "\<exists>b'. so_GetBuild S (b_ID b) w' = (Inr b', w') \<and> build_body b' = build_body b"
  using update_build [of w b] assms by (auto simp: get_build)

lemma update_other:
  assumes "so_UpdateBuild S b w = (r, w')" and "i \<noteq> b_ID b"
  shows "so_GetBuild S i w' = (fst (so_GetBuild S i w), w')"
proof (cases "view w (b_ID b)")
  case None
  with update_missing [OF None] assms show ?thesis by (auto simp: get_build)
next
  case (Some cur)
  with update_build [OF Some] assms show ?thesis by (auto simp: get_build)
qed

lemma get_after_create:
  "\<exists>b' w'. so_CreateBuild S b w = (Inr b', w') \<and> so_GetBuild S (b_ID b') w' = (Inr b', w')"
  using create_build [of b w] by (auto simp: get_build)

end

text \<open>The sessions of a store, in the same way, with the two queries about live ones.\<close>

locale session_store =
  fixes S :: "'w store" and sview :: "'w \<Rightarrow> string \<Rightarrow> session option"
  assumes get_session: "so_GetSession S i w = (case sview w i of None \<Rightarrow> Inl ErrStoreNotFound | Some s \<Rightarrow> Inr s, w)"
    and update_session: "sview w (s_ID s) \<noteq> None \<Longrightarrow>
      \<exists>w'. so_UpdateSession S s w = (None, w') \<and> sview w' = (sview w)(s_ID s \<mapsto> s)"
    and create_session: "\<exists>s' w'. so_CreateSession S s w = (Inr s', w') \<and> sview w' = (sview w)(s_ID s' \<mapsto> s') \<and>
      s_Device s' = s_Device s \<and> s_IP s' = s_IP s \<and> s_Status s' = s_Status s \<and> s_BuildID s' = s_BuildID s"
    and live_for_device: "\<exists>mine. so_LiveSessionsForDevice S dev w = (Inr mine, w) \<and>
      (\<forall>s \<in> set mine. Live s \<and> s_Device s = dev)"
begin

lemma get_after_update_session:
  assumes "sview w (s_ID s) \<noteq> None" and "so_UpdateSession S s w = (r, w')"
  shows "r = None \<and> so_GetSession S (s_ID s) w' = (Inr s, w')"
  using update_session [OF assms(1)] assms(2) by (auto simp: get_session)

end

section \<open>The host\<close>

text \<open>
  Where \<open>time.Now\<close> and \<open>crypto/rand\<close> come from: the \<open>n\<close>-th reading of the clock and the \<open>n\<close>-th random
  identifier are arbitrary functions, and the host counts the readings.
\<close>

record host =
  h_clock :: "nat \<Rightarrow> time"
  h_rand :: "nat \<Rightarrow> string"
  h_now :: nat
  h_id :: nat

definition time_Now :: "host \<Rightarrow> time \<times> host" where
  "time_Now h = (h_clock h (h_now h), h\<lparr>h_now := Suc (h_now h)\<rparr>)"

definition new_id :: "host \<Rightarrow> string \<times> host" where
  "new_id h = (NewID (h_rand h (h_id h)), h\<lparr>h_id := Suc (h_id h)\<rparr>)"

end
