(* ===== verification/Platform.thy ===== *)
theory Platform
  imports Store_Types
begin

text \<open>
  \<open>internal/sandbox/client.go\<close>: the records of the sandbox platform, the interface \<open>Client\<close> as a record
  of its operations on a world \<open>'w\<close>, and the contract that the builder and the sessions rely on.
\<close>

section \<open>Records\<close>

definition PhaseReady :: string where "PhaseReady = ''Ready''"
definition PhasePaused :: string where "PhasePaused = ''Paused''"
definition SnapshotReady :: string where "SnapshotReady = ''Ready''"
definition SnapshotFailed :: string where "SnapshotFailed = ''Failed''"

text \<open>The number of processors is a float in the source; only whole numbers occur.\<close>

record resources =
  rs_CPU :: int
  rs_MemoryGB :: int
  rs_DiskGB :: int

record egress =
  eg_Mode :: string
  eg_AllowInternet :: bool

record lifecycle =
  lc_IdleTimeoutSeconds :: int
  lc_MaxLifetimeSeconds :: int
  lc_OnIdle :: string

record createSpec =
  cs_Name :: string
  cs_Restore :: string
  cs_Resources :: "resources option"
  cs_Egress :: egress
  cs_Lifecycle :: lifecycle

record sandbox =
  sx_ID :: string
  sx_Name :: string
  sx_Phase :: string
  sx_Region :: string
  sx_ConnectURL :: string
  sx_CreatedAt :: time

definition no_sandbox :: sandbox where
  "no_sandbox = \<lparr>sx_ID = [], sx_Name = [], sx_Phase = [], sx_Region = [], sx_ConnectURL = [], sx_CreatedAt = 0\<rparr>"

record snapshot =
  sn_ID :: string
  sn_SandboxID :: string
  sn_Status :: string
  sn_Error :: string
  sn_SizeBytes :: int

record execResult =
  er_Stdout :: string
  er_Stderr :: string
  er_ExitCode :: int

record execSpec =
  ex_Command :: string
  ex_Args :: "string list"
  ex_Cwd :: string
  ex_Env :: "string list"
  ex_TimeoutMS :: int
  ex_Stdin :: string

record process =
  pr_ID :: string
  pr_State :: string

record ptyOptions =
  pt_Program :: string
  pt_Args :: "string list"
  pt_Cols :: int
  pt_Rows :: int

section \<open>The interface\<close>

text \<open>
  \<open>Exec\<close> writes its output to a writer while the command runs, also when it then fails: the pieces
  written come with the result. \<open>WaitReady\<close> returns a sandbox beside an error, and its callers use
  it. \<open>StreamLogs\<close> calls back from its own goroutine: \<open>cl_Logs\<close> gives the pieces that have arrived
  since it was asked last. A terminal connection is a number.
\<close>

record 'w client =
  cl_Create :: "createSpec \<Rightarrow> 'w \<Rightarrow> sandbox result \<times> 'w"
  cl_Get :: "string \<Rightarrow> 'w \<Rightarrow> sandbox result \<times> 'w"
  cl_WaitReady :: "string \<Rightarrow> time \<Rightarrow> 'w \<Rightarrow> (sandbox \<times> error option) \<times> 'w"
  cl_Delete :: "string \<Rightarrow> 'w \<Rightarrow> error option \<times> 'w"
  cl_ExposePort :: "string \<Rightarrow> int \<Rightarrow> 'w \<Rightarrow> string result \<times> 'w"
  cl_Keepalive :: "string \<Rightarrow> 'w \<Rightarrow> error option \<times> 'w"
  cl_Pause :: "string \<Rightarrow> 'w \<Rightarrow> error option \<times> 'w"
  cl_CreateSnapshot :: "string \<Rightarrow> string \<Rightarrow> 'w \<Rightarrow> snapshot result \<times> 'w"
  cl_GetSnapshot :: "string \<Rightarrow> 'w \<Rightarrow> snapshot result \<times> 'w"
  cl_WaitSnapshot :: "string \<Rightarrow> time \<Rightarrow> 'w \<Rightarrow> snapshot result \<times> 'w"
  cl_Exec :: "sandbox \<Rightarrow> execSpec \<Rightarrow> 'w \<Rightarrow> (string list \<times> execResult result) \<times> 'w"
  cl_WriteFile :: "sandbox \<Rightarrow> string \<Rightarrow> string \<Rightarrow> 'w \<Rightarrow> error option \<times> 'w"
  cl_StartProcess :: "sandbox \<Rightarrow> execSpec \<Rightarrow> 'w \<Rightarrow> process result \<times> 'w"
  cl_Logs :: "sandbox \<Rightarrow> string \<Rightarrow> 'w \<Rightarrow> string list \<times> 'w"
  cl_DialPTY :: "sandbox \<Rightarrow> ptyOptions \<Rightarrow> 'w \<Rightarrow> nat result \<times> 'w"

section \<open>The contract\<close>

text \<open>The snapshots that deleting a sandbox leaves: those it does not own.\<close>

definition without_owner :: "string \<Rightarrow> (string \<Rightarrow> snapshot option) \<Rightarrow> string \<Rightarrow> snapshot option" where
  "without_owner i snaps =
    (\<lambda>k. case snaps k of None \<Rightarrow> None | Some sn \<Rightarrow> if sn_SandboxID sn = i then None else Some sn)"

text \<open>
  The platform as the sandboxes and the snapshots that exist, as functions of the world; \<open>ok\<close> is an
  invariant of the worlds. Creating gives a new sandbox, deleting removes it with its snapshots,
  waiting for a sandbox that exists returns its identifier even when it fails, and the operations
  inside a sandbox change neither of the two. A snapshot has a sandbox that owns it.
\<close>

locale platform =
  fixes C :: "'w client" and ok :: "'w \<Rightarrow> bool"
    and boxes :: "'w \<Rightarrow> string \<Rightarrow> sandbox option" and snaps :: "'w \<Rightarrow> string \<Rightarrow> snapshot option"
  assumes create_ok: "ok w \<Longrightarrow> cl_Create C spec w = (Inr sb, w') \<Longrightarrow>
      ok w' \<and> boxes w (sx_ID sb) = None \<and> boxes w' = (boxes w)(sx_ID sb \<mapsto> sb) \<and> snaps w' = snaps w \<and>
      (cs_Restore spec = [] \<or> snaps w (cs_Restore spec) \<noteq> None)"
    and create_err: "ok w \<Longrightarrow> cl_Create C spec w = (Inl e, w') \<Longrightarrow> ok w' \<and> boxes w' = boxes w \<and> snaps w' = snaps w"
    and wait_ready: "ok w \<Longrightarrow> boxes w i \<noteq> None \<Longrightarrow> cl_WaitReady C i t w = ((sb, r), w') \<Longrightarrow>
      ok w' \<and> sx_ID sb = i \<and> boxes w' = boxes w \<and> snaps w' = snaps w"
    and delete: "ok w \<Longrightarrow> cl_Delete C i w = (r, w') \<Longrightarrow>
      ok w' \<and> boxes w' = (boxes w)(i := None) \<and> snaps w' = without_owner i (snaps w)"
    and exec: "ok w \<Longrightarrow> cl_Exec C sb sp w = (x, w') \<Longrightarrow> ok w' \<and> boxes w' = boxes w \<and> snaps w' = snaps w"
    and write_file: "ok w \<Longrightarrow> cl_WriteFile C sb p d w = (r, w') \<Longrightarrow> ok w' \<and> boxes w' = boxes w \<and> snaps w' = snaps w"
    and start_process: "ok w \<Longrightarrow> cl_StartProcess C sb sp w = (p', w') \<Longrightarrow> ok w' \<and> boxes w' = boxes w \<and> snaps w' = snaps w"
    and logs: "ok w \<Longrightarrow> cl_Logs C sb pid w = (cs, w') \<Longrightarrow> ok w' \<and> boxes w' = boxes w \<and> snaps w' = snaps w"
    and create_snapshot: "ok w \<Longrightarrow> cl_CreateSnapshot C i n w = (sr, w') \<Longrightarrow>
      ok w' \<and> boxes w' = boxes w \<and>
      (case sr of Inl e \<Rightarrow> snaps w' = snaps w
       | Inr sn \<Rightarrow> sn_SandboxID sn = i \<and> boxes w i \<noteq> None \<and> snaps w (sn_ID sn) = None \<and>
           snaps w' = (snaps w)(sn_ID sn \<mapsto> sn))"
    and wait_snapshot: "ok w \<Longrightarrow> cl_WaitSnapshot C k t w = (sr, w') \<Longrightarrow>
      ok w' \<and> boxes w' = boxes w \<and> snaps w' = snaps w \<and> (\<forall>sn. sr = Inr sn \<longrightarrow> snaps w k = Some sn \<and> sn_ID sn = k)"
    and pause: "ok w \<Longrightarrow> cl_Pause C i w = (r, w') \<Longrightarrow>
      ok w' \<and> dom (boxes w') = dom (boxes w) \<and> snaps w' = snaps w"
    and owned: "ok w \<Longrightarrow> snaps w k = Some sn \<Longrightarrow> boxes w (sn_SandboxID sn) \<noteq> None"
begin

text \<open>A sandbox that is created and deleted leaves no trace in the set of sandboxes.\<close>

lemma create_delete:
  assumes "ok w" and "cl_Create C spec w = (Inr sb, w1)" and "ok w2" and "dom (boxes w2) = dom (boxes w1)"
    and "cl_Delete C (sx_ID sb) w2 = (r, w3)"
  shows "dom (boxes w3) = dom (boxes w)"
  using create_ok [OF assms(1,2)] delete [OF assms(3,5)] assms(4) by auto

lemma delete_twice:
  assumes "ok w" and "cl_Delete C i w = (r, w1)" and "cl_Delete C i w1 = (r', w2)"
  shows "boxes w2 = boxes w1 \<and> snaps w2 = snaps w1"
  using delete [OF assms(1,2)] delete [OF _ assms(3)]
  by (auto simp: without_owner_def fun_eq_iff split: option.split)

end

end
