(* ===== verification/Memory.thy ===== *)
theory Memory
  imports Store_Types
begin

text \<open>
  \<open>internal/store/memory.go\<close>: the in-process store. Each method runs under the mutex, so it is one
  function on the state; the time and the identifier it takes from the system are its arguments.
  A build is a value here, so \<open>cloneBuild\<close>, which copies the recipe behind its pointer, is the identity.
\<close>

section \<open>The store\<close>

record memory =
  mm_builds :: "(string, build) gomap"
  mm_sessions :: "(string, session) gomap"
  mm_usage :: "(string, int) gomap"

definition NewMemory :: memory where
  "NewMemory = \<lparr>mm_builds = [], mm_sessions = [], mm_usage = []\<rparr>"

definition cloneBuild :: "build \<Rightarrow> build" where
  "cloneBuild b = (case b_Recipe b of None \<Rightarrow> b | Some r \<Rightarrow> b\<lparr>b_Recipe := Some r\<rparr>)"

lemma cloneBuild_id [simp]: "cloneBuild b = b"
  by (cases b) (simp add: cloneBuild_def split: option.split)

definition CreateBuild :: "time \<Rightarrow> string \<Rightarrow> build \<Rightarrow> memory \<Rightarrow> build result \<times> memory" where
  "CreateBuild now nid b m =
    (let b1 = (if b_ID b = [] then b\<lparr>b_ID := nid\<rparr> else b);
         b2 = (if b_CreatedAt b1 = 0 then b1\<lparr>b_CreatedAt := now\<rparr> else b1);
         b3 = b2\<lparr>b_UpdatedAt := now\<rparr>
     in (Inr b3, m\<lparr>mm_builds := map_put (b_ID b3) (cloneBuild b3) (mm_builds m)\<rparr>))"

definition UpdateBuild :: "time \<Rightarrow> build \<Rightarrow> memory \<Rightarrow> (build \<times> error option) \<times> memory" where
  "UpdateBuild now b m =
    (case map_of (mm_builds m) (b_ID b) of
       None \<Rightarrow> ((b, Some ErrStoreNotFound), m)
     | Some cur \<Rightarrow>
         let b1 = b\<lparr>b_UpdatedAt := now\<rparr>;
             b2 = b1\<lparr>b_Visits := b_Visits cur, b_LastVisitAt := b_LastVisitAt cur, b_CreatedAt := b_CreatedAt cur\<rparr>
         in ((b2, None), m\<lparr>mm_builds := map_put (b_ID b2) (cloneBuild b2) (mm_builds m)\<rparr>))"

definition GetBuild :: "string \<Rightarrow> memory \<Rightarrow> build result \<times> memory" where
  "GetBuild i m =
    ((case map_of (mm_builds m) i of None \<Rightarrow> Inl ErrStoreNotFound | Some b \<Rightarrow> Inr (cloneBuild b)), m)"

definition GetBuildBySHA :: "string \<Rightarrow> string \<Rightarrow> string \<Rightarrow> memory \<Rightarrow> build result \<times> memory" where
  "GetBuildBySHA ow rp sha m =
    ((case List.find (\<lambda>(_, b). b_Owner b = ow \<and> b_Repo b = rp \<and> b_SHA b = sha) (mm_builds m) of
        None \<Rightarrow> Inl ErrStoreNotFound
      | Some (_, b) \<Rightarrow> Inr (cloneBuild b)), m)"

text \<open>The loop of \<open>LatestBuild\<close>: a later build replaces the best one only when it is strictly newer.\<close>

definition newer :: "string \<Rightarrow> string \<Rightarrow> build option \<Rightarrow> string \<times> build \<Rightarrow> build option" where
  "newer ow rp best kb =
    (let b = snd kb
     in if b_Owner b = ow \<and> b_Repo b = rp \<and>
           (case best of None \<Rightarrow> True | Some bb \<Rightarrow> b_CreatedAt b > b_CreatedAt bb)
        then Some b else best)"

definition LatestBuild :: "string \<Rightarrow> string \<Rightarrow> memory \<Rightarrow> build result \<times> memory" where
  "LatestBuild ow rp m =
    ((case foldl (newer ow rp) None (mm_builds m) of
        None \<Rightarrow> Inl ErrStoreNotFound
      | Some b \<Rightarrow> Inr (cloneBuild b)), m)"

definition RecordVisit :: "string \<Rightarrow> time \<Rightarrow> memory \<Rightarrow> error option \<times> memory" where
  "RecordVisit i at m =
    (case map_of (mm_builds m) i of
       None \<Rightarrow> (Some ErrStoreNotFound, m)
     | Some b \<Rightarrow>
         (None, m\<lparr>mm_builds := map_put i (b\<lparr>b_Visits := b_Visits b + 1, b_LastVisitAt := at\<rparr>) (mm_builds m)\<rparr>))"

definition CreateSession :: "time \<Rightarrow> string \<Rightarrow> session \<Rightarrow> memory \<Rightarrow> session result \<times> memory" where
  "CreateSession now nid s m =
    (let s1 = (if s_ID s = [] then s\<lparr>s_ID := nid\<rparr> else s);
         s2 = (if s_CreatedAt s1 = 0 then s1\<lparr>s_CreatedAt := now\<rparr> else s1)
     in (Inr s2, m\<lparr>mm_sessions := map_put (s_ID s2) s2 (mm_sessions m)\<rparr>))"

definition UpdateSession :: "session \<Rightarrow> memory \<Rightarrow> error option \<times> memory" where
  "UpdateSession s m =
    (case map_of (mm_sessions m) (s_ID s) of
       None \<Rightarrow> (Some ErrStoreNotFound, m)
     | Some _ \<Rightarrow> (None, m\<lparr>mm_sessions := map_put (s_ID s) s (mm_sessions m)\<rparr>))"

definition GetSession :: "string \<Rightarrow> memory \<Rightarrow> session result \<times> memory" where
  "GetSession i m =
    ((case map_of (mm_sessions m) i of None \<Rightarrow> Inl ErrStoreNotFound | Some s \<Rightarrow> Inr s), m)"

text \<open>The loop of \<open>LiveSessions\<close>.\<close>

definition count_live :: "string \<Rightarrow> string \<Rightarrow> int \<times> int \<times> int \<Rightarrow> string \<times> session \<Rightarrow> int \<times> int \<times> int" where
  "count_live dev ip acc ks =
    (case (acc, ks) of ((d, i, t), (_, s)) \<Rightarrow>
       if \<not> Live s then (d, i, t)
       else (if s_Device s = dev then d + 1 else d, if s_IP s = ip then i + 1 else i, t + 1))"

definition LiveSessions :: "string \<Rightarrow> string \<Rightarrow> memory \<Rightarrow> (int \<times> int \<times> int) result \<times> memory" where
  "LiveSessions dev ip m = (Inr (foldl (count_live dev ip) (0, 0, 0) (mm_sessions m)), m)"

definition LiveSessionsForDevice :: "string \<Rightarrow> memory \<Rightarrow> session list result \<times> memory" where
  "LiveSessionsForDevice dev m =
    (Inr (filter (\<lambda>s. Live s \<and> s_Device s = dev) (map snd (mm_sessions m))), m)"

definition usage_key :: "string \<Rightarrow> string \<Rightarrow> string \<Rightarrow> string" where
  "usage_key day kind owner = day @ ''|'' @ kind @ ''|'' @ owner"

definition IncrUsage :: "string \<Rightarrow> string \<Rightarrow> string \<Rightarrow> int \<Rightarrow> memory \<Rightarrow> int result \<times> memory" where
  "IncrUsage day kind owner n m =
    (let k = usage_key day kind owner;
         v = (case map_of (mm_usage m) k of None \<Rightarrow> 0 | Some x \<Rightarrow> x) + n
     in (Inr v, m\<lparr>mm_usage := map_put k v (mm_usage m)\<rparr>))"

section \<open>Well-formedness\<close>

text \<open>The keys are distinct and every record is stored under its own identifier.\<close>

definition memory_ok :: "memory \<Rightarrow> bool" where
  "memory_ok m \<longleftrightarrow>
    wf_map (mm_builds m) \<and> wf_map (mm_sessions m) \<and> wf_map (mm_usage m) \<and>
    list_all (\<lambda>(k, b). b_ID b = k) (mm_builds m) \<and> list_all (\<lambda>(k, s). s_ID s = k) (mm_sessions m)"

lemma list_all_put:
  "list_all P m \<Longrightarrow> P (k, v) \<Longrightarrow> list_all P (map_put k v m)"
proof -
  have "set (map_put k v m) \<subseteq> insert (k, v) (set m)" by (induction m) auto
  then show "list_all P m \<Longrightarrow> P (k, v) \<Longrightarrow> ?thesis" by (auto simp: list_all_iff)
qed

lemma memory_ok_lookup:
  "memory_ok m \<Longrightarrow> map_of (mm_builds m) i = Some b \<Longrightarrow> b_ID b = i"
  by (auto simp: memory_ok_def list_all_iff dest!: map_of_SomeD)

lemma memory_ok_session:
  "memory_ok m \<Longrightarrow> map_of (mm_sessions m) i = Some s \<Longrightarrow> s_ID s = i"
  by (auto simp: memory_ok_def list_all_iff dest!: map_of_SomeD)

text \<open>The calls of the interface, as data.\<close>

datatype store_call =
    CCreateBuild time string build | CUpdateBuild time build | CRecordVisit string time
  | CCreateSession time string session | CUpdateSession session | CIncrUsage string string string int

fun store_step :: "memory \<Rightarrow> store_call \<Rightarrow> memory" where
  "store_step m (CCreateBuild now nid b) = snd (CreateBuild now nid b m)"
| "store_step m (CUpdateBuild now b) = snd (UpdateBuild now b m)"
| "store_step m (CRecordVisit i at) = snd (RecordVisit i at m)"
| "store_step m (CCreateSession now nid s) = snd (CreateSession now nid s m)"
| "store_step m (CUpdateSession s) = snd (UpdateSession s m)"
| "store_step m (CIncrUsage d k ow n) = snd (IncrUsage d k ow n m)"

lemma store_step_ok: "memory_ok m \<Longrightarrow> memory_ok (store_step m c)"
proof (cases c)
  case (CRecordVisit i at)
  then show "memory_ok m \<Longrightarrow> ?thesis"
    using memory_ok_lookup [of m i]
    by (auto simp: memory_ok_def RecordVisit_def intro!: list_all_put split: option.split)
qed (auto simp: memory_ok_def CreateBuild_def UpdateBuild_def CreateSession_def UpdateSession_def
    IncrUsage_def Let_def intro!: list_all_put split: option.split)

definition store_run :: "memory \<Rightarrow> store_call list \<Rightarrow> memory" where
  "store_run = foldl store_step"

lemma store_run_ok: "memory_ok m \<Longrightarrow> memory_ok (store_run m cs)"
  unfolding store_run_def by (induction cs arbitrary: m) (auto simp: store_step_ok)

section \<open>The interface on the in-process store\<close>

record mworld =
  mw_mem :: memory
  mw_host :: host

definition with_mem :: "(memory \<Rightarrow> 'r \<times> memory) \<Rightarrow> 'a mworld_scheme \<Rightarrow> 'r \<times> 'a mworld_scheme" where
  "with_mem f w = (case f (mw_mem w) of (r, m) \<Rightarrow> (r, w\<lparr>mw_mem := m\<rparr>))"

definition with_now :: "(time \<Rightarrow> memory \<Rightarrow> 'r \<times> memory) \<Rightarrow> 'a mworld_scheme \<Rightarrow> 'r \<times> 'a mworld_scheme" where
  "with_now f w = (case time_Now (mw_host w) of (now, h) \<Rightarrow> with_mem (f now) (w\<lparr>mw_host := h\<rparr>))"

definition with_id :: "(string \<Rightarrow> time \<Rightarrow> memory \<Rightarrow> 'r \<times> memory) \<Rightarrow> 'a mworld_scheme \<Rightarrow> 'r \<times> 'a mworld_scheme" where
  "with_id f w = (case new_id (mw_host w) of (nid, h) \<Rightarrow> with_now (f nid) (w\<lparr>mw_host := h\<rparr>))"

definition memory_store :: "'a mworld_scheme store" where
  "memory_store =
    \<lparr>so_CreateBuild = (\<lambda>b. with_id (\<lambda>nid now. CreateBuild now nid b)),
     so_UpdateBuild = (\<lambda>b. with_now (\<lambda>now. UpdateBuild now b)),
     so_GetBuild = (\<lambda>i. with_mem (GetBuild i)),
     so_GetBuildBySHA = (\<lambda>ow rp sha. with_mem (GetBuildBySHA ow rp sha)),
     so_LatestBuild = (\<lambda>ow rp. with_mem (LatestBuild ow rp)),
     so_RecordVisit = (\<lambda>i at. with_mem (RecordVisit i at)),
     so_CreateSession = (\<lambda>s. with_id (\<lambda>nid now. CreateSession now nid s)),
     so_UpdateSession = (\<lambda>s. with_mem (UpdateSession s)),
     so_GetSession = (\<lambda>i. with_mem (GetSession i)),
     so_LiveSessions = (\<lambda>dev ip. with_mem (LiveSessions dev ip)),
     so_LiveSessionsForDevice = (\<lambda>dev. with_mem (LiveSessionsForDevice dev)),
     so_IncrUsage = (\<lambda>day kind ow n. with_mem (IncrUsage day kind ow n))\<rparr>"

definition stored_builds :: "'a mworld_scheme \<Rightarrow> string \<Rightarrow> build option" where
  "stored_builds w = map_of (mm_builds (mw_mem w))"

definition stored_sessions :: "'a mworld_scheme \<Rightarrow> string \<Rightarrow> session option" where
  "stored_sessions w = map_of (mm_sessions (mw_mem w))"

lemmas mworld_defs = memory_store_def stored_builds_def stored_sessions_def with_id_def with_now_def
  with_mem_def time_Now_def new_id_def

interpretation mbuilds: build_store memory_store stored_builds
  by unfold_locales
    (auto simp: mworld_defs GetBuild_def UpdateBuild_def CreateBuild_def RecordVisit_def Let_def
      build_body_def build_counters_def split: option.split)

interpretation msessions: session_store memory_store stored_sessions
  by unfold_locales
    (auto simp: mworld_defs GetSession_def UpdateSession_def CreateSession_def LiveSessionsForDevice_def
      Let_def split: option.split)

section \<open>Visit counters\<close>

text \<open>The identifier of the build that a call creates, and the visits a sequence of calls records.\<close>

fun created_id :: "store_call \<Rightarrow> string option" where
  "created_id (CCreateBuild now nid b) = Some (if b_ID b = [] then nid else b_ID b)"
| "created_id _ = None"

fun is_visit :: "string \<Rightarrow> store_call \<Rightarrow> bool" where
  "is_visit i (CRecordVisit j at) = (i = j)"
| "is_visit i _ = False"

lemma visit_step:
  assumes "map_of (mm_builds m) i = Some b" and "created_id c \<noteq> Some i"
  shows "\<exists>b'. map_of (mm_builds (store_step m c)) i = Some b' \<and> b_CreatedAt b' = b_CreatedAt b \<and>
    b_Visits b' = b_Visits b + (if is_visit i c then 1 else 0)"
proof (cases c)
  case (CUpdateBuild now b')
  then show ?thesis using assms by (cases "b_ID b' = i") (auto simp: UpdateBuild_def Let_def split: option.split)
next
  case (CRecordVisit j at)
  then show ?thesis using assms by (cases "j = i") (auto simp: RecordVisit_def split: option.split)
qed (use assms in \<open>auto simp: CreateBuild_def CreateSession_def UpdateSession_def IncrUsage_def Let_def
    split: option.split if_splits\<close>)

lemma visits_run:
  assumes "map_of (mm_builds m) i = Some b" and "list_all (\<lambda>c. created_id c \<noteq> Some i) cs"
  shows "\<exists>b'. map_of (mm_builds (store_run m cs)) i = Some b' \<and> b_CreatedAt b' = b_CreatedAt b \<and>
    b_Visits b' = b_Visits b + int (length (filter (is_visit i) cs))"
  using assms
proof (induction cs arbitrary: m b)
  case Nil
  then show ?case by (simp add: store_run_def)
next
  case (Cons c cs)
  then obtain b1 where b1: "map_of (mm_builds (store_step m c)) i = Some b1" "b_CreatedAt b1 = b_CreatedAt b"
    "b_Visits b1 = b_Visits b + (if is_visit i c then 1 else 0)"
    using visit_step [of m i b c] by auto
  with Cons.IH [OF b1(1)] Cons.prems(2) show ?case by (auto simp: store_run_def)
qed

section \<open>Queries\<close>

definition of_repo :: "string \<Rightarrow> string \<Rightarrow> build \<Rightarrow> bool" where
  "of_repo ow rp b \<longleftrightarrow> b_Owner b = ow \<and> b_Repo b = rp"

definition candidates :: "string \<Rightarrow> string \<Rightarrow> build option \<Rightarrow> (string \<times> build) list \<Rightarrow> build set" where
  "candidates ow rp acc kbs = set_option acc \<union> {b. b \<in> snd ` set kbs \<and> of_repo ow rp b}"

lemma newer_candidates:
  "candidates ow rp (newer ow rp acc kb) kbs \<subseteq> candidates ow rp acc (kb # kbs) \<and>
   (\<forall>b \<in> candidates ow rp acc (kb # kbs). \<exists>b' \<in> candidates ow rp (newer ow rp acc kb) kbs. b_CreatedAt b \<le> b_CreatedAt b')"
  by (cases acc) (auto simp: candidates_def newer_def of_repo_def Let_def)

lemma newer_fold:
  "case foldl (newer ow rp) acc kbs of
     None \<Rightarrow> candidates ow rp acc kbs = {}
   | Some b \<Rightarrow> b \<in> candidates ow rp acc kbs \<and> (\<forall>b' \<in> candidates ow rp acc kbs. b_CreatedAt b' \<le> b_CreatedAt b)"
proof (induction kbs arbitrary: acc)
  case Nil
  then show ?case by (cases acc) (auto simp: candidates_def)
next
  case (Cons kb kbs)
  let ?acc = "newer ow rp acc kb"
  note n = newer_candidates [of ow rp acc kb kbs]
  show ?case
  proof (cases "foldl (newer ow rp) ?acc kbs")
    case None
    with Cons.IH [of ?acc] have "candidates ow rp ?acc kbs = {}" by simp
    with n have "candidates ow rp acc (kb # kbs) = {}" by blast
    with None show ?thesis by simp
  next
    case (Some b)
    with Cons.IH [of ?acc] have b: "b \<in> candidates ow rp ?acc kbs"
      "\<forall>b' \<in> candidates ow rp ?acc kbs. b_CreatedAt b' \<le> b_CreatedAt b" by simp_all
    have "b_CreatedAt b' \<le> b_CreatedAt b" if "b' \<in> candidates ow rp acc (kb # kbs)" for b'
      using n b(2) that by (meson order_trans)
    with n b(1) Some show ?thesis by auto
  qed
qed

lemma LatestBuild_max:
  "case fst (LatestBuild ow rp m) of
     Inl e \<Rightarrow> e = ErrStoreNotFound \<and> list_all (\<lambda>kb. \<not> of_repo ow rp (snd kb)) (mm_builds m)
   | Inr b \<Rightarrow> of_repo ow rp b \<and> b \<in> snd ` set (mm_builds m) \<and>
       list_all (\<lambda>kb. \<not> (of_repo ow rp (snd kb) \<and> b_CreatedAt b < b_CreatedAt (snd kb))) (mm_builds m)"
  using newer_fold [of ow rp None "mm_builds m"]
  by (auto simp: LatestBuild_def list_all_iff candidates_def split: option.splits)

lemma count_live_fold:
  "foldl (count_live dev ip) (d, i, t) kss =
    (d + int (length (filter (\<lambda>s. Live s \<and> s_Device s = dev) (map snd kss))),
     i + int (length (filter (\<lambda>s. Live s \<and> s_IP s = ip) (map snd kss))),
     t + int (length (filter Live (map snd kss))))"
  by (induction kss arbitrary: d i t) (auto simp: count_live_def)

section \<open>Usage counters\<close>

text \<open>The parts of a call that share a counter.\<close>

fun usage_of :: "store_call \<Rightarrow> (string \<times> int) option" where
  "usage_of (CIncrUsage d k ow n) = Some (usage_key d k ow, n)"
| "usage_of _ = None"

definition usage_at :: "memory \<Rightarrow> string \<Rightarrow> int" where
  "usage_at m k = (case map_of (mm_usage m) k of None \<Rightarrow> 0 | Some v \<Rightarrow> v)"

fun usage_sum :: "string \<Rightarrow> store_call list \<Rightarrow> int" where
  "usage_sum k [] = 0"
| "usage_sum k (c # cs) =
    (case usage_of c of Some (k', n) \<Rightarrow> if k' = k then n else 0 | None \<Rightarrow> 0) + usage_sum k cs"

lemma usage_step:
  "usage_at (store_step m c) k = usage_at m k + (case usage_of c of Some (k', n) \<Rightarrow> if k' = k then n else 0 | None \<Rightarrow> 0)"
  by (cases c) (auto simp: usage_at_def CreateBuild_def UpdateBuild_def RecordVisit_def CreateSession_def
      UpdateSession_def IncrUsage_def Let_def split: option.split)

lemma usage_run: "usage_at (store_run m cs) k = usage_at m k + usage_sum k cs"
  unfolding store_run_def by (induction cs arbitrary: m) (simp_all add: usage_step)

lemma usage_key_inj:
  assumes "CHR ''|'' \<notin> set d" and "CHR ''|'' \<notin> set k" and "CHR ''|'' \<notin> set d'" and "CHR ''|'' \<notin> set k'"
    and "usage_key d k ow = usage_key d' k' ow'"
  shows "d = d' \<and> k = k' \<and> ow = ow'"
proof -
  let ?cut = "CutByte (CHR ''|'')"
  have e: "d @ CHR ''|'' # k @ CHR ''|'' # ow = d' @ CHR ''|'' # k' @ CHR ''|'' # ow'"
    using assms(5) by (simp add: usage_key_def)
  have "(d, k @ CHR ''|'' # ow, True) = (d', k' @ CHR ''|'' # ow', True)"
    by (metis CutByte_app [OF assms(1)] CutByte_app [OF assms(3)] e)
  then have d: "d = d'" "k @ CHR ''|'' # ow = k' @ CHR ''|'' # ow'" by (simp_all only: prod.inject)
  have "(k, ow, True) = (k', ow', True)"
    by (metis CutByte_app [OF assms(2)] CutByte_app [OF assms(4)] d(2))
  with d(1) show ?thesis by (simp only: prod.inject)
qed

section \<open>The properties\<close>

text \<open>
  C10: No visit is lost: however updates with stale copies of a build, visits, session calls and calls
  for other builds follow each other, the visit counter of a stored build is its old value plus
  the number of visits recorded for it, and its creation time does not change.
\<close>

theorem visits_never_lost:
  assumes "map_of (mm_builds m) i = Some b" and "list_all (\<lambda>c. created_id c \<noteq> Some i) cs"
  shows "\<exists>b'. map_of (mm_builds (store_run m cs)) i = Some b' \<and> b_CreatedAt b' = b_CreatedAt b \<and>
    b_Visits b' = b_Visits b + int (length (filter (is_visit i) cs))"
  by (rule visits_run [OF assms])

definition demo_build :: build where
  "demo_build = no_build\<lparr>b_ID := ''b1'', b_Owner := ''o'', b_Repo := ''r'', b_SHA := ''abc'',
    b_Status := BuildQueued, b_CreatedAt := 5\<rparr>"

definition demo_memory :: memory where
  "demo_memory = snd (CreateBuild 7 [] demo_build NewMemory)"

definition demo_calls :: "store_call list" where
  "demo_calls =
    [CRecordVisit ''b1'' 8, CUpdateBuild 9 (demo_build\<lparr>b_Status := BuildBuilding\<rparr>), CRecordVisit ''b1'' 10,
     CUpdateBuild 11 (demo_build\<lparr>b_Status := BuildReady\<rparr>)]"

theorem visits_never_lost_witness:
  "\<exists>b. map_of (mm_builds (store_run demo_memory demo_calls)) ''b1'' = Some b \<and> b_Visits b = 2 \<and>
    b_Status b = BuildReady"
proof -
  have m: "map_of (mm_builds demo_memory) ''b1'' = Some (the (map_of (mm_builds demo_memory) ''b1''))" by code_simp
  have c: "list_all (\<lambda>c. created_id c \<noteq> Some ''b1'') demo_calls" by code_simp
  obtain b where b: "map_of (mm_builds (store_run demo_memory demo_calls)) ''b1'' = Some b"
    "b_Visits b = b_Visits (the (map_of (mm_builds demo_memory) ''b1'')) + int (length (filter (is_visit ''b1'') demo_calls))"
    using visits_never_lost [OF m c] by blast
  have "b_Visits (the (map_of (mm_builds demo_memory) ''b1'')) + int (length (filter (is_visit ''b1'') demo_calls)) = 2"
    by code_simp
  moreover have "map_option b_Status (map_of (mm_builds (store_run demo_memory demo_calls)) ''b1'') = Some BuildReady"
    by code_simp
  ultimately show ?thesis using b by auto
qed

text \<open>
  \<open>LatestBuild\<close> finds a build of the repository that no other one is newer than, or there is none;
  the answer does not depend on the order in which Go visits the map, up to equal creation times.
\<close>

theorem LatestBuild_newest:
  "case fst (LatestBuild ow rp m) of
     Inl e \<Rightarrow> e = ErrStoreNotFound \<and> list_all (\<lambda>kb. \<not> of_repo ow rp (snd kb)) (mm_builds m)
   | Inr b \<Rightarrow> of_repo ow rp b \<and> b \<in> snd ` set (mm_builds m) \<and>
       list_all (\<lambda>kb. \<not> (of_repo ow rp (snd kb) \<and> b_CreatedAt b < b_CreatedAt (snd kb))) (mm_builds m)"
  by (rule LatestBuild_max)

text \<open>
  The counts of \<open>LiveSessions\<close> are the numbers of sessions not ended of the device, of the address
  and overall; the first is the length of what \<open>LiveSessionsForDevice\<close> lists, and the total bounds both.
\<close>

theorem LiveSessions_counts:
  "\<exists>byDev byIP total mine.
    LiveSessions dev ip m = (Inr (byDev, byIP, total), m) \<and>
    LiveSessionsForDevice dev m = (Inr mine, m) \<and>
    byDev = int (length mine) \<and> list_all (\<lambda>s. Live s \<and> s_Device s = dev) mine \<and>
    byIP = int (length (filter (\<lambda>s. Live s \<and> s_IP s = ip) (map snd (mm_sessions m)))) \<and>
    total = int (length (filter Live (map snd (mm_sessions m)))) \<and> byDev \<le> total \<and> byIP \<le> total"
proof -
  have "length (filter ((\<lambda>s. Live s \<and> P s) \<circ> snd) xs) \<le> length (filter (Live \<circ> snd) xs)"
    for P :: "session \<Rightarrow> bool" and xs :: "(string \<times> session) list"
    by (induction xs) auto
  then show ?thesis
    by (auto simp: LiveSessions_def LiveSessionsForDevice_def count_live_fold list_all_iff)
qed

text \<open>
  When no day and no kind contains the separator, the counter that \<open>IncrUsage\<close> returns is the sum of
  all amounts given for the same day, kind and owner: the joined key does not mix counters.
\<close>

theorem IncrUsage_total:
  assumes "list_all (\<lambda>(d, k, ow, n). CHR ''|'' \<notin> set d \<and> CHR ''|'' \<notin> set k) ((day, kind, owner, n) # us)"
  shows "fst (IncrUsage day kind owner n (store_run NewMemory (map (\<lambda>(d, k, ow, n). CIncrUsage d k ow n) us))) =
    Inr (sum_list (map (\<lambda>(d, k, ow, n). if d = day \<and> k = kind \<and> ow = owner then n else 0) us) + n)"
proof -
  let ?calls = "\<lambda>us. map (\<lambda>(d, k, ow, n). CIncrUsage d k ow n) us" and ?key = "usage_key day kind owner"
  have "usage_sum ?key (?calls us) =
      sum_list (map (\<lambda>(d, k, ow, n). if d = day \<and> k = kind \<and> ow = owner then n else 0) us)"
    using assms
  proof (induction us)
    case (Cons u us)
    obtain d k ow n' where u: "u = (d, k, ow, n')" by (cases u)
    with Cons.prems usage_key_inj [of d k day kind ow owner] show ?case using Cons.IH by (auto simp: u)
  qed simp
  moreover have "usage_at (store_run NewMemory (?calls us)) ?key = usage_sum ?key (?calls us)"
    using usage_run [of NewMemory "?calls us" ?key] by (simp add: usage_at_def NewMemory_def)
  ultimately show ?thesis by (simp add: IncrUsage_def Let_def usage_at_def)
qed

theorem IncrUsage_total_witness:
  "fst (IncrUsage ''d1'' ''build'' ''x'' 2 (store_run NewMemory [CIncrUsage ''d1'' ''build'' ''x'' 3, CIncrUsage ''d1'' ''build'' ''y'' 4])) = Inr 5 \<and>
   fst (IncrUsage ''d1'' ''a|b'' ''c'' 1 (store_run NewMemory [CIncrUsage ''d1'' ''a'' ''b|c'' 1])) = Inr 2"
proof -
  have "list_all (\<lambda>(d, k, ow, n). CHR ''|'' \<notin> set d \<and> CHR ''|'' \<notin> set k)
    [(''d1'', ''build'', ''x'', 2 :: int), (''d1'', ''build'', ''x'', 3), (''d1'', ''build'', ''y'', 4)]" by code_simp
  from IncrUsage_total [OF this]
  have "fst (IncrUsage ''d1'' ''build'' ''x'' 2 (store_run NewMemory [CIncrUsage ''d1'' ''build'' ''x'' 3, CIncrUsage ''d1'' ''build'' ''y'' 4])) = Inr 5"
    by simp
  moreover have "fst (IncrUsage ''d1'' ''a|b'' ''c'' 1 (store_run NewMemory [CIncrUsage ''d1'' ''a'' ''b|c'' 1])) = Inr 2"
    by code_simp
  ultimately show ?thesis by blast
qed

text \<open>
  C39: The store stays well formed: whatever calls are made on a new store, its keys are distinct and every
  record is filed under its own identifier, so a lookup answers with the record of that identifier or
  with \<open>ErrNotFound\<close>.
\<close>

theorem memory_well_formed:
  "memory_ok (store_run NewMemory cs) \<and>
   (case fst (GetBuild i (store_run NewMemory cs)) of Inl e \<Rightarrow> e = ErrStoreNotFound | Inr b \<Rightarrow> b_ID b = i) \<and>
   (case fst (GetSession i (store_run NewMemory cs)) of Inl e \<Rightarrow> e = ErrStoreNotFound | Inr s \<Rightarrow> s_ID s = i)"
proof -
  have ok: "memory_ok (store_run NewMemory cs)"
    by (rule store_run_ok) (simp add: memory_ok_def NewMemory_def)
  then show ?thesis
    using memory_ok_lookup [OF ok] memory_ok_session [OF ok]
    by (simp add: GetBuild_def GetSession_def split: option.split)
qed

end
