(* ===== verification/Fake.thy ===== *)
theory Fake
  imports Platform Memory
begin

text \<open>
  \<open>internal/sandbox/fake.go\<close>: the in-memory platform. Its state is a record; each method runs under
  the mutex and is one function on the state. It satisfies the contract of the platform.
\<close>

record fake =
  fk_nextID :: int
  fk_Sandboxes :: "(string, sandbox) gomap"
  fk_Snapshots :: "(string, snapshot) gomap"
  fk_Ports :: "(string, int list) gomap"
  fk_Files :: "(string, (string, string) gomap) gomap"
  fk_Calls :: "string list"
  fk_ExecScript :: "(string, execResult) gomap"
  fk_ExecHook :: "(execSpec \<Rightarrow> int \<Rightarrow> execResult option) option"
  fk_CreateErr :: "error option"
  fk_SnapshotFails :: bool
  fk_Deleted :: "string list"
  fk_execCount :: int

definition NewFake :: fake where
  "NewFake = \<lparr>fk_nextID = 0, fk_Sandboxes = [], fk_Snapshots = [], fk_Ports = [], fk_Files = [],
    fk_Calls = [], fk_ExecScript = [], fk_ExecHook = None, fk_CreateErr = None,
    fk_SnapshotFails = False, fk_Deleted = [], fk_execCount = 0\<rparr>"

definition fake_record :: "string \<Rightarrow> fake \<Rightarrow> fake" where
  "fake_record line f = f\<lparr>fk_Calls := fk_Calls f @ [line]\<rparr>"

definition show_bool :: "bool \<Rightarrow> string" where
  "show_bool b = (if b then ''true'' else ''false'')"

definition fake_Create :: "time \<Rightarrow> createSpec \<Rightarrow> fake \<Rightarrow> sandbox result \<times> fake" where
  "fake_Create now spec f =
    (case fk_CreateErr f of
       Some e \<Rightarrow> (Inl e, f)
     | None \<Rightarrow>
         if cs_Restore spec \<noteq> [] \<and> map_of (fk_Snapshots f) (cs_Restore spec) = None
         then (Inl (Errorf (''create sandbox: status 400: snapshot '' @ cs_Restore spec @ '' not found'')), f)
         else
           let n = fk_nextID f + 1;
               i = ''sb-'' @ Itoa n;
               sb = \<lparr>sx_ID = i, sx_Name = cs_Name spec, sx_Phase = PhaseReady, sx_Region = ''test'',
                     sx_ConnectURL = ''http://'' @ i @ ''.test'', sx_CreatedAt = now\<rparr>;
               f1 = f\<lparr>fk_nextID := n, fk_Sandboxes := map_put i sb (fk_Sandboxes f),
                      fk_Files := map_put i [] (fk_Files f)\<rparr>;
               eg = cs_Egress spec; lc = cs_Lifecycle spec
           in (Inr sb, fake_record
                (''create '' @ cs_Name spec @ '' restore='' @ cs_Restore spec @ '' egress='' @ eg_Mode eg @ ''/'' @
                 show_bool (eg_AllowInternet eg) @ '' idle='' @ Itoa (lc_IdleTimeoutSeconds lc) @
                 '' max='' @ Itoa (lc_MaxLifetimeSeconds lc) @ '' on_idle='' @ lc_OnIdle lc) f1))"

definition fake_Get :: "string \<Rightarrow> fake \<Rightarrow> sandbox result \<times> fake" where
  "fake_Get i f =
    ((case map_of (fk_Sandboxes f) i of None \<Rightarrow> Inl ErrSandboxNotFound | Some sb \<Rightarrow> Inr sb), f)"

definition fake_WaitReady :: "string \<Rightarrow> time \<Rightarrow> fake \<Rightarrow> (sandbox \<times> error option) \<times> fake" where
  "fake_WaitReady i t f =
    (case fake_Get i f of
       (Inl e, f') \<Rightarrow> ((no_sandbox, Some e), f')
     | (Inr sb, f') \<Rightarrow> ((sb, None), f'))"

definition fake_Delete :: "string \<Rightarrow> fake \<Rightarrow> error option \<times> fake" where
  "fake_Delete i f =
    (let f1 = f\<lparr>fk_Sandboxes := map_del i (fk_Sandboxes f),
                fk_Snapshots := filter (\<lambda>(_, sn). sn_SandboxID sn \<noteq> i) (fk_Snapshots f),
                fk_Deleted := fk_Deleted f @ [i]\<rparr>
     in (None, fake_record (''delete '' @ i) f1))"

definition fake_ExposePort :: "string \<Rightarrow> int \<Rightarrow> fake \<Rightarrow> string result \<times> fake" where
  "fake_ExposePort i port f =
    (if map_of (fk_Sandboxes f) i = None then (Inl ErrSandboxNotFound, f)
     else let ps = (case map_of (fk_Ports f) i of None \<Rightarrow> [] | Some ps \<Rightarrow> ps)
          in (Inr (''https://'' @ Itoa port @ ''-'' @ i @ ''.test.example''),
              fake_record (''expose '' @ i @ '' '' @ Itoa port) (f\<lparr>fk_Ports := map_put i (ps @ [port]) (fk_Ports f)\<rparr>)))"

definition fake_Keepalive :: "string \<Rightarrow> fake \<Rightarrow> error option \<times> fake" where
  "fake_Keepalive i f = (None, fake_record (''keepalive '' @ i) f)"

definition fake_Pause :: "string \<Rightarrow> fake \<Rightarrow> error option \<times> fake" where
  "fake_Pause i f =
    (case map_of (fk_Sandboxes f) i of
       None \<Rightarrow> (Some ErrSandboxNotFound, f)
     | Some sb \<Rightarrow>
         (None, fake_record (''pause '' @ i)
            (f\<lparr>fk_Sandboxes := map_put i (sb\<lparr>sx_Phase := PhasePaused\<rparr>) (fk_Sandboxes f)\<rparr>)))"

definition fake_CreateSnapshot :: "string \<Rightarrow> string \<Rightarrow> fake \<Rightarrow> snapshot result \<times> fake" where
  "fake_CreateSnapshot i name f =
    (if map_of (fk_Sandboxes f) i = None then (Inl ErrSandboxNotFound, f)
     else
       let n = fk_nextID f + 1;
           sn0 = \<lparr>sn_ID = ''snap-'' @ Itoa n, sn_SandboxID = i, sn_Status = SnapshotReady, sn_Error = [],
                  sn_SizeBytes = 15 * 2 ^ 20\<rparr>;
           sn = (if fk_SnapshotFails f
                 then sn0\<lparr>sn_Status := SnapshotFailed, sn_Error := ''capture failed''\<rparr> else sn0)
       in (Inr sn, fake_record (''snapshot '' @ i @ '' '' @ name)
            (f\<lparr>fk_nextID := n, fk_Snapshots := map_put (sn_ID sn) sn (fk_Snapshots f)\<rparr>)))"

definition fake_GetSnapshot :: "string \<Rightarrow> fake \<Rightarrow> snapshot result \<times> fake" where
  "fake_GetSnapshot k f =
    ((case map_of (fk_Snapshots f) k of None \<Rightarrow> Inl ErrSandboxNotFound | Some sn \<Rightarrow> Inr sn), f)"

definition fake_WaitSnapshot :: "string \<Rightarrow> time \<Rightarrow> fake \<Rightarrow> snapshot result \<times> fake" where
  "fake_WaitSnapshot k t f =
    (case fake_GetSnapshot k f of
       (Inl e, f') \<Rightarrow> (Inl e, f')
     | (Inr sn, f') \<Rightarrow>
         if sn_Status sn = SnapshotFailed
         then (Inl (Errorf (''snapshot '' @ k @ '' failed: '' @ sn_Error sn)), f') else (Inr sn, f'))"

text \<open>The loop over the script: the longest prefix of the command line wins.\<close>

definition better_script :: "string \<Rightarrow> int \<times> execResult \<Rightarrow> string \<times> execResult \<Rightarrow> int \<times> execResult" where
  "better_script line best pr =
    (if HasPrefix line (fst pr) \<and> int (length (fst pr)) > fst best
     then (int (length (fst pr)), snd pr) else best)"

definition no_result :: execResult where
  "no_result = \<lparr>er_Stdout = [], er_Stderr = [], er_ExitCode = 0\<rparr>"

definition script_result :: "(string, execResult) gomap \<Rightarrow> string \<Rightarrow> execResult" where
  "script_result script line = snd (foldl (better_script line) (-1, no_result) script)"

definition fake_Exec :: "sandbox \<Rightarrow> execSpec \<Rightarrow> fake \<Rightarrow> (string list \<times> execResult result) \<times> fake" where
  "fake_Exec sb spec f =
    (let n = fk_execCount f + 1;
         line = TrimSpace (ex_Command spec @ '' '' @ Join (ex_Args spec) '' '');
         f1 = fake_record (''exec '' @ line @ '' cwd='' @ ex_Cwd spec) (f\<lparr>fk_execCount := n\<rparr>);
         res0 = script_result (fk_ExecScript f) line;
         res = (case fk_ExecHook f of
                  None \<Rightarrow> res0
                | Some hook \<Rightarrow> (case hook spec n of None \<Rightarrow> res0 | Some r \<Rightarrow> r))
     in (([er_Stdout res @ er_Stderr res], Inr res), f1))"

definition fake_WriteFile :: "sandbox \<Rightarrow> string \<Rightarrow> string \<Rightarrow> fake \<Rightarrow> error option \<times> fake" where
  "fake_WriteFile sb path content f =
    (let files = (case map_of (fk_Files f) (sx_ID sb) of None \<Rightarrow> [] | Some fs \<Rightarrow> fs)
     in (None, f\<lparr>fk_Files := map_put (sx_ID sb) (map_put path content files) (fk_Files f)\<rparr>))"

definition fake_StartProcess :: "sandbox \<Rightarrow> execSpec \<Rightarrow> fake \<Rightarrow> process result \<times> fake" where
  "fake_StartProcess sb spec f =
    (Inr \<lparr>pr_ID = ''proc-1'', pr_State = ''running''\<rparr>,
     fake_record (''start '' @ ex_Command spec @ '' '' @ Join (ex_Args spec) '' '' @ '' cwd='' @ ex_Cwd spec) f)"

text \<open>\<open>StreamLogs\<close> delivers one piece and then waits for its context.\<close>

definition fake_Logs :: "sandbox \<Rightarrow> string \<Rightarrow> fake \<Rightarrow> string list \<times> fake" where
  "fake_Logs sb pid f = ([''server started'' @ [CHR 0x0A]], f)"

definition fake_DialPTY :: "sandbox \<Rightarrow> ptyOptions \<Rightarrow> fake \<Rightarrow> nat result \<times> fake" where
  "fake_DialPTY sb opts f = (Inr 0, fake_record (''pty '' @ sx_ID sb @ '' '' @ pt_Program opts) f)"

definition CallLog :: "fake \<Rightarrow> string list" where
  "CallLog f = fk_Calls f"

definition DeletedIDs :: "fake \<Rightarrow> string list" where
  "DeletedIDs f = fk_Deleted f"

definition SnapshotCount :: "fake \<Rightarrow> int" where
  "SnapshotCount f = int (length (fk_Snapshots f))"

section \<open>The echoing terminal\<close>

record pipePTY =
  pp_in :: "(string \<times> bool) list"
  pp_closed :: bool

definition NewPipePTY :: pipePTY where
  "NewPipePTY = \<lparr>pp_in = [], pp_closed = False\<rparr>"

text \<open>A write to a full channel of 64 frames would block; \<^const>\<open>None\<close> is a call that does not return.\<close>

definition pty_Write :: "string \<Rightarrow> bool \<Rightarrow> pipePTY \<Rightarrow> (error option \<times> pipePTY) option" where
  "pty_Write bytes binary p =
    (if pp_closed p then Some (Some (Errorf ''EOF''), p)
     else if length (pp_in p) < 64
     then Some (None, p\<lparr>pp_in := pp_in p @ [((if binary then ''echo:'' else ''ctl:'') @ bytes, binary)]\<rparr>)
     else None)"

text \<open>
  A read takes a frame when there is one; a closed terminal may also answer with the end of file, and
  then the choice is open, so the results are a list.
\<close>

definition pty_Read :: "pipePTY \<Rightarrow> ((string \<times> bool) result \<times> pipePTY) list" where
  "pty_Read p =
    (case pp_in p of [] \<Rightarrow> [] | fr # frs \<Rightarrow> [(Inr fr, p\<lparr>pp_in := frs\<rparr>)]) @
    (if pp_closed p then [(Inl (Errorf ''EOF''), p)] else [])"

definition pty_Close :: "pipePTY \<Rightarrow> pipePTY" where
  "pty_Close p = p\<lparr>pp_closed := True\<rparr>"

section \<open>The invariant of the fake\<close>

definition numbered :: "string \<Rightarrow> int \<Rightarrow> string \<Rightarrow> bool" where
  "numbered pre n k \<longleftrightarrow> (\<exists>i. 0 \<le> i \<and> i \<le> n \<and> k = pre @ Itoa i)"

definition boxes_ok :: "int \<Rightarrow> (string \<Rightarrow> sandbox option) \<Rightarrow> bool" where
  "boxes_ok n boxes \<longleftrightarrow> (\<forall>k sb. boxes k = Some sb \<longrightarrow> sx_ID sb = k \<and> numbered ''sb-'' n k)"

definition snaps_ok :: "int \<Rightarrow> (string \<Rightarrow> sandbox option) \<Rightarrow> (string \<Rightarrow> snapshot option) \<Rightarrow> bool" where
  "snaps_ok n boxes snaps \<longleftrightarrow>
    (\<forall>k sn. snaps k = Some sn \<longrightarrow> sn_ID sn = k \<and> numbered ''snap-'' n k \<and> boxes (sn_SandboxID sn) \<noteq> None)"

text \<open>
  The keys are distinct and are the identifiers of what they hold, identifiers come from the counter,
  and the sandbox that owns a snapshot exists.
\<close>

definition fake_ok :: "fake \<Rightarrow> bool" where
  "fake_ok f \<longleftrightarrow>
    0 \<le> fk_nextID f \<and> wf_map (fk_Sandboxes f) \<and> wf_map (fk_Snapshots f) \<and>
    boxes_ok (fk_nextID f) (map_of (fk_Sandboxes f)) \<and>
    snaps_ok (fk_nextID f) (map_of (fk_Sandboxes f)) (map_of (fk_Snapshots f))"

lemma Itoa_inj: "0 \<le> i \<Longrightarrow> 0 \<le> j \<Longrightarrow> Itoa i = Itoa j \<Longrightarrow> i = j"
  by (metis Itoa_def digits_value_dec_digits not_less option.inject)

lemma numbered_fresh: "0 \<le> n \<Longrightarrow> \<not> numbered pre n (pre @ Itoa (n + 1))"
proof
  assume n: "0 \<le> n" "numbered pre n (pre @ Itoa (n + 1))"
  then obtain i where i: "0 \<le> i" "i \<le> n" "Itoa i = Itoa (n + 1)" by (auto simp: numbered_def)
  with n(1) Itoa_inj [of i "n + 1"] show False by simp
qed

lemma numbered_mono: "numbered pre n k \<Longrightarrow> n \<le> n' \<Longrightarrow> numbered pre n' k"
  by (force simp: numbered_def)

lemma numbered_here: "0 \<le> n \<Longrightarrow> numbered pre n (pre @ Itoa n)"
  by (auto simp: numbered_def)

lemma boxes_ok_put:
  "boxes_ok n B \<Longrightarrow> n \<le> n' \<Longrightarrow> sx_ID sb = k \<Longrightarrow> numbered ''sb-'' n' k \<Longrightarrow> boxes_ok n' (B(k \<mapsto> sb))"
  by (auto simp: boxes_ok_def intro: numbered_mono)

lemma boxes_ok_del: "boxes_ok n B \<Longrightarrow> boxes_ok n (B(k := None))"
  by (auto simp: boxes_ok_def split: if_splits)

lemma boxes_ok_mono: "boxes_ok n B \<Longrightarrow> n \<le> n' \<Longrightarrow> boxes_ok n' B"
  by (auto simp: boxes_ok_def intro: numbered_mono)

lemma snaps_ok_mono: "snaps_ok n B S \<Longrightarrow> n \<le> n' \<Longrightarrow> dom B \<subseteq> dom B' \<Longrightarrow> snaps_ok n' B' S"
  unfolding snaps_ok_def using numbered_mono [of "''snap-''" n _ n'] by (blast dest: subsetD)

lemma snaps_ok_put:
  "snaps_ok n B S \<Longrightarrow> n \<le> n' \<Longrightarrow> sn_ID sn = k \<Longrightarrow> numbered ''snap-'' n' k \<Longrightarrow> B (sn_SandboxID sn) \<noteq> None \<Longrightarrow>
    snaps_ok n' B (S(k \<mapsto> sn))"
  by (auto simp: snaps_ok_def intro: numbered_mono)

lemma snaps_ok_delete: "snaps_ok n B S \<Longrightarrow> snaps_ok n (B(i := None)) (without_owner i S)"
  by (auto simp: snaps_ok_def without_owner_def split: option.splits if_splits)

lemma NewFake_ok: "fake_ok NewFake"
  by (simp add: fake_ok_def NewFake_def boxes_ok_def snaps_ok_def)

lemma fake_record_simps [simp]:
  "fk_Sandboxes (fake_record l f) = fk_Sandboxes f" "fk_Snapshots (fake_record l f) = fk_Snapshots f"
  "fk_nextID (fake_record l f) = fk_nextID f" "fake_ok (fake_record l f) = fake_ok f"
  by (simp_all add: fake_record_def fake_ok_def)

text \<open>Adding a sandbox, or a snapshot of an existing one, under the next number.\<close>

lemma fake_add_box:
  assumes "fake_ok f" and "k = ''sb-'' @ Itoa (fk_nextID f + 1)" and "sx_ID sb = k"
    and f': "fk_nextID f' = fk_nextID f + 1" "fk_Sandboxes f' = map_put k sb (fk_Sandboxes f)" "fk_Snapshots f' = fk_Snapshots f"
  shows "fake_ok f' \<and> map_of (fk_Sandboxes f) k = None"
proof -
  have n: "0 \<le> fk_nextID f" "0 \<le> fk_nextID f + 1" using assms(1) by (simp_all add: fake_ok_def)
  have k: "numbered ''sb-'' (fk_nextID f + 1) k" "\<not> numbered ''sb-'' (fk_nextID f) k"
    unfolding assms(2) using n by (simp_all only: numbered_here numbered_fresh not_False_eq_True)
  have b: "boxes_ok (fk_nextID f) (map_of (fk_Sandboxes f))"
    and s: "snaps_ok (fk_nextID f) (map_of (fk_Sandboxes f)) (map_of (fk_Snapshots f))"
    using assms(1) by (simp_all add: fake_ok_def)
  have "map_of (fk_Sandboxes f) k = None"
    using b k(2) by (cases "map_of (fk_Sandboxes f) k") (auto simp: boxes_ok_def)
  moreover have "boxes_ok (fk_nextID f + 1) (map_of (map_put k sb (fk_Sandboxes f)))"
    using boxes_ok_put [OF b _ assms(3) k(1)] by simp
  moreover have "snaps_ok (fk_nextID f + 1) (map_of (map_put k sb (fk_Sandboxes f))) (map_of (fk_Snapshots f))"
    by (rule snaps_ok_mono [OF s]) auto
  ultimately show ?thesis using assms(1) n by (simp add: fake_ok_def f')
qed

lemma fake_add_snap:
  assumes "fake_ok f" and "k = ''snap-'' @ Itoa (fk_nextID f + 1)" and "sn_ID sn = k"
    and "map_of (fk_Sandboxes f) (sn_SandboxID sn) \<noteq> None"
    and f': "fk_nextID f' = fk_nextID f + 1" "fk_Sandboxes f' = fk_Sandboxes f" "fk_Snapshots f' = map_put k sn (fk_Snapshots f)"
  shows "fake_ok f' \<and> map_of (fk_Snapshots f) k = None"
proof -
  have n: "0 \<le> fk_nextID f" "0 \<le> fk_nextID f + 1" using assms(1) by (simp_all add: fake_ok_def)
  have k: "numbered ''snap-'' (fk_nextID f + 1) k" "\<not> numbered ''snap-'' (fk_nextID f) k"
    unfolding assms(2) using n by (simp_all only: numbered_here numbered_fresh not_False_eq_True)
  have b: "boxes_ok (fk_nextID f) (map_of (fk_Sandboxes f))"
    and s: "snaps_ok (fk_nextID f) (map_of (fk_Sandboxes f)) (map_of (fk_Snapshots f))"
    using assms(1) by (simp_all add: fake_ok_def)
  have "map_of (fk_Snapshots f) k = None"
    using s k(2) by (cases "map_of (fk_Snapshots f) k") (auto simp: snaps_ok_def)
  moreover have "snaps_ok (fk_nextID f + 1) (map_of (fk_Sandboxes f)) (map_of (map_put k sn (fk_Snapshots f)))"
    using snaps_ok_put [OF s _ assms(3) k(1) assms(4)] by simp
  moreover have "boxes_ok (fk_nextID f + 1) (map_of (fk_Sandboxes f))" by (rule boxes_ok_mono [OF b]) simp
  ultimately show ?thesis using assms(1) n by (simp add: fake_ok_def f')
qed

lemma fake_Create_Inr:
  assumes "fake_Create now spec f = (Inr sb, f')" and "fake_ok f"
  shows "fake_ok f' \<and> map_of (fk_Sandboxes f) (sx_ID sb) = None \<and>
    map_of (fk_Sandboxes f') = (map_of (fk_Sandboxes f))(sx_ID sb \<mapsto> sb) \<and> fk_Snapshots f' = fk_Snapshots f \<and>
    (cs_Restore spec = [] \<or> map_of (fk_Snapshots f) (cs_Restore spec) \<noteq> None)"
proof -
  from assms(1) have sb: "sx_ID sb = ''sb-'' @ Itoa (fk_nextID f + 1)" "fk_nextID f' = fk_nextID f + 1"
    "fk_Sandboxes f' = map_put (sx_ID sb) sb (fk_Sandboxes f)" "fk_Snapshots f' = fk_Snapshots f"
    "cs_Restore spec = [] \<or> map_of (fk_Snapshots f) (cs_Restore spec) \<noteq> None"
    by (auto simp: fake_Create_def Let_def split: option.splits if_splits)
  from fake_add_box [OF assms(2) sb(1) refl sb(2-4)] sb show ?thesis by simp
qed

lemma fake_Create_Inl: "fake_Create now spec f = (Inl e, f') \<Longrightarrow> f' = f"
  by (auto simp: fake_Create_def Let_def split: option.splits if_splits)

lemma map_of_without_owner:
  assumes "wf_map m"
  shows "map_of (filter (\<lambda>(_, sn). sn_SandboxID sn \<noteq> i) m) = without_owner i (map_of m)"
proof -
  have "map_of (filter (\<lambda>(_, sn). sn_SandboxID sn \<noteq> i) m) k = without_owner i (map_of m) k" for k
    using assms
  proof (induction m)
    case (Cons p m)
    obtain k' sn where p: "p = (k', sn)" by (cases p)
    have "map_of m k' = None" using Cons.prems by (auto simp: wf_map_def p map_of_eq_None_iff)
    with Cons p show ?case by (auto simp: without_owner_def wf_map_def)
  qed (simp add: without_owner_def)
  then show ?thesis by blast
qed

lemma fake_Delete_ok:
  assumes "fake_Delete i f = (r, f')" and "fake_ok f"
  shows "fake_ok f' \<and> map_of (fk_Sandboxes f') = (map_of (fk_Sandboxes f))(i := None) \<and>
    map_of (fk_Snapshots f') = without_owner i (map_of (fk_Snapshots f))"
proof -
  from assms(1) have f': "fk_Sandboxes f' = map_del i (fk_Sandboxes f)" "fk_nextID f' = fk_nextID f"
    "fk_Snapshots f' = filter (\<lambda>(_, sn). sn_SandboxID sn \<noteq> i) (fk_Snapshots f)"
    by (auto simp: fake_Delete_def Let_def)
  have "wf_map (filter (\<lambda>(_, sn). sn_SandboxID sn \<noteq> i) (fk_Snapshots f))"
    using assms(2) by (simp add: fake_ok_def wf_map_def distinct_map_filter)
  with assms(2) show ?thesis by (simp add: f' fake_ok_def map_of_without_owner boxes_ok_del snaps_ok_delete)
qed

lemma fake_CreateSnapshot_ok:
  assumes "fake_CreateSnapshot i n f = (sr, f')" and "fake_ok f"
  shows "fake_ok f' \<and> fk_Sandboxes f' = fk_Sandboxes f \<and>
    (case sr of Inl e \<Rightarrow> fk_Snapshots f' = fk_Snapshots f
     | Inr sn \<Rightarrow> sn_SandboxID sn = i \<and> map_of (fk_Sandboxes f) i \<noteq> None \<and> map_of (fk_Snapshots f) (sn_ID sn) = None \<and>
         fk_Snapshots f' = map_put (sn_ID sn) sn (fk_Snapshots f))"
proof (cases "map_of (fk_Sandboxes f) i = None")
  case True
  with assms show ?thesis by (auto simp: fake_CreateSnapshot_def)
next
  case False
  then have "\<exists>sn. sr = Inr sn \<and> sn_ID sn = ''snap-'' @ Itoa (fk_nextID f + 1) \<and> sn_SandboxID sn = i \<and>
    fk_nextID f' = fk_nextID f + 1 \<and> fk_Sandboxes f' = fk_Sandboxes f \<and>
    fk_Snapshots f' = map_put (sn_ID sn) sn (fk_Snapshots f)"
    using assms(1) unfolding fake_CreateSnapshot_def Let_def if_not_P [OF False]
    by (cases "fk_SnapshotFails f") (simp_all, safe, simp_all)
  then obtain sn where sn: "sr = Inr sn" "sn_ID sn = ''snap-'' @ Itoa (fk_nextID f + 1)" "sn_SandboxID sn = i"
    "fk_nextID f' = fk_nextID f + 1" "fk_Sandboxes f' = fk_Sandboxes f"
    "fk_Snapshots f' = map_put (sn_ID sn) sn (fk_Snapshots f)" by blast
  from fake_add_snap [OF assms(2) sn(2) refl _ sn(4-6)] sn(1,3,5,6) False show ?thesis by simp
qed

lemma fake_Pause_ok:
  assumes "fake_Pause i f = (r, f')" and "fake_ok f"
  shows "fake_ok f' \<and> dom (map_of (fk_Sandboxes f')) = dom (map_of (fk_Sandboxes f)) \<and>
    fk_Snapshots f' = fk_Snapshots f"
proof (cases "map_of (fk_Sandboxes f) i")
  case None
  with assms show ?thesis by (simp add: fake_Pause_def)
next
  case (Some sb)
  let ?sb = "sb\<lparr>sx_Phase := PhasePaused\<rparr>"
  from Some assms(1) have f': "fk_Sandboxes f' = map_put i ?sb (fk_Sandboxes f)" "fk_Snapshots f' = fk_Snapshots f"
    "fk_nextID f' = fk_nextID f" by (auto simp: fake_Pause_def)
  have "sx_ID ?sb = i \<and> numbered ''sb-'' (fk_nextID f) i" using assms(2) Some by (auto simp: fake_ok_def boxes_ok_def)
  then have "boxes_ok (fk_nextID f) (map_of (fk_Sandboxes f'))"
    using assms(2) unfolding f' by (auto simp: fake_ok_def intro!: boxes_ok_put)
  moreover have "snaps_ok (fk_nextID f) (map_of (fk_Sandboxes f')) (map_of (fk_Snapshots f'))"
    using assms(2) unfolding f' by (auto simp: fake_ok_def elim!: snaps_ok_mono)
  ultimately have "fake_ok f'" using assms(2) by (simp add: fake_ok_def f')
  with Some show ?thesis by (auto simp: f')
qed

section \<open>The interface on the fake\<close>

text \<open>The world of the tests: the in-process store, the host, and the fake platform.\<close>

record world = mworld +
  wd_fake :: fake

definition with_fake :: "(fake \<Rightarrow> 'r \<times> fake) \<Rightarrow> 'a world_scheme \<Rightarrow> 'r \<times> 'a world_scheme" where
  "with_fake g w = (case g (wd_fake w) of (r, f) \<Rightarrow> (r, w\<lparr>wd_fake := f\<rparr>))"

definition fake_client :: "'a world_scheme client" where
  "fake_client =
    \<lparr>cl_Create = (\<lambda>spec w. case time_Now (mw_host w) of (now, h) \<Rightarrow> with_fake (fake_Create now spec) (w\<lparr>mw_host := h\<rparr>)),
     cl_Get = (\<lambda>i. with_fake (fake_Get i)),
     cl_WaitReady = (\<lambda>i t. with_fake (fake_WaitReady i t)),
     cl_Delete = (\<lambda>i. with_fake (fake_Delete i)),
     cl_ExposePort = (\<lambda>i p. with_fake (fake_ExposePort i p)),
     cl_Keepalive = (\<lambda>i. with_fake (fake_Keepalive i)),
     cl_Pause = (\<lambda>i. with_fake (fake_Pause i)),
     cl_CreateSnapshot = (\<lambda>i n. with_fake (fake_CreateSnapshot i n)),
     cl_GetSnapshot = (\<lambda>k. with_fake (fake_GetSnapshot k)),
     cl_WaitSnapshot = (\<lambda>k t. with_fake (fake_WaitSnapshot k t)),
     cl_Exec = (\<lambda>sb sp. with_fake (fake_Exec sb sp)),
     cl_WriteFile = (\<lambda>sb p d. with_fake (fake_WriteFile sb p d)),
     cl_StartProcess = (\<lambda>sb sp. with_fake (fake_StartProcess sb sp)),
     cl_Logs = (\<lambda>sb pid. with_fake (fake_Logs sb pid)),
     cl_DialPTY = (\<lambda>sb opts. with_fake (fake_DialPTY sb opts))\<rparr>"

definition world_ok :: "'a world_scheme \<Rightarrow> bool" where
  "world_ok w \<longleftrightarrow> fake_ok (wd_fake w) \<and> mono (h_clock (mw_host w))"

definition fake_boxes :: "'a world_scheme \<Rightarrow> string \<Rightarrow> sandbox option" where
  "fake_boxes w = map_of (fk_Sandboxes (wd_fake w))"

definition fake_snaps :: "'a world_scheme \<Rightarrow> string \<Rightarrow> snapshot option" where
  "fake_snaps w = map_of (fk_Snapshots (wd_fake w))"

lemmas world_defs = fake_client_def with_fake_def world_ok_def fake_boxes_def fake_snaps_def time_Now_def

lemma fake_lookup_ID:
  assumes "fake_ok f"
  shows "map_of (fk_Sandboxes f) i = Some sb \<Longrightarrow> sx_ID sb = i"
    and "map_of (fk_Snapshots f) k = Some sn \<Longrightarrow> sn_ID sn = k"
  using assms by (auto simp: fake_ok_def boxes_ok_def snaps_ok_def)

text \<open>The operations inside a sandbox.\<close>

lemma fake_inside_ok:
  "fake_Exec sb sp f = (x, f') \<Longrightarrow> fake_ok f' = fake_ok f \<and> fk_Sandboxes f' = fk_Sandboxes f \<and> fk_Snapshots f' = fk_Snapshots f"
  "fake_WriteFile sb p d f = (r, f') \<Longrightarrow> fake_ok f' = fake_ok f \<and> fk_Sandboxes f' = fk_Sandboxes f \<and> fk_Snapshots f' = fk_Snapshots f"
  "fake_StartProcess sb sp f = (q, f') \<Longrightarrow> fake_ok f' = fake_ok f \<and> fk_Sandboxes f' = fk_Sandboxes f \<and> fk_Snapshots f' = fk_Snapshots f"
  by (auto simp: fake_Exec_def fake_WriteFile_def fake_StartProcess_def Let_def fake_ok_def)

lemma fake_WaitReady_ok:
  assumes "fake_ok f" and "map_of (fk_Sandboxes f) i \<noteq> None" and "fake_WaitReady i t f = ((sb, r), f')"
  shows "f' = f \<and> sx_ID sb = i"
  using assms fake_lookup_ID(1) [OF assms(1)] by (auto simp: fake_WaitReady_def fake_Get_def split: option.splits)

lemma fake_WaitSnapshot_ok:
  assumes "fake_ok f" and "fake_WaitSnapshot k t f = (sr, f')"
  shows "f' = f \<and> (\<forall>sn. sr = Inr sn \<longrightarrow> map_of (fk_Snapshots f) k = Some sn \<and> sn_ID sn = k)"
  using assms fake_lookup_ID(2) [OF assms(1)]
  by (auto simp: fake_WaitSnapshot_def fake_GetSnapshot_def split: option.splits if_splits)

interpretation fakes: platform fake_client world_ok fake_boxes fake_snaps
proof (unfold_locales, goal_cases)
  case (1 w spec sb w')
  then obtain f' where "fake_Create (h_clock (mw_host w) (h_now (mw_host w))) spec (wd_fake w) = (Inr sb, f')" "wd_fake w' = f'"
    "h_clock (mw_host w') = h_clock (mw_host w)"
    by (auto simp: world_defs split: prod.splits)
  with fake_Create_Inr [OF this(1)] 1(1) show ?case by (auto simp: world_defs)
next
  case (2 w spec e w')
  then show ?case by (auto simp: world_defs split: prod.splits dest!: fake_Create_Inl)
next
  case (3 w i t sb r w')
  then show ?case
    using fake_WaitReady_ok [of "wd_fake w" i t sb r] by (auto simp: world_defs split: prod.splits)
next
  case (4 w i r w')
  then show ?case
    using fake_Delete_ok [of i "wd_fake w"] by (auto simp: world_defs split: prod.splits)
next
  case (5 w sb sp x w')
  then show ?case using fake_inside_ok(1) [of sb sp "wd_fake w"] by (auto simp: world_defs split: prod.splits)
next
  case (6 w sb p d r w')
  then show ?case using fake_inside_ok(2) [of sb p d "wd_fake w"] by (auto simp: world_defs split: prod.splits)
next
  case (7 w sb sp q w')
  then show ?case using fake_inside_ok(3) [of sb sp "wd_fake w"] by (auto simp: world_defs split: prod.splits)
next
  case (8 w sb pid cs w')
  then show ?case by (auto simp: world_defs fake_Logs_def)
next
  case (9 w i n sr w')
  then show ?case
    using fake_CreateSnapshot_ok [of i n "wd_fake w" sr] by (auto simp: world_defs split: prod.splits sum.splits)
next
  case (10 w k t sr w')
  then show ?case
    using fake_WaitSnapshot_ok [of "wd_fake w" k t sr] by (auto simp: world_defs split: prod.splits)
next
  case (11 w i r w')
  then obtain f' where f': "fake_Pause i (wd_fake w) = (r, f')" "w' = w\<lparr>wd_fake := f'\<rparr>"
    by (auto simp: world_defs split: prod.splits)
  from fake_Pause_ok [OF f'(1)] 11(1) show ?case unfolding f'(2) by (simp add: world_defs)
next
  case (12 w k sn)
  then show ?case by (auto simp: world_defs fake_ok_def snaps_ok_def)
qed

section \<open>The script of results\<close>

text \<open>The candidates of the loop: prefixes of the line in the script.\<close>

lemma better_fold:
  "foldl (better_script line) (n, r) script = (n', r') \<Longrightarrow>
    n \<le> n' \<and> list_all (\<lambda>(p, _). HasPrefix line p \<longrightarrow> int (length p) \<le> n') script \<and>
    ((n', r') = (n, r) \<or> (\<exists>p. (p, r') \<in> set script \<and> HasPrefix line p \<and> n' = int (length p)))"
proof (induction script arbitrary: n r)
  case Nil
  then show ?case by simp
next
  case (Cons pr script)
  obtain p x where pr: "pr = (p, x)" by (cases pr)
  show ?case
  proof (cases "HasPrefix line p \<and> int (length p) > n")
    case True
    then have "better_script line (n, r) pr = (int (length p), x)" by (simp add: better_script_def pr)
    with Cons.prems have "foldl (better_script line) (int (length p), x) script = (n', r')" by simp
    from Cons.IH [OF this] True show ?thesis by (auto simp: pr)
  next
    case False
    then have "better_script line (n, r) pr = (n, r)" by (auto simp: better_script_def pr)
    with Cons.prems have "foldl (better_script line) (n, r) script = (n', r')" by simp
    from Cons.IH [OF this] False show ?thesis by (auto simp: pr)
  qed
qed

lemma script_result_spec:
  "(script_result script line = no_result \<and> list_all (\<lambda>(p, _). \<not> HasPrefix line p) script) \<or>
   (\<exists>p. (p, script_result script line) \<in> set script \<and> HasPrefix line p \<and>
      list_all (\<lambda>(q, _). HasPrefix line q \<longrightarrow> length q \<le> length p) script)"
proof -
  obtain n r where f: "foldl (better_script line) (-1, no_result) script = (n, r)" by fastforce
  with better_fold [OF f] show ?thesis by (auto simp: script_result_def list_all_iff) (smt (verit) of_nat_0_le_iff)+
qed

end
