(* ===== verification/Model_Recipe.thy ===== *)
theory Model_Recipe
  imports Detectors
begin

text \<open>
  \<open>internal/recipe/model.go\<close>: recipes and repairs from a language model. The model is a function from
  the two prompts and the world \<open>'w\<close> to its answer, absent when none is configured; decoding and
  encoding JSON and the order in which Go ranges over a map literal are parameters in a \<open>codec\<close>.
  Whatever these return, only validated commands leave this part of the program.
\<close>

type_synonym 'w llm = "string \<Rightarrow> string \<Rightarrow> 'w \<Rightarrow> string result \<times> 'w"

record codec =
  cd_yaml :: "string \<Rightarrow> recipe option"
  cd_manifest :: "string \<Rightarrow> manifest result"
  cd_recipe :: "string \<Rightarrow> recipe result"
  cd_cmds :: "string \<Rightarrow> string list result"
  cd_recipe_text :: "recipe \<Rightarrow> string"
  cd_package_text :: "packageJSON \<Rightarrow> string"
  cd_range :: "(string \<times> string) list \<Rightarrow> (string \<times> string) list"

section \<open>The prompts\<close>

definition inferSystem :: string where
  "inferSystem =
    (''You decide how to install and run a GitHub repository inside a Linux sandbox that has '' @
     ''git, Node 24 with npm and yarn, Python 3.14 with pip, and make installed (no Go, Rust, '' @
     ''Ruby, PHP, Docker or apt), with the repository cloned into the current directory. Reply '' @
     ''with ONE JSON object and nothing else:'' @
     [CHR 0x0A] @
     ''{\"kind\":\"web\"|\"terminal\",\"cwd\":\"\",\"install\":[\"...\"],\"start\":\"...\",\"port\":3000,\"env\":{\"KE'' @
     ''Y\":\"VALUE\"}}'' @
     [CHR 0x0A] @
     ''Rules: commands are single programs with arguments, no shell operators (no |, &&, ;, >, '' @
     ''$(...)), no sudo, curl or wget. Allowed programs: npm npx pnpm yarn bun node pip pip3 '' @
     ''python3 poetry uv make streamlit uvicorn gunicorn flask mkdocs. Servers must bind '' @
     ''0.0.0.0 (pass --host 0.0.0.0 or set HOST/PORT env). kind is \"web\" only if start '' @
     ''launches a server on port; otherwise \"terminal\" with start omitted. Prefer the '' @
     ''repository's own documented commands from the README.'')"

definition repairSystem :: string where
  "repairSystem =
    (''You fix a failing install step for a repository inside a Linux sandbox. Same command '' @
     ''rules: single programs with arguments, no shell operators, no sudo/curl/wget, allowed '' @
     ''programs only. Reply with ONLY a JSON array of strings.'')"

definition tail_bytes :: "string \<Rightarrow> nat \<Rightarrow> string" where
  "tail_bytes s n = (if length s \<le> n then s else drop (length s - n) s)"

definition nl :: string where
  "nl = [CHR 0x0A]"

definition manifestPrompt :: "codec \<Rightarrow> manifest \<Rightarrow> string" where
  "manifestPrompt cd m =
    ''Top-level files: '' @ Join (m_files m) '', '' @ nl @
    (case m_packageJSON m of None \<Rightarrow> [] | Some p \<Rightarrow> ''package.json: '' @ cd_package_text cd p @ nl) @
    concat (map (\<lambda>(name, body).
        if TrimSpace body \<noteq> []
        then nl @ ''--- '' @ name @ '' ---'' @ nl @ tail_bytes body 2000 @ nl else [])
      (cd_range cd
        [(''pyproject.toml'', m_pyProject m), (''requirements.txt'', m_requirements m), (''go.mod'', m_goMod m),
         (''Cargo.toml'', m_cargoToml m), (''Procfile'', m_procfile m), (''Dockerfile'', m_dockerfile m)])) @
    (if m_makeTargets m \<noteq> [] then ''Makefile targets: '' @ Join (m_makeTargets m) '', '' @ nl else []) @
    (if TrimSpace (m_readme m) \<noteq> []
     then nl @ ''--- README ---'' @ nl @ tail_bytes (m_readme m) 6000 @ nl else [])"

section \<open>The JSON of an answer\<close>

text \<open>
  \<open>jsonBlockRE\<close>: the first fence, the word json if it follows, white space, and everything up to the
  next fence. Neither the word nor white space can overlap a fence, so the match exists exactly when
  a second fence follows the first.
\<close>

definition fence :: string where
  "fence = ''```''"

definition json_block :: "string \<Rightarrow> string option" where
  "json_block s =
    (case Index s fence of
       None \<Rightarrow> None
     | Some i \<Rightarrow>
         let rest = dropWhile re_space (TrimPrefix (drop (i + 3) s) ''json'')
         in (case Index rest fence of None \<Rightarrow> None | Some j \<Rightarrow> Some (take j rest)))"

definition extractJSON :: "string \<Rightarrow> string" where
  "extractJSON s0 =
    (let s = TrimSpace (case json_block s0 of None \<Rightarrow> s0 | Some b \<Rightarrow> b)
     in case IndexAny s ''{['' of
          None \<Rightarrow> s
        | Some start \<Rightarrow>
            (case LastIndexAny s ''}]'' of
               None \<Rightarrow> s
             | Some end' \<Rightarrow> if end' < start then s else take (end' + 1 - start) (drop start s)))"

definition parseRecipeJSON :: "codec \<Rightarrow> string \<Rightarrow> recipe result" where
  "parseRecipeJSON cd reply =
    (case cd_recipe cd (extractJSON reply) of
       Inl e \<Rightarrow> Inl (Wrapf ''model reply is not a recipe'' e)
     | Inr r \<Rightarrow> Inr r)"

section \<open>Infer and Repair\<close>

definition Infer :: "codec \<Rightarrow> 'w llm option \<Rightarrow> manifest \<Rightarrow> 'w \<Rightarrow> recipe result \<times> 'w" where
  "Infer cd llm m w =
    (case llm of
       None \<Rightarrow> (Inl ErrNoMatch, w)
     | Some complete \<Rightarrow>
         (case complete inferSystem (manifestPrompt cd m) w of
            (Inl e, w') \<Rightarrow> (Inl e, w')
          | (Inr reply, w') \<Rightarrow>
              (case parseRecipeJSON cd reply of
                 Inl e \<Rightarrow> (Inl e, w')
               | Inr r0 \<Rightarrow>
                   let r = r0\<lparr>r_detector := ''model''\<rparr>
                   in case Validate r of
                        Some e \<Rightarrow> (Inl (Wrapf ''model recipe rejected'' e), w')
                      | None \<Rightarrow> (Inr r, w'))))"

text \<open>The loop that validates the commands of a repair.\<close>

fun check_commands :: "string list \<Rightarrow> error option" where
  "check_commands [] = None"
| "check_commands (c # cs) =
    (case validateCommand c of
       Some e \<Rightarrow> Some (Wrapf (''repair command '' @ Quote c) e)
     | None \<Rightarrow> check_commands cs)"

definition repair_prompt :: "codec \<Rightarrow> manifest \<Rightarrow> recipe \<Rightarrow> string \<Rightarrow> string \<Rightarrow> string" where
  "repair_prompt cd m r failed logTail =
    manifestPrompt cd m @ nl @ nl @ ''Current recipe:'' @ nl @ cd_recipe_text cd r @ nl @ nl @
    ''The command '' @ Quote failed @ '' failed. Last output:'' @ nl @ tail_bytes logTail 3000 @ nl @ nl @
    ''Return ONLY a JSON array of replacement install commands (strings), nothing else.''"

definition Repair ::
  "codec \<Rightarrow> 'w llm option \<Rightarrow> manifest \<Rightarrow> recipe \<Rightarrow> string \<Rightarrow> string \<Rightarrow> 'w \<Rightarrow> string list result \<times> 'w" where
  "Repair cd llm m r failed logTail w =
    (case llm of
       None \<Rightarrow> (Inl (Errorf ''no model configured''), w)
     | Some complete \<Rightarrow>
         (case complete repairSystem (repair_prompt cd m r failed logTail) w of
            (Inl e, w') \<Rightarrow> (Inl e, w')
          | (Inr reply, w') \<Rightarrow>
              (case cd_cmds cd (extractJSON reply) of
                 Inl e \<Rightarrow> (Inl (Wrapf ''repair reply is not a JSON array'' e), w')
               | Inr cmds \<Rightarrow>
                   if length cmds = 0 \<or> length cmds > 8
                   then (Inl (Errorf ''repair produced no usable commands''), w')
                   else (case check_commands cmds of
                           Some e \<Rightarrow> (Inl e, w')
                         | None \<Rightarrow> (Inr cmds, w')))))"

section \<open>Only validated commands\<close>

lemma check_commands_iff: "check_commands cs = None \<longleftrightarrow> list_all safe_command cs"
  by (induction cs) (simp_all add: option.case_eq_if flip: validateCommand_iff)

lemma Infer_recipe_ok: "Infer cd llm m w = (Inr r, w') \<Longrightarrow> recipe_ok r \<and> r_detector r = ''model''"
  by (auto simp: Infer_def Let_def simp flip: Validate_recipe_ok split: option.splits prod.splits sum.splits)

lemma Repair_safe:
  "Repair cd llm m r failed out w = (Inr cmds, w') \<Longrightarrow>
    cmds \<noteq> [] \<and> length cmds \<le> 8 \<and> list_all safe_command cmds"
  by (auto simp: Repair_def check_commands_iff split: option.splits prod.splits sum.splits if_splits)

lemma Repair_no_model: "Repair cd None m r failed out w = (Inl (Errorf ''no model configured''), w)"
  by (simp add: Repair_def)

section \<open>Finding the JSON value\<close>

lemma split_front:
  assumes "a @ b = x @ c # y" and "c \<notin> set a"
  shows "\<exists>x'. x = a @ x' \<and> b = x' @ c # y"
proof -
  from assms(1) consider us where "a = x @ us" "us @ b = c # y" | us where "a @ us = x" "b = us @ c # y"
    by (auto simp: append_eq_append_conv2)
  then show ?thesis
  proof cases
    case 1
    with assms(2) show ?thesis by (cases us) auto
  next
    case 2
    then show ?thesis by blast
  qed
qed

lemma split_back:
  assumes "a @ b = x @ c # y" and "c \<notin> set b"
  shows "\<exists>y'. y = y' @ b \<and> a = x @ c # y'"
proof -
  from assms(1) have "rev b @ rev a = rev y @ c # rev x" by (metis rev.simps(2) rev_append append_assoc append_Cons append_Nil)
  with split_front [of "rev b" "rev a" "rev y" c "rev x"] assms(2)
  obtain x' where "rev y = rev b @ x'" "rev a = x' @ c # rev x" by auto
  then have "y = rev x' @ b" "a = x @ c # rev x'"
    by (metis rev_append rev_rev_ident, metis append.assoc append_Cons append_Nil rev.simps(2) rev_append rev_rev_ident)
  then show ?thesis by blast
qed

lemma braces_not_space: "list_all (\<lambda>c. c \<notin> set space_bytes \<and> c \<noteq> CHR ''`'') ''{[}]''"
  by code_simp

text \<open>A value between its first and last bracket, with prose around it that has none of them.\<close>

lemma brackets_found:
  assumes o': "o' \<in> set ''{[''" and c: "c \<in> set ''}]''"
    and "set pre \<inter> set ''{['' = {}" and "set post \<inter> set ''}]'' = {}"
  shows "(let s = TrimSpace (pre @ (o' # body @ [c]) @ post)
     in case IndexAny s ''{['' of
          None \<Rightarrow> s
        | Some start \<Rightarrow>
            (case LastIndexAny s ''}]'' of
               None \<Rightarrow> s
             | Some end' \<Rightarrow> if end' < start then s else take (end' + 1 - start) (drop start s))) = o' # body @ [c]"
proof -
  let ?s = "pre @ (o' # body @ [c]) @ post"
  obtain es fs where t: "?s = concat es @ TrimSpace ?s @ concat fs" "set es \<subseteq> set space_runes"
    "set fs \<subseteq> set space_runes"
    using TrimSpace_split [of ?s] by blast
  have sp: "o' \<notin> set (concat es)" "c \<notin> set (concat fs)"
    using concat_space_bytes [OF t(2)] concat_space_bytes [OF t(3)] braces_not_space o' c
    by (auto simp: list_all_iff)
  have "concat es @ (TrimSpace ?s @ concat fs) = pre @ o' # (body @ [c] @ post)" using t(1) by simp
  from split_front [OF this sp(1)] obtain pre' where pre: "pre = concat es @ pre'"
    "TrimSpace ?s @ concat fs = (pre' @ o' # body) @ c # post" by auto
  from split_back [OF pre(2) sp(2)] obtain post' where post: "post = post' @ concat fs"
    "TrimSpace ?s = (pre' @ o' # body) @ c # post'" by blast
  let ?t = "pre' @ o' # body @ c # post'"
  have i: "IndexAny ?t ''{['' = Some (length pre')"
    using assms(3) o' by (intro IndexAny_app) (auto simp: pre)
  have l: "LastIndexAny ((pre' @ o' # body) @ c # post') ''}]'' = Some (length (pre' @ o' # body))"
    using assms(4) c by (intro LastIndexAny_app) (auto simp: post)
  have s: "TrimSpace ?s = ?t" using post(2) by simp
  show ?thesis unfolding Let_def s using i l by simp
qed

lemma Index_none: "c \<in> set p \<Longrightarrow> c \<notin> set s \<Longrightarrow> Index s p = None"
  by (auto simp: Index_None_iff sublist_def)

lemma json_block_plain: "CHR ''`'' \<notin> set s \<Longrightarrow> json_block s = None"
  by (simp add: json_block_def Index_none fence_def)

lemma Index_fence: "CHR ''`'' \<notin> set pre \<Longrightarrow> Index (pre @ fence @ s) fence = Some (length pre)"
  by (induction pre) (auto simp: HasPrefix_def fence_def)

lemma json_block_fence:
  assumes "CHR ''`'' \<notin> set pre" and "CHR ''`'' \<notin> set body" and "list_all re_space ws"
    and "body \<noteq> []" and "\<not> re_space (hd body)"
  shows "json_block (pre @ fence @ ''json'' @ ws @ body @ fence @ post) = Some body"
proof -
  let ?r = "''json'' @ ws @ body @ fence @ post"
  have d: "drop (length pre + 3) (pre @ fence @ ?r) = ?r" by (simp add: fence_def)
  have "dropWhile re_space (ws @ body @ fence @ post) = body @ fence @ post"
  proof -
    have w: "\<And>x. x \<in> set ws \<Longrightarrow> re_space x" using assms(3) by (simp add: list_all_iff)
    obtain b bs where "body = b # bs" using assms(4) by (cases body) auto
    with assms(5) w show ?thesis by (subst dropWhile_append2) simp_all
  qed
  moreover have "TrimPrefix ?r ''json'' = ws @ body @ fence @ post" by (rule TrimPrefix_app)
  ultimately show ?thesis
    unfolding json_block_def Index_fence [OF assms(1)] option.case d Let_def
    using Index_fence [OF assms(2)] by simp
qed

section \<open>The properties\<close>

text \<open>
  C17: Whatever the model answers and the decoder makes of it, a recipe that \<open>Infer\<close> returns passed
  \<open>Validate\<close> and is marked as the model's, and commands that \<open>Repair\<close> returns are one to eight, each
  running an allow-listed program with words that contain none of \<open>forbiddenTokens\<close>.
\<close>

theorem model_only_validated:
  "(case fst (Infer cd llm m w) of Inl _ \<Rightarrow> True | Inr r \<Rightarrow> Validate r = None \<and> r_detector r = ''model'') \<and>
   (case fst (Repair cd llm m r failed out w) of Inl _ \<Rightarrow> True
    | Inr cmds \<Rightarrow> cmds \<noteq> [] \<and> length cmds \<le> 8 \<and> list_all safe_command cmds)"
  using Infer_recipe_ok [of cd llm m w] Repair_safe [of cd llm m r failed out w]
  by (cases "Infer cd llm m w"; cases "Repair cd llm m r failed out w")
    (auto simp: Validate_recipe_ok split: sum.split)

text \<open>
  \<open>extractJSON\<close> finds an object or array in an answer that puts it in a fenced block after some
  prose, and in one that has it between prose without brackets.
\<close>

theorem extractJSON_found:
  assumes "o' \<in> set ''{[''" and "c \<in> set ''}]''" and "list_all (\<lambda>x. x \<noteq> CHR ''`'') (pre @ body @ post)"
    and "set post \<inter> set ''}]'' = {}" and "list_all re_space ws"
  shows "extractJSON (pre @ fence @ ''json'' @ ws @ (o' # body @ [c]) @ post @ fence @ rest) = o' # body @ [c] \<and>
    (set pre \<inter> set ''{['' = {} \<longrightarrow> extractJSON (pre @ (o' # body @ [c]) @ post) = o' # body @ [c])"
proof -
  let ?j = "o' # body @ [c]"
  have "list_all (\<lambda>c. \<not> re_space c) ''{[''" by code_simp
  then have os: "\<not> re_space o'" using assms(1) unfolding list_all_iff by blast
  have tick: "CHR ''`'' \<notin> set (?j @ post)" "CHR ''`'' \<notin> set pre"
    using assms(1-3) braces_not_space by (auto simp: list_all_iff)
  have "json_block (pre @ fence @ ''json'' @ ws @ (?j @ post) @ fence @ rest) = Some (?j @ post)"
    using tick os by (intro json_block_fence assms(5)) auto
  then have "extractJSON (pre @ fence @ ''json'' @ ws @ ?j @ post @ fence @ rest) = ?j"
    using brackets_found [OF assms(1,2), of "[]" post body] assms(4) by (simp add: extractJSON_def)
  moreover have "extractJSON (pre @ ?j @ post) = ?j" if "set pre \<inter> set ''{['' = {}"
    using json_block_plain [of "pre @ ?j @ post"] tick brackets_found [OF assms(1,2) that assms(4), of body]
    by (simp add: extractJSON_def)
  ultimately show ?thesis by blast
qed

theorem extractJSON_found_witness:
  "extractJSON (''Here: '' @ fence @ ''json'' @ nl @ ''{a}'' @ nl @ fence @ '' ok'') = ''{a}'' \<and>
   extractJSON (''Here: '' @ ''{a}'' @ nl) = ''{a}''"
proof -
  have "CHR ''{'' \<in> set ''{[''" "CHR ''}'' \<in> set ''}]''" "list_all (\<lambda>x. x \<noteq> CHR ''`'') (''Here: '' @ ''a'' @ nl)"
    "set nl \<inter> set ''}]'' = {}" "list_all re_space nl" "set ''Here: '' \<inter> set ''{['' = {}" by code_simp+
  with extractJSON_found [of "CHR ''{''" "CHR ''}''" "''Here: ''" "''a''" nl nl "'' ok''"] show ?thesis by simp
qed

end
