(* ===== verification/Builder.thy ===== *)
theory Builder
  imports Model_Recipe Probe Repo Platform Fanout
begin

text \<open>
  \<open>internal/builder/builder.go\<close>: the pipeline that turns a commit into a snapshot. The platform, the
  store, the language model, the clock and the decoders are parameters, gathered in \<open>builder\<close>. One
  execution is a function on a state that holds the world, the build of the run, its event log and the
  local variables that a deferred call reads; the stages return early with the arguments of \<open>fail\<close>.
  \<open>x_trace\<close> is a ghost: the calls made to the platform, in order.
\<close>

section \<open>Constants and records\<close>

definition Second :: time where "Second = 1000000000"
definition Minute :: time where "Minute = 60 * Second"
definition Millisecond :: time where "Millisecond = 1000000"

definition Size :: resources where
  "Size = \<lparr>rs_CPU = 1, rs_MemoryGB = 2, rs_DiskGB = 10\<rparr>"

definition readyTimeout :: time where "readyTimeout = 2 * Minute"
definition cloneTimeout :: time where "cloneTimeout = 5 * Minute"
definition installTimeout :: time where "installTimeout = 10 * Minute"
definition probeTimeout :: time where "probeTimeout = 90 * Second"
definition snapshotTimeout :: time where "snapshotTimeout = 5 * Minute"
definition buildTimeout :: time where "buildTimeout = 20 * Minute"

definition repoDir :: string where "repoDir = ''repo''"
definition InspectorFile :: string where "InspectorFile = ''inspect.py''"

record bevent =
  be_Type :: string
  be_TS :: time
  be_Phase :: string
  be_Line :: string
  be_Build :: build

definition log_event :: "time \<Rightarrow> string \<Rightarrow> string \<Rightarrow> bevent" where
  "log_event ts ph l = \<lparr>be_Type = ''log'', be_TS = ts, be_Phase = ph, be_Line = l, be_Build = no_build\<rparr>"

definition status_event :: "time \<Rightarrow> build \<Rightarrow> bevent" where
  "status_event ts b = \<lparr>be_Type = ''status'', be_TS = ts, be_Phase = [], be_Line = [], be_Build = b\<rparr>"

text \<open>
  The fields of \<open>Builder\<close>, and what it takes from the system: \<open>bd_Now\<close> is its own clock, \<open>bd_Clock\<close> is
  \<open>time.Now\<close>, and \<open>bd_Sleep\<close> is the \<open>select\<close> between a timer and the context, with the error of the
  context when that one won.
\<close>

record 'w builder =
  bd_Sandbox :: "'w client"
  bd_Store :: "'w store"
  bd_LLM :: "'w llm option"
  bd_ProbeTimeout :: time
  bd_Now :: "'w \<Rightarrow> time \<times> 'w"
  bd_Clock :: "'w \<Rightarrow> time \<times> 'w"
  bd_Sleep :: "time \<Rightarrow> 'w \<Rightarrow> error option \<times> 'w"
  bd_codec :: codec
  bd_Inspector :: string

datatype call =
    CallCreate createSpec | CallWaitReady string | CallDelete string | CallPause string
  | CallSnapshot string string | CallWaitSnapshot string
  | CallExec execSpec "int option" | CallWrite string | CallStart execSpec

record 'w bstate =
  x_world :: 'w
  x_build :: build
  x_log :: "bevent log"
  x_phase :: string
  x_runs :: "string list"
  x_sb :: sandbox
  x_made :: bool
  x_keep :: bool
  x_trace :: "call list"

text \<open>How a stage leaves the pipeline early; \<open>Diverged\<close> is a loop that used up its fuel.\<close>

datatype build_exit = Failed string string error | Panicked | Diverged

type_synonym ('w, 'a) stage = "('w bstate, build_exit, 'a) action"

section \<open>Primitive steps\<close>

definition with_world :: "('w \<Rightarrow> 'r \<times> 'w) \<Rightarrow> ('w, 'r) stage" where
  "with_world f s = (case f (x_world s) of (r, w) \<Rightarrow> (Inr r, s\<lparr>x_world := w\<rparr>))"

definition tell :: "call \<Rightarrow> ('w, unit) stage" where
  "tell c = modifyS (\<lambda>s. s\<lparr>x_trace := x_trace s @ [c]\<rparr>)"

definition emit_event :: "bevent \<Rightarrow> ('w, unit) stage" where
  "emit_event ev = modifyS (\<lambda>s. s\<lparr>x_log := Emit ev (x_log s)\<rparr>)"

definition set_phase :: "string \<Rightarrow> ('w, unit) stage" where
  "set_phase ph = modifyS (\<lambda>s. s\<lparr>x_phase := ph\<rparr>)"

definition update_build :: "(build \<Rightarrow> build) \<Rightarrow> ('w, unit) stage" where
  "update_build g = modifyS (\<lambda>s. s\<lparr>x_build := g (x_build s)\<rparr>)"

text \<open>\<open>logger.line\<close> and \<open>logger.Write\<close> for a given phase; the build's logger has its phase in the state.\<close>

definition emit_line :: "'w builder \<Rightarrow> string \<Rightarrow> string \<Rightarrow> ('w, unit) stage" where
  "emit_line D ph l = bindS (with_world (bd_Now D)) (\<lambda>ts. emit_event (log_event ts ph l))"

definition line :: "'w builder \<Rightarrow> string \<Rightarrow> ('w, unit) stage" where
  "line D l = bindS (getS x_phase) (\<lambda>ph. emit_line D ph l)"

fun emit_lines :: "'w builder \<Rightarrow> string \<Rightarrow> string list \<Rightarrow> ('w, unit) stage" where
  "emit_lines D ph [] = returnS ()"
| "emit_lines D ph (l # ls) =
    thenS (if TrimSpace l \<noteq> [] then emit_line D ph l else returnS ()) (emit_lines D ph ls)"

definition write_piece :: "'w builder \<Rightarrow> string \<Rightarrow> string \<Rightarrow> ('w, unit) stage" where
  "write_piece D ph p = emit_lines D ph (SplitByte (CHR 0x0A) (TrimRightByte (CHR 0x0A) p))"

fun write_pieces :: "'w builder \<Rightarrow> string \<Rightarrow> string list \<Rightarrow> ('w, unit) stage" where
  "write_pieces D ph [] = returnS ()"
| "write_pieces D ph (p # ps) = thenS (write_piece D ph p) (write_pieces D ph ps)"

text \<open>\<open>run.text\<close>: the log as it is stored.\<close>

definition event_text :: "bevent \<Rightarrow> string" where
  "event_text ev =
    (if be_Type ev = ''log''
     then (if be_Phase ev \<noteq> [] then ''['' @ be_Phase ev @ ''] '' else []) @ be_Line ev @ [CHR 0x0A]
     else [])"

definition run_text :: "bevent log \<Rightarrow> string" where
  "run_text l = concat (map event_text (Events l))"

definition set_status :: "'w builder \<Rightarrow> string \<Rightarrow> ('w, unit) stage" where
  "set_status D status =
    thenS (update_build (\<lambda>b. b\<lparr>b_Status := status\<rparr>))
     (bindS (getS x_build) (\<lambda>bld.
      bindS (with_world (so_UpdateBuild (bd_Store D) bld)) (\<lambda>(bld', _).
      bindS (with_world (bd_Now D)) (\<lambda>ts. emit_event (status_event ts bld')))))"

text \<open>The end of a run: the log is finished and the run leaves the map \<open>runs\<close>.\<close>

definition close_run :: "('w, unit) stage" where
  "close_run =
    thenS (modifyS (\<lambda>s. s\<lparr>x_log := Finish (x_log s)\<rparr>))
      (modifyS (\<lambda>s. s\<lparr>x_runs := removeAll (b_ID (x_build s)) (x_runs s)\<rparr>))"

definition fail :: "'w builder \<Rightarrow> string \<Rightarrow> string \<Rightarrow> error \<Rightarrow> ('w, unit) stage" where
  "fail D status ph err =
    thenS (set_phase ph)
    (thenS (line D (error_text err))
    (bindS (getS (\<lambda>s. run_text (x_log s))) (\<lambda>text.
     thenS (update_build (\<lambda>b. b\<lparr>b_Error := ph @ '': '' @ error_text err, b_Log := text\<rparr>))
    (thenS (set_status D status) close_run))))"

section \<open>Running commands\<close>

text \<open>A command goes to the trace with its exit code, or none when the call failed.\<close>

definition exit_code :: "execResult result \<Rightarrow> int option" where
  "exit_code r = (case r of Inl _ \<Rightarrow> None | Inr res \<Rightarrow> Some (er_ExitCode res))"

definition exec :: "'w builder \<Rightarrow> execSpec \<Rightarrow> ('w, string list \<times> execResult result) stage" where
  "exec D sp =
    bindS (getS x_sb) (\<lambda>sb.
    bindS (with_world (cl_Exec (bd_Sandbox D) sb sp)) (\<lambda>(pieces, r).
    thenS (tell (CallExec sp (exit_code r))) (returnS (pieces, r))))"

text \<open>The writer of a command: none, the build's logger, or the logger and a buffer (\<open>teeWriter\<close>).\<close>

definition exec_quiet :: "'w builder \<Rightarrow> execSpec \<Rightarrow> ('w, execResult result) stage" where
  "exec_quiet D sp = bindS (exec D sp) (\<lambda>(_, r). returnS r)"

definition exec_tee :: "'w builder \<Rightarrow> execSpec \<Rightarrow> ('w, string \<times> execResult result) stage" where
  "exec_tee D sp =
    bindS (exec D sp) (\<lambda>(pieces, r).
    bindS (getS x_phase) (\<lambda>ph. thenS (write_pieces D ph pieces) (returnS (concat pieces, r))))"

definition exec_logged :: "'w builder \<Rightarrow> execSpec \<Rightarrow> ('w, execResult result) stage" where
  "exec_logged D sp = bindS (exec_tee D sp) (\<lambda>(_, r). returnS r)"

definition plain_spec :: "string \<Rightarrow> string list \<Rightarrow> int \<Rightarrow> execSpec" where
  "plain_spec c args ms =
    \<lparr>ex_Command = c, ex_Args = args, ex_Cwd = [], ex_Env = [], ex_TimeoutMS = ms, ex_Stdin = []\<rparr>"

definition clone_spec :: "info \<Rightarrow> execSpec" where
  "clone_spec i =
    plain_spec ''git'' [''clone'', ''--depth'', ''1'', ''--branch'', in_DefaultBranch i, in_CloneURL i, repoDir]
      (cloneTimeout div Millisecond)"

definition inspect_spec :: execSpec where
  "inspect_spec = plain_spec ''python3'' [InspectorFile, repoDir] 30000"

definition which_spec :: "string \<Rightarrow> execSpec" where
  "which_spec prog = plain_spec ''sh'' [''-c'', ''command -v '' @ prog] 5000"

definition probe_spec :: execSpec where
  "probe_spec =
    plain_spec ''sh'' [''-c'', ''ss -ltnH 2>/dev/null || cat /proc/net/tcp /proc/net/tcp6 2>/dev/null''] 5000"

definition cwd :: "recipe \<Rightarrow> string" where
  "cwd r = (if r_cwd r \<noteq> [] then repoDir @ ''/'' @ TrimByte (CHR ''/'') (r_cwd r) else repoDir)"

text \<open>A command of a recipe, as \<open>install\<close> and \<open>startAndProbe\<close> run it.\<close>

definition recipe_spec :: "recipe \<Rightarrow> string \<Rightarrow> int \<Rightarrow> execSpec" where
  "recipe_spec rcp c ms =
    (case Split c of (env, prog, args) \<Rightarrow>
       \<lparr>ex_Command = prog, ex_Args = args, ex_Cwd = cwd rcp, ex_Env = EnvList rcp @ env,
        ex_TimeoutMS = ms, ex_Stdin = []\<rparr>)"

definition shortName :: "info \<Rightarrow> string" where
  "shortName i =
    (let s = ToLower (ref_Owner (in_Ref i) @ ''-'' @ ref_Name (in_Ref i));
         out = filter (\<lambda>c. c \<in> set lowers \<or> c \<in> set digits \<or> c = CHR ''-'') s;
         name = TrimByte (CHR ''-'') out;
         name' = (if length name > 36 then take 36 name else name)
     in TrimByte (CHR ''-'') name')"

text \<open>The slices of the commit and the identifier panic when these are too short.\<close>

definition golden_name :: "info \<Rightarrow> build \<Rightarrow> string option" where
  "golden_name i b =
    (if length (in_SHA i) < 7 \<or> length (b_ID b) < 6 then None
     else Some (''tl-'' @ shortName i @ ''-'' @ take 7 (in_SHA i) @ ''-'' @ take 6 (b_ID b)))"

section \<open>The stages\<close>

definition stage_sandbox :: "'w builder \<Rightarrow> info \<Rightarrow> ('w, unit) stage" where
  "stage_sandbox D i =
    thenS (set_phase ''sandbox'')
    (thenS (line D ''creating build sandbox'')
    (bindS (getS (\<lambda>s. golden_name i (x_build s))) (\<lambda>nm.
      case nm of
        None \<Rightarrow> throwS Panicked
      | Some name \<Rightarrow>
         let spec = \<lparr>cs_Name = name, cs_Restore = [], cs_Resources = Some Size,
               cs_Egress = \<lparr>eg_Mode = ''allow_list'', eg_AllowInternet = True\<rparr>,
               cs_Lifecycle = \<lparr>lc_IdleTimeoutSeconds = buildTimeout div Second, lc_MaxLifetimeSeconds = 0,
                 lc_OnIdle = ''pause''\<rparr>\<rparr>
         in thenS (tell (CallCreate spec))
           (bindS (with_world (cl_Create (bd_Sandbox D) spec)) (\<lambda>r.
            case r of
              Inl e \<Rightarrow> throwS (Failed BuildFailed ''sandbox'' e)
            | Inr sb \<Rightarrow>
               thenS (modifyS (\<lambda>s. s\<lparr>x_build := (x_build s)\<lparr>b_Golden := sx_ID sb\<rparr>, x_sb := sb,
                  x_made := True, x_keep := False\<rparr>))
              (thenS (tell (CallWaitReady (sx_ID sb)))
              (bindS (with_world (cl_WaitReady (bd_Sandbox D) (sx_ID sb) readyTimeout)) (\<lambda>(sb', err).
               thenS (modifyS (\<lambda>s. s\<lparr>x_sb := sb'\<rparr>))
                (case err of
                   Some e \<Rightarrow> throwS (Failed BuildFailed ''sandbox'' e)
                 | None \<Rightarrow> line D (''sandbox '' @ sx_ID sb' @ '' ready''))))))))))"

definition stage_clone :: "'w builder \<Rightarrow> info \<Rightarrow> ('w, unit) stage" where
  "stage_clone D i =
    thenS (set_phase ''clone'')
    (thenS (line D (''git clone --depth 1 --branch '' @ in_DefaultBranch i @ '' '' @ in_CloneURL i))
    (bindS (exec_logged D (clone_spec i)) (\<lambda>r.
      case r of
        Inl e \<Rightarrow> throwS (Failed BuildFailed ''clone'' e)
      | Inr res \<Rightarrow>
          if er_ExitCode res \<noteq> 0
          then throwS (Failed BuildFailed ''clone'' (Errorf (''git clone exited '' @ Itoa (er_ExitCode res))))
          else returnS ())))"

definition inspect :: "'w builder \<Rightarrow> ('w, manifest result) stage" where
  "inspect D =
    thenS (tell (CallWrite InspectorFile))
    (bindS (getS x_sb) (\<lambda>sb.
     bindS (with_world (cl_WriteFile (bd_Sandbox D) sb InspectorFile (bd_Inspector D))) (\<lambda>werr.
      case werr of
        Some e \<Rightarrow> returnS (Inl e)
      | None \<Rightarrow>
         bindS (exec_quiet D inspect_spec) (\<lambda>r.
          case r of
            Inl e \<Rightarrow> returnS (Inl e)
          | Inr res \<Rightarrow>
              if er_ExitCode res \<noteq> 0
              then returnS (Inl (Errorf (''inspector exited '' @ Itoa (er_ExitCode res) @ '': '' @ TrimSpace (er_Stderr res))))
              else (case cd_manifest (bd_codec D) (er_Stdout res) of
                      Inl e \<Rightarrow> returnS (Inl (Wrapf ''inspector output'' e))
                    | Inr m \<Rightarrow> returnS (Inr m))))))"

text \<open>The recipe of a manifest: a detector, or the model when none matched.\<close>

definition find_recipe :: "'w builder \<Rightarrow> manifest \<Rightarrow> ('w, recipe result) stage" where
  "find_recipe D m =
    (case Detect (cd_yaml (bd_codec D)) m of
       Inr r \<Rightarrow> returnS (Inr r)
     | Inl e \<Rightarrow>
         if errors_Is e ErrNoMatch
         then thenS (line D ''no detector matched; asking the model'')
                (with_world (Infer (bd_codec D) (bd_LLM D) m))
         else returnS (Inl e))"

definition stage_detect :: "'w builder \<Rightarrow> ('w, manifest \<times> recipe) stage" where
  "stage_detect D =
    thenS (set_phase ''detect'')
    (bindS (inspect D) (\<lambda>mr.
      case mr of
        Inl e \<Rightarrow> throwS (Failed BuildFailed ''detect'' e)
      | Inr m \<Rightarrow>
         bindS (find_recipe D m) (\<lambda>rr.
          case rr of
            Inl e \<Rightarrow> throwS (Failed BuildUnsupported ''detect''
                (Errorf (''could not work out how to run this repository: '' @ error_text e)))
          | Inr rcp \<Rightarrow>
             thenS (line D (''recipe from '' @ r_detector rcp @ '': install='' @ QuoteList (r_install rcp) @
                '' start='' @ Quote (r_start rcp) @ '' port='' @ Itoa (r_port rcp)))
            (thenS (update_build (\<lambda>b. b\<lparr>b_Recipe := Some rcp\<rparr>)) (returnS (m, rcp))))))"

text \<open>\<open>missingTools\<close>: the first program that is not on the path of the sandbox, or none.\<close>

fun missingTools :: "'w builder \<Rightarrow> string list \<Rightarrow> ('w, string) stage" where
  "missingTools D [] = returnS []"
| "missingTools D (c # cs) =
    (let prog = fst (snd (Split c))
     in if prog = [] then missingTools D cs
        else bindS (exec_quiet D (which_spec prog)) (\<lambda>r.
               case r of
                 Inr res \<Rightarrow> if er_ExitCode res \<noteq> 0 then returnS prog else missingTools D cs
               | Inl _ \<Rightarrow> missingTools D cs))"

definition not_available :: "string \<Rightarrow> error" where
  "not_available prog = Errorf (prog @ '' is not available in the sandbox image yet (it has Node and Python)'')"

text \<open>
  The loop of \<open>install\<close> over the commands from index \<open>i\<close>, with the number of repairs so far; it returns
  its error and the recipe as it leaves it. A repair replaces the commands from \<open>i\<close> on and stays at
  \<open>i\<close>, so the loop ends because there are at most two repairs.
\<close>

function install_loop ::
  "'w builder \<Rightarrow> manifest \<Rightarrow> time \<Rightarrow> nat \<Rightarrow> string list \<Rightarrow> nat \<Rightarrow> recipe \<Rightarrow> ('w, error option \<times> recipe) stage" where
  "install_loop D m deadline i cmds repairs rcp =
    (if \<not> i < length cmds then returnS (None, rcp)
     else let c = cmds ! i in
       thenS (line D (''$ '' @ c))
       (bindS (with_world (bd_Clock D)) (\<lambda>now.
         if deadline - now \<le> 0 then returnS (Some (Errorf ''install exceeded its time budget''), rcp)
         else bindS (exec_tee D (recipe_spec rcp c ((deadline - now) div Millisecond))) (\<lambda>(out, r).
           case r of
             Inl e \<Rightarrow> returnS (Some e, rcp)
           | Inr res \<Rightarrow>
               if er_ExitCode res = 0 then install_loop D m deadline (Suc i) cmds repairs rcp
               else if bd_LLM D = None \<or> repairs \<ge> 2
               then returnS (Some (Errorf (Quote c @ '' exited '' @ Itoa (er_ExitCode res))), rcp)
               else
                 thenS (line D (Quote c @ '' exited '' @ Itoa (er_ExitCode res) @ ''; asking the model for a fix ('' @
                          Itoa (int (Suc repairs)) @ ''/2)''))
                 (bindS (with_world (Repair (bd_codec D) (bd_LLM D) m rcp c out)) (\<lambda>f.
                   case f of
                     Inl fe \<Rightarrow> returnS (Some (Errorf (Quote c @ '' exited '' @ Itoa (er_ExitCode res) @
                         '' and repair failed: '' @ error_text fe)), rcp)
                   | Inr fixed \<Rightarrow>
                       (let cmds' = take i cmds @ fixed
                        in install_loop D m deadline i cmds' (Suc repairs) (rcp\<lparr>r_install := cmds'\<rparr>))))))))"
  by pat_completeness auto
termination
  by (relation "measures [\<lambda>(D, m, deadline, i, cmds, repairs, rcp). 2 - repairs,
      \<lambda>(D, m, deadline, i, cmds, repairs, rcp). length cmds - i]") auto

declare install_loop.simps [simp del]

definition install :: "'w builder \<Rightarrow> recipe \<Rightarrow> manifest \<Rightarrow> ('w, error option \<times> recipe) stage" where
  "install D rcp m =
    bindS (with_world (bd_Clock D)) (\<lambda>now.
      install_loop D m (now + installTimeout) 0 (r_install rcp) 0 rcp)"

definition stage_install :: "'w builder \<Rightarrow> manifest \<Rightarrow> recipe \<Rightarrow> ('w, recipe) stage" where
  "stage_install D m rcp =
    thenS (set_phase ''install'')
    (bindS (missingTools D (r_install rcp)) (\<lambda>missing.
      if missing \<noteq> [] then throwS (Failed BuildUnsupported ''install'' (not_available missing))
      else bindS (install D rcp m) (\<lambda>(err, rcp').
        case err of
          Some e \<Rightarrow> throwS (Failed BuildFailed ''install'' e)
        | None \<Rightarrow> returnS rcp')))"

text \<open>The pieces of the server's output that have arrived go to the log with the phase \<open>app\<close>.\<close>

definition app_logs :: "'w builder \<Rightarrow> string \<Rightarrow> ('w, unit) stage" where
  "app_logs D pid =
    bindS (getS x_sb) (\<lambda>sb.
    bindS (with_world (cl_Logs (bd_Sandbox D) sb pid)) (\<lambda>pieces. write_pieces D ''app'' pieces))"

definition probe_pause :: "'w builder \<Rightarrow> time" where
  "probe_pause D = min (2 * Second) (bd_ProbeTimeout D div 4 + Millisecond)"

text \<open>The loop of \<open>startAndProbe\<close>, with fuel for its turns: it ends by the clock only.\<close>

fun probe_loop ::
  "nat \<Rightarrow> 'w builder \<Rightarrow> int \<Rightarrow> string \<Rightarrow> time \<Rightarrow> bool \<Rightarrow> ('w, (string \<times> int) result) stage" where
  "probe_loop 0 D hint pid deadline settle = throwS Diverged"
| "probe_loop (Suc n) D hint pid deadline settle =
    thenS (app_logs D pid)
    (bindS (exec_quiet D probe_spec) (\<lambda>r.
      case r of
        Inl e \<Rightarrow> returnS (Inl e)
      | Inr res \<Rightarrow>
          let port = ChoosePort hint (ParseListening (er_Stdout res))
          in if port > 0 \<and> (port = hint \<or> settle) then returnS (Inr (KindWeb, port))
             else bindS (with_world (bd_Clock D)) (\<lambda>now.
               if now > deadline then returnS (Inr (KindTerminal, 0))
               else bindS (with_world (bd_Sleep D (probe_pause D))) (\<lambda>err.
                 case err of
                   Some e \<Rightarrow> returnS (Inl e)
                 | None \<Rightarrow> probe_loop n D hint pid deadline (settle \<or> port > 0)))))"

definition startAndProbe :: "nat \<Rightarrow> 'w builder \<Rightarrow> recipe \<Rightarrow> ('w, (string \<times> int) result) stage" where
  "startAndProbe fuel D rcp =
    (if r_start rcp = [] then returnS (Inr (KindTerminal, 0))
     else
       let sp = recipe_spec rcp (r_start rcp) 0
       in thenS (line D (''$ '' @ r_start rcp))
         (thenS (tell (CallStart sp))
         (bindS (getS x_sb) (\<lambda>sb.
          bindS (with_world (cl_StartProcess (bd_Sandbox D) sb sp)) (\<lambda>p.
            case p of
              Inl e \<Rightarrow> returnS (Inl e)
            | Inr proc \<Rightarrow>
                bindS (with_world (bd_Clock D)) (\<lambda>now.
                  probe_loop fuel D (r_port rcp) (pr_ID proc) (now + bd_ProbeTimeout D) False))))))"

definition stage_start :: "nat \<Rightarrow> 'w builder \<Rightarrow> recipe \<Rightarrow> ('w, string \<times> int) stage" where
  "stage_start fuel D rcp =
    thenS (set_phase ''start'')
    (bindS (if r_start rcp \<noteq> [] then missingTools D [r_start rcp] else returnS []) (\<lambda>missing.
      if missing \<noteq> [] then throwS (Failed BuildUnsupported ''start'' (not_available missing))
      else bindS (startAndProbe fuel D rcp) (\<lambda>kp.
        case kp of
          Inl e \<Rightarrow> throwS (Failed BuildFailed ''start'' e)
        | Inr (kind, port) \<Rightarrow>
            thenS (line D (if kind = KindWeb then ''listening on port '' @ Itoa port
                           else ''nothing listening; visitors get a terminal in the installed repo''))
              (returnS (kind, port)))))"

definition stage_snapshot :: "'w builder \<Rightarrow> info \<Rightarrow> ('w, snapshot) stage" where
  "stage_snapshot D i =
    thenS (set_phase ''snapshot'')
    (thenS (line D ''snapshotting the running sandbox'')
    (bindS (getS (\<lambda>s. (golden_name i (x_build s), sx_ID (x_sb s)))) (\<lambda>(nm, sid).
      case nm of
        None \<Rightarrow> throwS Panicked
      | Some name \<Rightarrow>
         thenS (tell (CallSnapshot sid name))
         (bindS (with_world (cl_CreateSnapshot (bd_Sandbox D) sid name)) (\<lambda>r.
          case r of
            Inl e \<Rightarrow> throwS (Failed BuildFailed ''snapshot'' e)
          | Inr sn0 \<Rightarrow>
             thenS (tell (CallWaitSnapshot (sn_ID sn0)))
             (bindS (with_world (cl_WaitSnapshot (bd_Sandbox D) (sn_ID sn0) snapshotTimeout)) (\<lambda>r'.
              case r' of
                Inl e \<Rightarrow> throwS (Failed BuildFailed ''snapshot'' e)
              | Inr sn \<Rightarrow>
                 thenS (line D (''snapshot '' @ sn_ID sn @ '' ready ('' @ Itoa (sn_SizeBytes sn div 2 ^ 20) @ '' MB)''))
                 (thenS (tell (CallPause sid))
                 (thenS (with_world (cl_Pause (bd_Sandbox D) sid))
                 (thenS (modifyS (\<lambda>s. s\<lparr>x_keep := True\<rparr>)) (returnS sn)))))))))))"

text \<open>The end of \<open>execute\<close> when every stage went well.\<close>

definition record_ready :: "'w builder \<Rightarrow> recipe \<Rightarrow> string \<Rightarrow> int \<Rightarrow> string \<Rightarrow> ('w, unit) stage" where
  "record_ready D rcp kind port snap =
    bindS (with_world (bd_Now D)) (\<lambda>now.
    bindS (getS (\<lambda>s. run_text (x_log s))) (\<lambda>text.
     thenS (update_build (\<lambda>b. b\<lparr>b_Recipe := Some (rcp\<lparr>r_kind := kind, r_port := port\<rparr>), b_Kind := kind,
        b_Port := port, b_SnapshotID := snap, b_BuiltAt := Some now, b_Log := text\<rparr>))
    (thenS (set_status D BuildReady) close_run)))"

definition pipeline :: "nat \<Rightarrow> 'w builder \<Rightarrow> info \<Rightarrow> ('w, unit) stage" where
  "pipeline fuel D i =
    thenS (set_status D BuildBuilding)
    (thenS (stage_sandbox D i)
    (thenS (stage_clone D i)
    (bindS (stage_detect D) (\<lambda>(m, rcp0).
     bindS (stage_install D m rcp0) (\<lambda>rcp.
     bindS (stage_start fuel D rcp) (\<lambda>(kind, port).
     bindS (stage_snapshot D i) (\<lambda>sn. record_ready D rcp kind port (sn_ID sn))))))))"

text \<open>The deferred deletion of the build sandbox; an error is only logged.\<close>

definition delete_unkept :: "'w builder \<Rightarrow> ('w, unit) stage" where
  "delete_unkept D =
    bindS (getS (\<lambda>s. (x_made s \<and> \<not> x_keep s, sx_ID (x_sb s)))) (\<lambda>(del, sid).
      if del then thenS (tell (CallDelete sid)) (thenS (with_world (cl_Delete (bd_Sandbox D) sid)) (returnS ()))
      else returnS ())"

text \<open>How an execution ended: normally (the build may have failed), by a panic, or not at all.\<close>

datatype outcome = Returned | Crashed | Running

definition execute :: "nat \<Rightarrow> 'w builder \<Rightarrow> info \<Rightarrow> 'w bstate \<Rightarrow> outcome \<times> 'w bstate" where
  "execute fuel D i s =
    (case pipeline fuel D i s of
       (Inr _, s1) \<Rightarrow> (Returned, snd (delete_unkept D s1))
     | (Inl (Failed status ph err), s1) \<Rightarrow> (Returned, snd (delete_unkept D (snd (fail D status ph err s1))))
     | (Inl Panicked, s1) \<Rightarrow> (Crashed, snd (delete_unkept D s1))
     | (Inl Diverged, s1) \<Rightarrow> (Running, s1))"

text \<open>The state in which \<open>start\<close> launches an execution.\<close>

definition start_state :: "'w \<Rightarrow> build \<Rightarrow> string list \<Rightarrow> 'w bstate" where
  "start_state w b runs =
    \<lparr>x_world = w, x_build = b, x_log = New, x_phase = [], x_runs = runs @ [b_ID b], x_sb = no_sandbox,
     x_made = False, x_keep = False, x_trace = []\<rparr>"

end
