(* ===== verification/Builder_Safety.thy ===== *)
theory Builder_Safety
  imports Builder
begin

text \<open>
  What a build runs. A locale states what a predicate on the states of an execution must survive for the
  stages to keep it, and proves this once for every stage; the safety of the calls and the accounting
  of sandboxes are instances. The recipe, wherever it comes from, only holds validated commands, and the one
  that a ready build stores is the one whose commands the trace shows.
\<close>

section \<open>Safe calls\<close>

text \<open>A command line that a recipe may run: an allow-listed program, and no word holds one of \<open>forbiddenTokens\<close>.\<close>

definition program_ok :: "execSpec \<Rightarrow> bool" where
  "program_ok sp \<longleftrightarrow>
    ex_Command sp \<in> set allowedPrograms \<and> list_all token_free (ex_Command sp # ex_Args sp)"

text \<open>The commands that the builder itself runs.\<close>

definition fixed_specs :: "info \<Rightarrow> execSpec list" where
  "fixed_specs i = [clone_spec i, inspect_spec, probe_spec] @ map which_spec allowedPrograms"

fun call_safe :: "info \<Rightarrow> call \<Rightarrow> bool" where
  "call_safe i (CallExec sp code) = (sp \<in> set (fixed_specs i) \<or> program_ok sp)"
| "call_safe i (CallStart sp) = program_ok sp"
| "call_safe i (CallCreate spec) = (cs_Restore spec = [] \<and> cs_Resources spec = Some Size)"
| "call_safe i (CallWrite path) = (path = InspectorFile)"
| "call_safe i _ = True"

lemma recipe_spec_ok: "safe_command c \<Longrightarrow> program_ok (recipe_spec rcp c ms)"
proof -
  assume "safe_command c"
  then have "policy.runnable (Split c)" using policy.check_runnable [of c] by (simp add: validateCommand_iff)
  then show ?thesis
    by (cases "Split c") (simp add: recipe_spec_def program_ok_def policy.runnable_def allowed_program_def)
qed

lemma which_spec_ok: "safe_command c \<Longrightarrow> which_spec (fst (snd (Split c))) \<in> set (fixed_specs i)"
  by (simp add: safe_command_def fixed_specs_def)

section \<open>The commands of recipes\<close>

text \<open>The recipe of a build passed \<open>Validate\<close>, from a detector or from the model.\<close>

definition found_ok :: "recipe result \<Rightarrow> bool" where
  "found_ok r = (case r of Inl _ \<Rightarrow> True | Inr x \<Rightarrow> recipe_ok x)"

text \<open>The commands of the recipe after the repairs.\<close>

definition install_ok :: "recipe \<Rightarrow> error option \<times> recipe \<Rightarrow> bool" where
  "install_ok rcp er \<longleftrightarrow>
    list_all safe_command (r_install (snd er)) \<and> r_start (snd er) = r_start rcp"

definition fixed_ok :: "string list result \<Rightarrow> bool" where
  "fixed_ok r = (case r of Inl _ \<Rightarrow> True | Inr cmds \<Rightarrow> list_all safe_command cmds)"

text \<open>What the stages after the detection rely on, and keep.\<close>

definition commands_ok :: "recipe \<Rightarrow> bool" where
  "commands_ok r \<longleftrightarrow>
    list_all safe_command (r_install r) \<and> (r_start r = [] \<or> safe_command (r_start r))"

text \<open>What the probe finds: a port that is not reserved for a web app, or none for a terminal.\<close>

definition kind_port_ok :: "string \<times> int \<Rightarrow> bool" where
  "kind_port_ok kp \<longleftrightarrow>
    (fst kp = KindWeb \<and> 0 < snd kp \<and> snd kp \<notin> set reservedPorts) \<or> (fst kp = KindTerminal \<and> snd kp = 0)"

definition probe_ok :: "(string \<times> int) result \<Rightarrow> bool" where
  "probe_ok r = (case r of Inl _ \<Rightarrow> True | Inr kp \<Rightarrow> kind_port_ok kp)"

section \<open>The invariants of an execution\<close>

definition wstep :: "('w bstate \<Rightarrow> bool) \<Rightarrow> ('w \<Rightarrow> 'r \<times> 'w) \<Rightarrow> bool" where
  "wstep I f \<longleftrightarrow> (\<forall>s. I s \<longrightarrow> I (s\<lparr>x_world := snd (f (x_world s))\<rparr>))"

text \<open>The fields of a build that no stage but the first one changes.\<close>

definition same_build :: "build \<Rightarrow> build \<Rightarrow> bool" where
  "same_build b b' \<longleftrightarrow> b_ID b' = b_ID b \<and> b_Golden b' = b_Golden b"

text \<open>
  A predicate that survives a change of the log, the phase and the record of the build, a safe call on
  the trace, and what the operations inside a sandbox and of the store do to the world.
\<close>

locale step_inv =
  fixes D :: "'w builder" and i :: info and I :: "'w bstate \<Rightarrow> bool"
  assumes on_log: "I s \<Longrightarrow> I (s\<lparr>x_log := l\<rparr>)"
    and on_phase: "I s \<Longrightarrow> I (s\<lparr>x_phase := ph\<rparr>)"
    and on_build: "I s \<Longrightarrow> same_build (x_build s) b \<Longrightarrow> I (s\<lparr>x_build := b\<rparr>)"
    and on_runs: "I s \<Longrightarrow> I (s\<lparr>x_runs := rs\<rparr>)"
    and on_call: "I s \<Longrightarrow> call_safe i c \<Longrightarrow> I (s\<lparr>x_trace := x_trace s @ [c]\<rparr>)"
    and on_now: "wstep I (bd_Now D)"
    and on_clock: "wstep I (bd_Clock D)"
    and on_sleep: "wstep I (bd_Sleep D t)"
    and on_llm: "bd_LLM D = Some f \<Longrightarrow> wstep I (f sys usr)"
    and on_update: "wstep I (so_UpdateBuild (bd_Store D) b)"
    and on_exec: "wstep I (cl_Exec (bd_Sandbox D) sb sp)"
    and on_write: "wstep I (cl_WriteFile (bd_Sandbox D) sb path bytes)"
    and on_start: "wstep I (cl_StartProcess (bd_Sandbox D) sb sp)"
    and on_logs: "wstep I (cl_Logs (bd_Sandbox D) sb pid)"
begin

lemma keeps_world [keep]: "wstep I f \<Longrightarrow> keeps I (with_world f)"
  by (simp add: keeps_def wstep_def with_world_def case_prod_beta)

lemmas wsteps = on_now on_clock on_sleep on_update on_exec on_write on_start on_logs

lemma keeps_emit_event [keep]: "keeps I (emit_event ev)"
  unfolding emit_event_def by (rule keeps_modify) (rule on_log)

lemma keeps_set_phase [keep]: "keeps I (set_phase ph)"
  unfolding set_phase_def by (rule keeps_modify) (rule on_phase)

lemma keeps_update_build [keep]: "(\<And>b. same_build b (g b)) \<Longrightarrow> keeps I (update_build g)"
  unfolding update_build_def by (rule keeps_modify) (rule on_build)

lemma keeps_tell [keep]: "call_safe i c \<Longrightarrow> keeps I (tell c)"
  unfolding tell_def by (rule keeps_modify) (rule on_call)

lemma keeps_emit_line [keep]: "keeps I (emit_line D ph l)"
  unfolding emit_line_def by (intro keep wsteps)

lemma keeps_line [keep]: "keeps I (line D l)"
  unfolding line_def by (intro keep wsteps)

lemma keeps_emit_lines [keep]: "keeps I (emit_lines D ph ls)"
proof (induction ls)
  case (Cons l ls)
  then show ?case unfolding emit_lines.simps by (intro keep)
qed (simp add: keeps_return)

lemma keeps_write_piece [keep]: "keeps I (write_piece D ph p)"
  unfolding write_piece_def by (intro keep)

lemma keeps_write_pieces [keep]: "keeps I (write_pieces D ph ps)"
  by (induction ps) (simp_all add: keeps_return keeps_then keeps_write_piece)

lemma keeps_set_status [keep]: "keeps I (set_status D st)"
  unfolding set_status_def by (intro keep wsteps) (simp add: same_build_def)

lemma keeps_close_run [keep]: "keeps I close_run"
  unfolding close_run_def by (intro keep keeps_modify on_log on_runs)

lemma keeps_fail [keep]: "keeps I (fail D st ph e)"
  unfolding fail_def by (intro keep wsteps) (simp add: same_build_def)

lemma keeps_exec [keep]: "sp \<in> set (fixed_specs i) \<or> program_ok sp \<Longrightarrow> keeps I (exec D sp)"
  unfolding exec_def by (intro keep wsteps) simp

lemma keeps_exec_quiet [keep]: "sp \<in> set (fixed_specs i) \<or> program_ok sp \<Longrightarrow> keeps I (exec_quiet D sp)"
  unfolding exec_quiet_def by (intro keep)

lemma keeps_exec_tee [keep]: "sp \<in> set (fixed_specs i) \<or> program_ok sp \<Longrightarrow> keeps I (exec_tee D sp)"
  unfolding exec_tee_def by (intro keep)

lemma keeps_exec_logged [keep]: "sp \<in> set (fixed_specs i) \<or> program_ok sp \<Longrightarrow> keeps I (exec_logged D sp)"
  unfolding exec_logged_def by (intro keep)

lemma keeps_stage_clone: "keeps I (stage_clone D i)"
  unfolding stage_clone_def by (intro keep wsteps) (simp add: fixed_specs_def)

lemma keeps_inspect: "keeps I (inspect D)"
  unfolding inspect_def by (intro keep wsteps) (simp_all add: fixed_specs_def)

lemma keeps_missingTools: "list_all safe_command cs \<Longrightarrow> keeps I (missingTools D cs)"
proof (induction cs)
  case (Cons c cs)
  then have "keeps I (missingTools D cs)" "which_spec (fst (snd (Split c))) \<in> set (fixed_specs i)"
    using which_spec_ok by auto
  then show ?case unfolding missingTools.simps by (intro keep disjI1)
qed (simp add: keeps_return)

lemma on_infer: "wstep I (Infer cd (bd_LLM D) m)"
proof (cases "bd_LLM D")
  case None
  then show ?thesis by (simp add: wstep_def Infer_def)
next
  case (Some f)
  have "snd (Infer cd (Some f) m w) = snd (f inferSystem (manifestPrompt cd m) w)" for w
    by (simp add: Infer_def Let_def split: prod.split sum.split option.split)
  with on_llm [OF Some] show ?thesis by (simp add: wstep_def Some)
qed

lemma on_repair: "wstep I (Repair cd (bd_LLM D) m r failed out)"
proof (cases "bd_LLM D")
  case None
  then show ?thesis by (simp add: wstep_def Repair_def)
next
  case (Some f)
  have "snd (Repair cd (Some f) m r failed out w) = snd (f repairSystem (repair_prompt cd m r failed out) w)" for w
    by (simp add: Repair_def split: prod.split sum.split option.split)
  with on_llm [OF Some] show ?thesis by (simp add: wstep_def Some)
qed

lemma valid_world: "wstep I f \<Longrightarrow> (\<And>w. R (fst (f w))) \<Longrightarrow> valid I (with_world f) (\<lambda>r s. I s \<and> R r) (\<lambda>_. I)"
  by (simp add: valid_def wstep_def with_world_def case_prod_beta)

lemma valid_find_recipe: "valid I (find_recipe D m) (\<lambda>r s. I s \<and> found_ok r) (\<lambda>_. I)"
proof -
  have det: "found_ok (Detect yaml m)" for yaml
    using run_detectors_valid [of "detectors yaml" m] by (auto simp: found_ok_def Detect_def split: sum.split)
  have inf: "found_ok (fst (Infer cd llm m w))" for cd and llm :: "'w llm option" and w
    using Infer_recipe_ok [of cd llm m w] by (cases "Infer cd llm m w") (auto simp: found_ok_def split: sum.split)
  show ?thesis
    unfolding find_recipe_def
    by (intro valid_case_sum valid_if valid_keeps_then keep valid_world on_infer inf valid_return_I)
      (use det [of "cd_yaml (bd_codec D)"] in \<open>auto simp: found_ok_def split: sum.splits\<close>)
qed

lemma valid_stage_detect: "valid I (stage_detect D) (\<lambda>mr s. I s \<and> recipe_ok (snd mr)) (\<lambda>_. I)"
  unfolding stage_detect_def
  apply (rule valid_keeps_then, rule keep)
  apply (rule valid_keeps_bind [OF keeps_inspect])
  apply (rule valid_case_sum, rule valid_throw_I)
  apply (rule valid_bind_values [OF valid_find_recipe])
  apply (rule valid_case_sum, rule valid_throw_I)
  apply (intro valid_keeps_then keep)
   apply (simp add: same_build_def)
  apply (rule valid_return_I)
  apply (simp add: found_ok_def)
  done

lemma list_all_take: "list_all P xs \<Longrightarrow> list_all P (take n xs)"
  by (auto simp: list_all_iff dest: in_set_takeD)

lemma valid_repair:
  "valid I (with_world (Repair cd (bd_LLM D) m r c out)) (\<lambda>f s. I s \<and> fixed_ok f) (\<lambda>_. I)"
proof (rule valid_world [OF on_repair])
  fix w
  show "fixed_ok (fst (Repair cd (bd_LLM D) m r c out w))"
    using Repair_safe [of cd "bd_LLM D" m r c out w]
    by (cases "Repair cd (bd_LLM D) m r c out w") (auto simp: fixed_ok_def split: sum.split)
qed

lemma valid_install_loop:
  "D' = D \<Longrightarrow> list_all safe_command cmds \<Longrightarrow> list_all safe_command (r_install rcp) \<Longrightarrow> r_start rcp = r_start rcp0 \<Longrightarrow>
    valid I (install_loop D' m deadline k cmds repairs rcp) (\<lambda>er s. I s \<and> install_ok rcp0 er) (\<lambda>_. I)"
proof (induction D' m deadline k cmds repairs rcp rule: install_loop.induct)
  case (1 D' m deadline k cmds repairs rcp)
  have here: "install_ok rcp0 (e, rcp)" for e using 1 by (simp add: install_ok_def)
  show ?case
  proof (cases "k < length cmds")
    case False
    then show ?thesis by (subst install_loop.simps) (simp add: valid_return_I here)
  next
    case True
    then have c: "safe_command (cmds ! k)" using 1 by (simp add: list_all_iff)
    note stop = valid_return_I [where I = I and R = "install_ok rcp0", OF here]
    let ?goal = "\<lambda>k cmds n r. valid I (install_loop D m deadline k cmds n r) (\<lambda>er s. I s \<and> install_ok rcp0 er) (\<lambda>_. I)"
    have next_cmd: "?goal (Suc k) cmds repairs rcp" if "\<not> deadline - now \<le> 0" "er_ExitCode res = 0" for now and res :: execResult
      using 1(1) [OF _ refl that] True 1(3-6) by simp
    have repaired: "?goal k (take k cmds @ fixed) (Suc repairs) (rcp\<lparr>r_install := take k cmds @ fixed\<rparr>)"
      if "\<not> deadline - now \<le> 0" "er_ExitCode res \<noteq> 0" "\<not> (bd_LLM D = None \<or> repairs \<ge> 2)"
        "list_all safe_command fixed" for now and res :: execResult and fixed
    proof -
      have "list_all safe_command (take k cmds @ fixed)" using that(4) 1(4) by (simp add: list_all_take)
      then show ?thesis using 1(2) [OF _ refl that(1,2) _ refl, of fixed] that(3) True 1(3-6) by simp
    qed
    show ?thesis
      apply (subst install_loop.simps)
      apply (simp only: True not_True_eq_False if_False Let_def 1(3))
      apply (rule valid_keeps_then, rule keep)
      apply (rule valid_keeps_bind, intro keep wsteps)
      apply (rule valid_if, rule stop)
      apply (rule valid_keeps_bind, intro keep disjI2 recipe_spec_ok c)
      apply (simp only: split_beta)
      apply (rule valid_case_sum, rule stop)
      apply (rule valid_if, rule next_cmd, assumption+)
      apply (rule valid_if, rule stop)
      apply (rule valid_keeps_then, rule keep)
      apply (rule valid_bind_values [OF valid_repair])
      apply (rule valid_case_sum, rule stop)
      apply (rule repaired, assumption+)
      apply (simp add: fixed_ok_def)
      done
  qed
qed

lemma recipe_ok_commands: "recipe_ok r \<Longrightarrow> commands_ok r"
  by (auto simp: recipe_ok_def commands_ok_def)

lemma valid_stage_install:
  assumes "commands_ok rcp"
  shows "valid I (stage_install D m rcp) (\<lambda>r s. I s \<and> commands_ok r) (\<lambda>_. I)"
proof -
  have safe: "list_all safe_command (r_install rcp)" using assms by (simp add: commands_ok_def)
  have inst: "valid I (install D rcp m) (\<lambda>er s. I s \<and> install_ok rcp er) (\<lambda>_. I)"
    unfolding install_def
    by (rule valid_keeps_bind, intro keep wsteps) (rule valid_install_loop [OF refl safe safe refl])
  have fin: "commands_ok (snd er)" if "install_ok rcp er" for er
    using that assms by (simp add: install_ok_def commands_ok_def)
  show ?thesis
    unfolding stage_install_def
    apply (rule valid_keeps_then, rule keep)
    apply (rule valid_keeps_bind [OF keeps_missingTools [OF safe]])
    apply (rule valid_if, rule valid_throw_I)
    apply (rule valid_bind_values [OF inst])
    apply (simp only: split_beta)
    apply (rule valid_case_option)
     apply (rule valid_return_I, rule fin, assumption)
    apply (rule valid_throw_I)
    done
qed

lemma keeps_app_logs [keep]: "keeps I (app_logs D pid)"
  unfolding app_logs_def by (intro keep wsteps)

lemma valid_probe_loop:
  "valid I (probe_loop n D hint pid deadline settle) (\<lambda>r s. I s \<and> probe_ok r) (\<lambda>_. I)"
proof (induction n arbitrary: settle)
  case 0
  then show ?case by (simp add: valid_throw_I)
next
  case (Suc n)
  have sp: "probe_spec \<in> set (fixed_specs i)" by (simp add: fixed_specs_def)
  have web: "probe_ok (Inr (KindWeb, ChoosePort hint (ParseListening out)))"
    if "0 < ChoosePort hint (ParseListening out)" for out
    using that ChoosePort_reserved by (simp add: probe_ok_def kind_port_ok_def)
  have stop: "probe_ok (Inl e)" "probe_ok (Inr (KindTerminal, 0))" for e by (simp_all add: probe_ok_def kind_port_ok_def)
  note ret = valid_return_I [where I = I and R = probe_ok]
  show ?case
    unfolding probe_loop.simps Let_def
    apply (rule valid_keeps_then, intro keep)
    apply (rule valid_keeps_bind, intro keep disjI1 sp)
    apply (rule valid_case_sum, rule ret [OF stop(1)])
    apply (rule valid_if, rule ret [OF web], blast)
    apply (rule valid_keeps_bind, intro keep wsteps)
    apply (rule valid_if, rule ret [OF stop(2)])
    apply (rule valid_keeps_bind, intro keep wsteps)
    apply (rule valid_case_option, rule Suc, rule ret [OF stop(1)])
    done
qed

lemma valid_stage_start:
  assumes "commands_ok rcp"
  shows "valid I (stage_start fuel D rcp) (\<lambda>kp s. I s \<and> kind_port_ok kp) (\<lambda>_. I)"
proof -
  have stop: "probe_ok (Inl e)" "probe_ok (Inr (KindTerminal, 0))" for e by (simp_all add: probe_ok_def kind_port_ok_def)
  note ret = valid_return_I [where I = I and R = probe_ok]
  have start: "valid I (startAndProbe fuel D rcp) (\<lambda>r s. I s \<and> probe_ok r) (\<lambda>_. I)"
  proof (cases "r_start rcp = []")
    case True
    then show ?thesis by (simp add: startAndProbe_def ret stop)
  next
    case False
    with assms have sp: "program_ok (recipe_spec rcp (r_start rcp) 0)"
      by (intro recipe_spec_ok) (simp add: commands_ok_def)
    show ?thesis
      unfolding startAndProbe_def Let_def if_not_P [OF False]
      apply (rule valid_keeps_then, intro keep)
      apply (rule valid_keeps_then, intro keep, simp add: sp)
      apply (rule valid_keeps_bind, intro keep)
      apply (rule valid_keeps_bind, intro keep wsteps)
      apply (rule valid_case_sum, rule ret [OF stop(1)])
      apply (rule valid_keeps_bind, intro keep wsteps)
      apply (rule valid_probe_loop)
      done
  qed
  have missing: "keeps I (if r_start rcp \<noteq> [] then missingTools D [r_start rcp] else returnS [])"
    using assms by (intro keep keeps_missingTools) (simp add: commands_ok_def)
  show ?thesis
    unfolding stage_start_def
    apply (rule valid_keeps_then, intro keep)
    apply (rule valid_keeps_bind [OF missing])
    apply (rule valid_if, rule valid_throw_I)
    apply (rule valid_bind_values [OF start])
    apply (rule valid_case_sum, rule valid_throw_I)
    apply (simp only: split_beta)
    apply (rule valid_keeps_then, intro keep)
    apply (rule valid_return_I)
    apply (simp add: probe_ok_def kind_port_ok_def split_beta)
    done
qed

lemma keeps_stage_start: "commands_ok rcp \<Longrightarrow> keeps I (stage_start fuel D rcp)"
  unfolding keeps_valid by (rule valid_weaken [OF valid_stage_start]) simp_all

lemma keeps_record_ready: "keeps I (record_ready D rcp kind port snap)"
  unfolding record_ready_def by (intro keep wsteps) (simp add: same_build_def)

text \<open>Everything between the creation of the sandbox and the snapshot.\<close>

lemma valid_middle:
  assumes "\<And>m r. commands_ok r \<Longrightarrow> valid I (after m r) Q (\<lambda>_. I)"
  shows "valid I (thenS (stage_clone D i) (bindS (stage_detect D) (\<lambda>(m, rcp0).
    bindS (stage_install D m rcp0) (after m)))) Q (\<lambda>_. I)"
  apply (rule valid_keeps_then [OF keeps_stage_clone])
  apply (rule valid_bind_values [OF valid_stage_detect])
  apply (simp only: split_beta)
  apply (rule valid_bind_values [OF valid_stage_install [OF recipe_ok_commands]])
   apply assumption
  apply (rule assms, assumption)
  done

end

section \<open>Every call is safe\<close>

definition calls_safe :: "info \<Rightarrow> 'w bstate \<Rightarrow> bool" where
  "calls_safe i s \<longleftrightarrow> list_all (call_safe i) (x_trace s)"

interpretation calls: step_inv D i "calls_safe i" for D :: "'w builder" and i :: info
  by unfold_locales (simp_all add: calls_safe_def wstep_def)

lemma calls_world: "keeps (calls_safe i) (with_world f)"
  by (rule calls.keeps_world) (simp add: wstep_def calls_safe_def)

lemma calls_modify: "(\<And>s. x_trace (h s) = x_trace s) \<Longrightarrow> keeps (calls_safe i) (modifyS h)"
  by (rule keeps_modify) (simp add: calls_safe_def)

lemma calls_tell: "call_safe i c \<Longrightarrow> keeps (calls_safe i) (tell c)"
  by (rule calls.keeps_tell)

lemma calls_stage_sandbox: "keeps (calls_safe i) (stage_sandbox D i)"
  unfolding stage_sandbox_def
  by (intro keep calls.keeps_set_phase calls.keeps_line calls_world calls_modify calls_tell) simp_all

lemma calls_stage_snapshot: "keeps (calls_safe i) (stage_snapshot D i)"
  unfolding stage_snapshot_def
  by (intro keep calls.keeps_set_phase calls.keeps_line calls_world calls_modify calls_tell) simp_all

lemma calls_pipeline: "keeps (calls_safe i) (pipeline fuel D i)"
proof -
  have rest: "valid (calls_safe i) (bindS (stage_start fuel D r) (\<lambda>(kind, port).
      bindS (stage_snapshot D i) (\<lambda>sn. record_ready D r kind port (sn_ID sn)))) (\<lambda>_. calls_safe i) (\<lambda>_. calls_safe i)"
    if "commands_ok r" for r
    unfolding keeps_valid [symmetric]
    by (intro keep calls.keeps_stage_start that calls_stage_snapshot calls.keeps_record_ready)
  show ?thesis
    unfolding pipeline_def
    by (rule keeps_then [OF calls.keeps_set_status], rule keeps_then [OF calls_stage_sandbox])
      (simp only: keeps_valid, rule calls.valid_middle [OF rest])
qed

lemma calls_delete: "keeps (calls_safe i) (delete_unkept D)"
  unfolding delete_unkept_def by (intro keep calls_world calls_tell) simp

lemma execute_calls_safe: "calls_safe i s \<Longrightarrow> calls_safe i (snd (execute fuel D i s))"
proof -
  assume s: "calls_safe i s"
  obtain r s1 where p: "pipeline fuel D i s = (r, s1)" by (cases "pipeline fuel D i s")
  then have s1: "calls_safe i s1" using keepsD [OF calls_pipeline s, of fuel D] by simp
  show ?thesis
  proof (cases r)
    case (Inl x)
    then show ?thesis
      using p s1 keepsD [OF calls_delete s1, of D] keepsD [OF calls_delete keepsD [OF calls.keeps_fail s1]]
      by (cases x) (simp_all add: execute_def)
  next
    case (Inr u)
    then show ?thesis using p keepsD [OF calls_delete s1, of D] by (simp add: execute_def)
  qed
qed

text \<open>
  C1: Whatever the platform, the store, the model, the decoders and the clock do, every command that a
  build runs in the sandbox is one of the builder's own fixed commands, or an allow-listed program such that
  neither it nor any of its arguments contains one of the strings of \<open>forbiddenTokens\<close>; every server it starts
  is such a program, and every sandbox it asks for is a fresh one of the fixed size.
\<close>

theorem build_runs_only_safe_commands:
  "list_all (call_safe i) (x_trace (snd (execute fuel D i (start_state w b runs))))"
  using execute_calls_safe [of i "start_state w b runs" fuel D]
  by (simp add: calls_safe_def start_state_def)

section \<open>The end of an execution\<close>

lemmas monad_defs = bindS_def thenS_def returnS_def throwS_def modifyS_def getS_def

lemma set_status_result:
  "fst (set_status D st s) = Inr ()" "x_build (snd (set_status D st s)) = (x_build s)\<lparr>b_Status := st\<rparr>"
  "x_runs (snd (set_status D st s)) = x_runs s" "x_keep (snd (set_status D st s)) = x_keep s"
  "lg_done (x_log (snd (set_status D st s))) = lg_done (x_log s)"
  by (simp_all add: set_status_def update_build_def with_world_def emit_event_def monad_defs case_prod_beta
      Emit_def wakeAll_def)

lemma line_result:
  "fst (line D l s) = Inr ()" "x_build (snd (line D l s)) = x_build s" "x_runs (snd (line D l s)) = x_runs s"
  "x_keep (snd (line D l s)) = x_keep s"
  by (simp_all add: line_def emit_line_def with_world_def emit_event_def monad_defs case_prod_beta)

text \<open>The build is over: a final status, the log finished, the run no longer registered.\<close>

definition run_over :: "string \<Rightarrow> string \<Rightarrow> 'w bstate \<Rightarrow> bool" where
  "run_over k st s \<longleftrightarrow>
    b_Status (x_build s) = st \<and> b_ID (x_build s) = k \<and> Done (x_log s) \<and> k \<notin> set (x_runs s)"

lemma close_run_over: "b_Status (x_build s) = st \<Longrightarrow> run_over (b_ID (x_build s)) st (snd (close_run s))"
  by (simp add: run_over_def close_run_def monad_defs Finish_def Done_def wakeAll_def)

lemma bind_Inr: "fst (f s) = Inr x \<Longrightarrow> bindS f g s = g x (snd (f s))"
  by (cases "f s") (auto simp: bindS_def)

lemma then_Inr: "fst (f s) = Inr x \<Longrightarrow> thenS f g s = g (snd (f s))"
  by (simp add: thenS_def bind_Inr)

lemma status_close_over:
  "run_over (b_ID (x_build s)) st (snd (thenS (set_status D st) close_run s))"
  using close_run_over [of "snd (set_status D st s)" st] set_status_result [of D st s]
  by (simp add: then_Inr [OF set_status_result(1)])

lemma set_phase_result:
  "fst (set_phase ph s) = Inr ()" "x_build (snd (set_phase ph s)) = x_build s"
  by (simp_all add: set_phase_def modifyS_def)

lemma fail_over: "run_over (b_ID (x_build s)) st (snd (fail D st ph err s))"
proof -
  let ?s1 = "snd (set_phase ph s)"
  let ?s2 = "snd (line D (error_text err) ?s1)"
  let ?s3 = "?s2\<lparr>x_build := (x_build ?s2)\<lparr>b_Error := ph @ '': '' @ error_text err, b_Log := run_text (x_log ?s2)\<rparr>\<rparr>"
  have "snd (fail D st ph err s) = snd (thenS (set_status D st) close_run ?s3)"
    unfolding fail_def then_Inr [OF set_phase_result(1)] then_Inr [OF line_result(1)]
    by (simp add: update_build_def monad_defs)
  moreover have "b_ID (x_build ?s3) = b_ID (x_build s)" by (simp add: set_phase_result line_result)
  ultimately show ?thesis using status_close_over [of ?s3 st D] by metis
qed

text \<open>While the pipeline runs: the identifier of the build is fixed and its sandbox is not kept.\<close>

definition unkept :: "string \<Rightarrow> 'w bstate \<Rightarrow> bool" where
  "unkept k s \<longleftrightarrow> b_ID (x_build s) = k \<and> \<not> x_keep s"

interpretation unkept: step_inv D i "unkept k" for D :: "'w builder" and i :: info and k :: string
  by unfold_locales (simp_all add: unkept_def wstep_def same_build_def)

lemma unkept_world: "keeps (unkept k) (with_world f)"
  by (rule unkept.keeps_world) (simp add: wstep_def unkept_def)

lemma unkept_tell: "keeps (unkept k) (tell c)"
  unfolding tell_def by (rule keeps_modify) (simp add: unkept_def)

lemma unkept_stage_sandbox: "keeps (unkept k) (stage_sandbox D i)"
  unfolding stage_sandbox_def
  by (intro keep unkept.keeps_set_phase unkept.keeps_line unkept_world unkept_tell keeps_modify)
    (simp_all add: unkept_def)

definition kept :: "string \<Rightarrow> 'w bstate \<Rightarrow> bool" where
  "kept k s \<longleftrightarrow> b_ID (x_build s) = k \<and> x_keep s"

lemma valid_stage_snapshot: "valid (unkept k) (stage_snapshot D i) (\<lambda>_. kept k) (\<lambda>_. unkept k)"
  unfolding stage_snapshot_def
  apply (rule valid_keeps_then, rule unkept.keeps_set_phase)
  apply (rule valid_keeps_then, rule unkept.keeps_line)
  apply (rule valid_keeps_bind, rule keep)
  apply (simp only: split_beta)
  apply (rule valid_case_option, rule valid_throw_I)
  apply (rule valid_keeps_then, rule unkept_tell)
  apply (rule valid_keeps_bind, rule unkept_world)
  apply (rule valid_case_sum, rule valid_throw_I)
  apply (rule valid_keeps_then, rule unkept_tell)
  apply (rule valid_keeps_bind, rule unkept_world)
  apply (rule valid_case_sum, rule valid_throw_I)
  apply (rule valid_keeps_then, rule unkept.keeps_line)
  apply (rule valid_keeps_then, rule unkept_tell)
  apply (rule valid_keeps_then, rule unkept_world)
  apply (simp add: valid_def monad_defs unkept_def kept_def)
  done

text \<open>What a ready build says: where the app listens, and a recipe of safe commands.\<close>

definition ready_ok :: "build \<Rightarrow> bool" where
  "ready_ok b \<longleftrightarrow>
    kind_port_ok (b_Kind b, b_Port b) \<and> b_BuiltAt b \<noteq> None \<and>
    (case b_Recipe b of None \<Rightarrow> False
     | Some r \<Rightarrow> commands_ok r \<and> r_kind r = b_Kind b \<and> r_port r = b_Port b)"

lemma status_close_result:
  "fst (thenS (set_status D st) close_run s) = Inr ()"
  "x_build (snd (thenS (set_status D st) close_run s)) = (x_build s)\<lparr>b_Status := st\<rparr>"
  "x_keep (snd (thenS (set_status D st) close_run s)) = x_keep s"
  by (simp_all add: then_Inr [OF set_status_result(1)])
    (simp_all add: close_run_def monad_defs set_status_result)

lemma ready_prefix:
  "bindS (with_world g) (\<lambda>now. bindS (getS h) (\<lambda>text. thenS (update_build (u now text)) f)) s =
    f (let s1 = s\<lparr>x_world := snd (g (x_world s))\<rparr>
       in s1\<lparr>x_build := u (fst (g (x_world s))) (h s1) (x_build s1)\<rparr>)"
  by (simp add: monad_defs with_world_def update_build_def case_prod_beta Let_def)

lemma valid_record_ready:
  assumes "commands_ok rcp" and "kind_port_ok (kind, port)"
  shows "valid (kept k) (record_ready D rcp kind port snap)
    (\<lambda>_ s. run_over k BuildReady s \<and> kept k s \<and> ready_ok (x_build s)) (\<lambda>_. unkept k)"
proof (rule validI)
  fix s :: "'a bstate"
  assume k: "kept k s"
  let ?f = "thenS (set_status D BuildReady) close_run"
  obtain s2 where r: "record_ready D rcp kind port snap s = ?f s2" and b2: "x_build s2 =
      (x_build s)\<lparr>b_Recipe := Some (rcp\<lparr>r_kind := kind, r_port := port\<rparr>), b_Kind := kind, b_Port := port,
        b_SnapshotID := snap, b_BuiltAt := Some (fst (bd_Now D (x_world s))), b_Log := run_text (x_log s)\<rparr>"
    and k2: "x_keep s2 = x_keep s"
    by (simp add: record_ready_def ready_prefix Let_def)
  have over: "run_over k BuildReady (snd (?f s2))"
    using status_close_over [of s2 BuildReady D] k by (simp add: kept_def b2)
  have "commands_ok (rcp\<lparr>r_kind := kind, r_port := port\<rparr>)" using assms(1) by (simp add: commands_ok_def)
  with over assms(2) k have "run_over k BuildReady (snd (?f s2)) \<and> kept k (snd (?f s2)) \<and> ready_ok (x_build (snd (?f s2)))"
    by (simp add: status_close_result b2 k2 kept_def ready_ok_def)
  with status_close_result(1) [of D BuildReady s2]
  show "case record_ready D rcp kind port snap s of (Inl e, s') \<Rightarrow> unkept k s'
      | (Inr x, s') \<Rightarrow> run_over k BuildReady s' \<and> kept k s' \<and> ready_ok (x_build s')"
    unfolding r by (cases "?f s2") simp
qed

lemma valid_pipeline:
  "valid (unkept k) (pipeline fuel D i)
    (\<lambda>_ s. run_over k BuildReady s \<and> kept k s \<and> ready_ok (x_build s)) (\<lambda>_. unkept k)"
proof -
  let ?Q = "\<lambda>_ s. run_over k BuildReady s \<and> kept k s \<and> ready_ok (x_build s)"
  have rest: "valid (unkept k) (bindS (stage_start fuel D r) (\<lambda>(kind, port).
      bindS (stage_snapshot D i) (\<lambda>sn. record_ready D r kind port (sn_ID sn)))) ?Q (\<lambda>_. unkept k)"
    if "commands_ok r" for r
    apply (rule valid_bind_values [OF unkept.valid_stage_start [OF that]])
    apply (simp only: split_beta)
    apply (rule valid_bind [OF valid_stage_snapshot])
    apply (rule valid_record_ready [OF that], simp)
    done
  show ?thesis
    unfolding pipeline_def
    by (rule valid_keeps_then [OF unkept.keeps_set_status], rule valid_keeps_then [OF unkept_stage_sandbox],
      rule unkept.valid_middle [OF rest])
qed

lemma delete_unkept_result:
  "x_build (snd (delete_unkept D s)) = x_build s" "x_log (snd (delete_unkept D s)) = x_log s"
  "x_runs (snd (delete_unkept D s)) = x_runs s"
  by (simp_all add: delete_unkept_def monad_defs tell_def with_world_def case_prod_beta)

text \<open>The failures of the stages, and the loops without fuel.\<close>

definition exit_ok :: "build_exit \<Rightarrow> bool" where
  "exit_ok e = (case e of Failed st _ _ \<Rightarrow> st = BuildFailed \<or> st = BuildUnsupported | _ \<Rightarrow> True)"

lemma exit_ok_simps [simp]:
  "exit_ok (Failed BuildFailed ph e)" "exit_ok (Failed BuildUnsupported ph e)" "exit_ok Panicked" "exit_ok Diverged"
  by (simp_all add: exit_ok_def)

lemma raises_world [raise]: "raises P (with_world f)"
  by (simp add: raises_def with_world_def split: prod.split)

lemmas step_defs = emit_event_def set_phase_def update_build_def tell_def emit_line_def line_def exec_def

lemma raises_step [raise]:
  "raises P (emit_event ev)" "raises P (set_phase ph)" "raises P (update_build g)" "raises P (tell c)"
  "raises P (emit_line D ph l)" "raises P (line D l)" "raises P (exec D sp)"
  unfolding step_defs by (intro raise)+

lemma raises_emit_lines [raise]: "raises P (emit_lines D ph ls)"
proof (induction ls)
  case (Cons l ls)
  then show ?case unfolding emit_lines.simps by (intro raise)
qed (simp add: raises_return)

lemma raises_write_pieces [raise]: "raises P (write_pieces D ph ps)"
proof (induction ps)
  case (Cons p ps)
  then show ?case unfolding write_pieces.simps write_piece_def by (intro raise)
qed (simp add: raises_return)

lemma raises_calls [raise]:
  "raises P (set_status D st)" "raises P close_run" "raises P (exec_quiet D sp)" "raises P (exec_tee D sp)"
  unfolding set_status_def close_run_def exec_quiet_def exec_tee_def by (intro raise)+

lemma raises_missingTools [raise]: "raises P (missingTools D cs)"
proof (induction cs)
  case (Cons c cs)
  then show ?case unfolding missingTools.simps by (intro raise)
qed (simp add: raises_return)

lemma raises_install_loop [raise]: "raises P (install_loop D m deadline k cmds repairs rcp)"
proof (induction D m deadline k cmds repairs rcp rule: install_loop.induct)
  case (1 D m deadline k cmds repairs rcp)
  show ?case
    apply (subst install_loop.simps)
    apply (cases "k < length cmds")
     apply (simp only: not_True_eq_False if_False Let_def)
     apply (intro raise)
      apply (rule 1(1) [OF _ refl]; simp)
     apply (rule 1(2) [OF _ refl _ _ _ refl]; simp)
    apply (simp add: raises_return)
    done
qed

lemma raises_probe_loop [raise]: "raises exit_ok (probe_loop n D hint pid deadline settle)"
proof (induction n arbitrary: settle)
  case (Suc n)
  then show ?case unfolding probe_loop.simps app_logs_def by (intro raise)
qed (simp add: raises_throw)

lemma raises_pipeline: "raises exit_ok (pipeline fuel D i)"
  unfolding pipeline_def stage_sandbox_def stage_clone_def stage_detect_def inspect_def find_recipe_def
    stage_install_def install_def stage_start_def startAndProbe_def stage_snapshot_def record_ready_def exec_logged_def
  by (intro raise) simp_all

section \<open>The recipe that ran\<close>

text \<open>
  The trace shows a command of a recipe: it was run with the directory and the environment of the recipe,
  whatever its timeout, and its exit code was zero.
\<close>

definition ran_command :: "recipe \<Rightarrow> string \<Rightarrow> call \<Rightarrow> bool" where
  "ran_command r c x = (case x of
      CallExec sp code \<Rightarrow> code = Some 0 \<and> sp\<lparr>ex_TimeoutMS := 0\<rparr> = recipe_spec r c 0 | _ \<Rightarrow> False)"

text \<open>
  It shows the whole recipe: the install commands, all of them and in their order, and then the start of the
  server, when the recipe has one.
\<close>

definition server_call :: "recipe \<Rightarrow> call list" where
  "server_call r = (if r_start r = [] then [] else [CallStart (recipe_spec r (r_start r) 0)])"

definition recipe_ran :: "recipe \<Rightarrow> call list \<Rightarrow> bool" where
  "recipe_ran r tr \<longleftrightarrow> (\<exists>xs. list_all2 (ran_command r) (r_install r) xs \<and> subseq (xs @ server_call r) tr)"

lemma recipe_spec_same: "r_cwd r = r_cwd r' \<Longrightarrow> r_env r = r_env r' \<Longrightarrow> recipe_spec r c t = recipe_spec r' c t"
  by (simp add: recipe_spec_def cwd_def EnvList_def)

lemma ran_command_same: "r_cwd r = r_cwd r' \<Longrightarrow> r_env r = r_env r' \<Longrightarrow> ran_command r = ran_command r'"
  by (intro ext) (simp add: ran_command_def recipe_spec_same [of r r'] split: call.split)

lemma server_call_same: "r_cwd r = r_cwd r' \<Longrightarrow> r_env r = r_env r' \<Longrightarrow> r_start r = r_start r' \<Longrightarrow> server_call r = server_call r'"
  by (simp add: server_call_def recipe_spec_same [of r r'])

lemma recipe_ran_update: "recipe_ran (r\<lparr>r_kind := kind, r_port := port\<rparr>) tr = recipe_ran r tr"
  unfolding recipe_ran_def
  by (simp add: ran_command_same [of "r\<lparr>r_kind := kind, r_port := port\<rparr>" r]
      server_call_same [of "r\<lparr>r_kind := kind, r_port := port\<rparr>" r])

lemma ran_command_intro: "ran_command r c (CallExec (recipe_spec r c t) (Some 0))"
  by (simp add: ran_command_def recipe_spec_def split: prod.split)

text \<open>The trace only grows.\<close>

definition seen :: "call list \<Rightarrow> 'w bstate \<Rightarrow> bool" where
  "seen xs s \<longleftrightarrow> subseq xs (x_trace s)"

lemma seen_more: "subseq xs tr \<Longrightarrow> subseq xs (tr @ ys)" "subseq xs tr \<Longrightarrow> subseq (xs @ ys) (tr @ ys)"
  by (auto intro: list_emb_append2 list_emb_append_mono)

interpretation seen: step_inv D i "seen xs" for D :: "'w builder" and i :: info and xs :: "call list"
  by unfold_locales (simp_all add: seen_def wstep_def seen_more)

lemma valid_bind_fact:
  assumes "valid I f (\<lambda>x s. J x s \<and> R x) E" and "\<And>x. R x \<Longrightarrow> valid (J x) (g x) Q E"
  shows "valid I (bindS f g) Q E"
proof (rule valid_bind [OF assms(1)])
  fix x
  show "valid (\<lambda>s. J x s \<and> R x) (g x) Q E"
    using assms(2) [of x] by (cases "R x") (auto simp: valid_def)
qed

lemma valid_conj: "valid P f Q E \<Longrightarrow> valid P f Q' E \<Longrightarrow> valid P f (\<lambda>x s. Q x s \<and> Q' x s) E"
  by (auto simp: valid_def split: prod.splits sum.splits)

abbreviation anyhow :: "build_exit \<Rightarrow> 'w bstate \<Rightarrow> bool" where
  "anyhow \<equiv> \<lambda>_ _. True"

lemma keeps_anyhow: "keeps I f \<Longrightarrow> valid I f (\<lambda>_. I) anyhow"
  unfolding keeps_valid by (erule valid_weaken) simp_all

lemmas anyhow_bind = valid_bind [OF keeps_anyhow]
lemmas anyhow_then = valid_then [OF keeps_anyhow]

lemma seen_world: "keeps (seen xs) (with_world f)"
  by (rule seen.keeps_world) (simp add: wstep_def seen_def)

lemma seen_tell: "valid (seen xs) (tell c) (\<lambda>_. seen (xs @ [c])) E" "keeps (seen xs) (tell c)"
  by (simp_all add: valid_def keeps_def tell_def modifyS_def seen_def seen_more)

text \<open>A command that succeeds is seen.\<close>

definition done_with :: "call list \<Rightarrow> execSpec \<Rightarrow> execResult result \<Rightarrow> call list" where
  "done_with xs sp r = xs @ (if exit_code r = Some 0 then [CallExec sp (Some 0)] else [])"

lemma exec_seen: "valid (seen xs) (exec D sp) (\<lambda>pr. seen (done_with xs sp (snd pr))) anyhow"
  by (auto simp: valid_def exec_def with_world_def tell_def monad_defs seen_def done_with_def seen_more split: prod.split)

lemma exec_tee_seen: "valid (seen xs) (exec_tee D sp) (\<lambda>pr. seen (done_with xs sp (snd pr))) anyhow"
proof -
  have "valid (seen ys) (bindS (getS x_phase) (\<lambda>ph. thenS (write_pieces D ph ps) (returnS (concat ps, r))))
      (\<lambda>pr s. seen ys s \<and> snd pr = r) anyhow" for ys ps and r :: "execResult result"
    by (rule anyhow_bind, rule keep, rule anyhow_then, rule seen.keeps_write_pieces) (simp add: valid_def returnS_def)
  note rest = valid_weaken [OF this]
  show ?thesis
    unfolding exec_tee_def
    by (rule valid_bind [OF exec_seen], simp only: split_beta, rule rest) auto
qed

lemma seen_install_loop:
  "D' = D \<Longrightarrow> k \<le> length cmds \<Longrightarrow> r_install rcp = cmds \<Longrightarrow> list_all2 (ran_command rcp) (take k cmds) xs \<Longrightarrow>
    valid (seen xs) (install_loop D' m deadline k cmds repairs rcp)
      (\<lambda>er s. fst er = None \<longrightarrow> (\<exists>ys. list_all2 (ran_command (snd er)) (r_install (snd er)) ys \<and> seen ys s)) anyhow"
proof (induction D' m deadline k cmds repairs rcp arbitrary: xs rule: install_loop.induct)
  case (1 D' m deadline k cmds repairs rcp)
  let ?Q = "\<lambda>er s. fst er = None \<longrightarrow> (\<exists>ys. list_all2 (ran_command (snd er)) (r_install (snd er)) ys \<and> seen ys s)"
  have stop: "valid P (returnS (Some e, rcp)) ?Q anyhow" for P e by (simp add: valid_def returnS_def)
  show ?case
  proof (cases "k < length cmds")
    case False
    with 1(4,5,6) have "list_all2 (ran_command rcp) (r_install rcp) xs" by simp
    with False show ?thesis by (subst install_loop.simps) (auto simp: valid_def returnS_def)
  next
    case True
    let ?sp = "\<lambda>now. recipe_spec rcp (cmds ! k) ((deadline - now) div Millisecond)"
    have next_cmd: "valid (seen (done_with xs (?sp now) r)) (install_loop D m deadline (Suc k) cmds repairs rcp) ?Q anyhow"
      if "\<not> deadline - now \<le> 0" "r = Inr res" "er_ExitCode res = 0" for now r and res :: execResult
    proof -
      have "list_all2 (ran_command rcp) (take (Suc k) cmds) (done_with xs (?sp now) r)"
        using 1(6) that(2,3) True ran_command_intro [of rcp "cmds ! k"]
        by (simp add: take_Suc_conv_app_nth done_with_def exit_code_def list_all2_appendI)
      then show ?thesis using 1(1) [OF _ refl that(1,3)] True 1(3-5) by simp
    qed
    have repaired: "valid (seen (done_with xs (?sp now) r)) (install_loop D m deadline k (take k cmds @ fixed) (Suc repairs) (rcp\<lparr>r_install := take k cmds @ fixed\<rparr>)) ?Q anyhow"
      if "\<not> deadline - now \<le> 0" "r = Inr res" "er_ExitCode res \<noteq> 0" "\<not> (bd_LLM D = None \<or> repairs \<ge> 2)" for now r and res :: execResult and fixed
    proof -
      have here: "done_with xs (?sp now) r = xs" using that(2,3) by (simp add: done_with_def exit_code_def)
      let ?r = "rcp\<lparr>r_install := take k cmds @ fixed\<rparr>"
      have "ran_command ?r = ran_command rcp" by (rule ran_command_same) simp_all
      then have "list_all2 (ran_command ?r) (take k (take k cmds @ fixed)) xs" using 1(6) True by simp
      then show ?thesis using 1(2) [OF _ refl that(1,3) _ refl, of fixed] that(4) True 1(3-5) by (simp add: here)
    qed
    show ?thesis
      apply (subst install_loop.simps)
      apply (simp only: True not_True_eq_False if_False Let_def 1(3))
      apply (rule anyhow_then, rule seen.keeps_line)
      apply (rule anyhow_bind, rule seen_world)
      apply (rule valid_if, rule stop)
      apply (rule valid_bind [OF exec_tee_seen])
      apply (simp only: split_beta)
      apply (rule valid_case_sum, rule stop)
      apply (rule valid_if)
       apply (rule next_cmd, assumption+)
      apply (rule valid_if, rule stop)
      apply (rule anyhow_then, rule seen.keeps_line)
      apply (rule anyhow_bind, rule seen_world)
      apply (rule valid_case_sum, rule stop)
      apply (rule repaired, assumption+)
      done
  qed
qed

text \<open>Installing a recipe, and then starting its server.\<close>

definition installed :: "recipe \<Rightarrow> 'w bstate \<Rightarrow> bool" where
  "installed r s \<longleftrightarrow> (\<exists>xs. list_all2 (ran_command r) (r_install r) xs \<and> seen xs s)"

lemma seen_stage_install:
  assumes "commands_ok rcp"
  shows "valid (seen []) (stage_install D m rcp) (\<lambda>r s. installed r s \<and> commands_ok r) anyhow"
proof -
  have safe: "list_all safe_command (r_install rcp)" using assms by (simp add: commands_ok_def)
  have inst: "valid (seen []) (install D rcp m) (\<lambda>er s. fst er = None \<longrightarrow> installed (snd er) s) anyhow"
    unfolding install_def installed_def
    by (rule anyhow_bind, rule seen_world, rule seen_install_loop) simp_all
  have "valid (seen []) (stage_install D m rcp) installed anyhow"
    unfolding stage_install_def
    apply (rule anyhow_then, rule seen.keeps_set_phase)
    apply (rule anyhow_bind, rule seen.keeps_missingTools [OF safe])
    apply (rule valid_if, simp add: valid_def throwS_def)
    apply (rule valid_bind [OF inst])
    apply (simp only: split_beta)
    apply (rule valid_case_option)
     apply (auto simp: valid_def throwS_def returnS_def)
    done
  moreover have "valid (seen []) (stage_install D m rcp) (\<lambda>r _. commands_ok r) anyhow"
    by (rule valid_weaken [OF seen.valid_stage_install [OF assms]]) auto
  ultimately show ?thesis by (rule valid_conj)
qed

lemma seen_stage_start:
  assumes "commands_ok rcp"
  shows "valid (seen xs) (stage_start fuel D rcp) (\<lambda>_. seen (xs @ server_call rcp)) anyhow"
proof -
  have probe: "valid (seen ys) (probe_loop n D hint pid deadline settle) (\<lambda>_. seen ys) anyhow"
    for ys and D :: "'a builder" and n hint pid deadline settle
    by (rule valid_weaken [OF seen.valid_probe_loop [where xs = ys]]) (erule conjunct1 | simp)+
  have start: "valid (seen xs) (startAndProbe fuel D rcp) (\<lambda>_. seen (xs @ server_call rcp)) anyhow"
  proof (cases "r_start rcp = []")
    case True
    then show ?thesis by (simp add: startAndProbe_def server_call_def valid_def returnS_def)
  next
    case False
    then have sc: "server_call rcp = [CallStart (recipe_spec rcp (r_start rcp) 0)]" by (simp add: server_call_def)
    show ?thesis
      unfolding startAndProbe_def Let_def if_not_P [OF False] sc
      apply (rule anyhow_then, rule seen.keeps_line)
      apply (rule valid_then [OF seen_tell(1)])
      apply (rule anyhow_bind, rule keep)
      apply (rule anyhow_bind, rule seen_world)
      apply (rule valid_case_sum, simp add: valid_def returnS_def)
      apply (rule anyhow_bind, rule seen_world)
      apply (rule probe)
      done
  qed
  have missing: "keeps (seen xs) (if r_start rcp \<noteq> [] then missingTools D [r_start rcp] else returnS [])"
    using assms by (intro keep seen.keeps_missingTools) (simp add: commands_ok_def)
  show ?thesis
    unfolding stage_start_def
    apply (rule anyhow_then, rule seen.keeps_set_phase)
    apply (rule anyhow_bind, rule missing)
    apply (rule valid_if, simp add: valid_def throwS_def)
    apply (rule valid_bind [OF start])
    apply (rule valid_case_sum, simp add: valid_def throwS_def)
    apply (simp only: split_beta)
    apply (rule anyhow_then, rule seen.keeps_line)
    apply (simp add: valid_def returnS_def)
    done
qed

lemma seen_stage_sandbox: "keeps (seen xs) (stage_sandbox D i)"
  unfolding stage_sandbox_def
  by (intro keep seen.keeps_set_phase seen.keeps_line seen_world seen_tell(2) keeps_modify) (simp_all add: seen_def)

lemma seen_stage_detect: "valid (seen xs) (stage_detect D) (\<lambda>mr s. seen xs s \<and> recipe_ok (snd mr)) anyhow"
  by (rule valid_weaken [OF seen.valid_stage_detect [where xs = xs]]) auto

lemma seen_stage_snapshot: "keeps (seen xs) (stage_snapshot D i)"
  unfolding stage_snapshot_def
  by (intro keep seen.keeps_set_phase seen.keeps_line seen_world seen_tell(2) keeps_modify) (simp add: seen_def)

lemma record_ready_trace:
  "x_trace (snd (record_ready D rcp kind port snap s)) = x_trace s"
  "b_Recipe (x_build (snd (record_ready D rcp kind port snap s))) = Some (rcp\<lparr>r_kind := kind, r_port := port\<rparr>)"
  by (simp_all add: record_ready_def ready_prefix Let_def set_status_def close_run_def update_build_def with_world_def
      emit_event_def monad_defs case_prod_beta)

text \<open>The recipe that a ready build stores is the one that the trace shows.\<close>

definition stored_ran :: "'w bstate \<Rightarrow> bool" where
  "stored_ran s \<longleftrightarrow> (case b_Recipe (x_build s) of None \<Rightarrow> False | Some r \<Rightarrow> recipe_ran r (x_trace s))"

lemma pipeline_ran: "valid (seen []) (pipeline fuel D i) (\<lambda>_. stored_ran) anyhow"
proof -
  have last: "valid (seen (xs @ server_call r)) (record_ready D r kind port snap) (\<lambda>_. stored_ran) anyhow"
    if "list_all2 (ran_command r) (r_install r) xs" for r xs kind port snap
  proof (rule validI)
    fix s :: "'a bstate" assume "seen (xs @ server_call r) s"
    with that have "recipe_ran r (x_trace s)" by (auto simp: recipe_ran_def seen_def)
    then have "stored_ran (snd (record_ready D r kind port snap s))"
      by (simp add: stored_ran_def record_ready_trace recipe_ran_update)
    then show "case record_ready D r kind port snap s of (Inl e, s') \<Rightarrow> True | (Inr x, s') \<Rightarrow> stored_ran s'"
      by (auto split: prod.split sum.split)
  qed
  have rest: "valid (installed r) (bindS (stage_start fuel D r) (\<lambda>(kind, port).
      bindS (stage_snapshot D i) (\<lambda>sn. record_ready D r kind port (sn_ID sn)))) (\<lambda>_. stored_ran) anyhow"
    if "commands_ok r" for r
  proof (rule validI)
    fix s :: "'a bstate" assume "installed r s"
    then obtain xs where xs: "list_all2 (ran_command r) (r_install r) xs" "seen xs s" by (auto simp: installed_def)
    have "valid (seen xs) (bindS (stage_start fuel D r) (\<lambda>(kind, port).
        bindS (stage_snapshot D i) (\<lambda>sn. record_ready D r kind port (sn_ID sn)))) (\<lambda>_. stored_ran) anyhow"
      apply (rule valid_bind [OF seen_stage_start [OF that]])
      apply (simp only: split_beta)
      apply (rule anyhow_bind, rule seen_stage_snapshot)
      apply (rule last [OF xs(1)])
      done
    with xs(2) show "case bindS (stage_start fuel D r) (\<lambda>(kind, port).
        bindS (stage_snapshot D i) (\<lambda>sn. record_ready D r kind port (sn_ID sn))) s of
        (Inl e, s') \<Rightarrow> True | (Inr x, s') \<Rightarrow> stored_ran s'"
      by (simp add: valid_def)
  qed
  show ?thesis
    unfolding pipeline_def
    apply (rule anyhow_then, rule seen.keeps_set_status)
    apply (rule anyhow_then, rule seen_stage_sandbox)
    apply (rule anyhow_then, rule seen.keeps_stage_clone)
    apply (rule valid_bind_fact [OF seen_stage_detect])
    apply (simp only: split_beta)
    apply (rule valid_bind_fact [OF seen_stage_install], erule seen.recipe_ok_commands)
    apply (rule rest, assumption)
    done
qed

section \<open>The outcome\<close>

lemma execute_outcome:
  assumes "execute fuel D i s = (Returned, s')" and "\<not> x_keep s"
  shows "\<exists>st. st \<in> {BuildReady, BuildFailed, BuildUnsupported} \<and> run_over (b_ID (x_build s)) st s' \<and>
    (st = BuildReady \<longrightarrow> ready_ok (x_build s'))"
proof -
  let ?k = "b_ID (x_build s)"
  have u: "unkept ?k s" using assms(2) by (simp add: unkept_def)
  obtain r s1 where p: "pipeline fuel D i s = (r, s1)" by (cases "pipeline fuel D i s")
  show ?thesis
  proof (cases r)
    case (Inr x)
    with valid_Inr [OF valid_pipeline u, of fuel D i x s1] p
    have "run_over ?k BuildReady s1" "ready_ok (x_build s1)" by simp_all
    moreover have "s' = snd (delete_unkept D s1)" using assms(1) p Inr by (simp add: execute_def)
    ultimately show ?thesis by (auto simp: run_over_def delete_unkept_result)
  next
    case (Inl e)
    with valid_Inl [OF valid_pipeline u, of fuel D i e s1] p have k: "b_ID (x_build s1) = ?k" by (simp add: unkept_def)
    have ok: "exit_ok e" using raisesD [OF raises_pipeline] p Inl by blast
    obtain st ph err where e: "e = Failed st ph err" "s' = snd (delete_unkept D (snd (fail D st ph err s1)))"
      using assms(1) p Inl by (cases e) (auto simp: execute_def)
    with ok fail_over [of s1 st D ph err] k show ?thesis
      by (auto simp: run_over_def delete_unkept_result exit_ok_def build_statuses)
  qed
qed

lemma execute_ran:
  assumes "execute fuel D i s = (Returned, s')" and "\<not> x_keep s" and "b_Status (x_build s') = BuildReady"
  shows "stored_ran s'"
proof -
  obtain r s1 where p: "pipeline fuel D i s = (r, s1)" by (cases "pipeline fuel D i s")
  have grows: "subseq (x_trace s1) (x_trace (snd (delete_unkept D s1)))" for s1 :: "'a bstate"
    by (auto simp: delete_unkept_def monad_defs tell_def with_world_def list_emb_append2 split: prod.split)
  show ?thesis
  proof (cases r)
    case (Inr x)
    then have "stored_ran s1" using valid_Inr [OF pipeline_ran, of s fuel D i x s1] p by (simp add: seen_def)
    moreover have "s' = snd (delete_unkept D s1)" using assms(1) p Inr by (simp add: execute_def)
    ultimately show ?thesis
      using subseq_order.order_trans [OF _ grows]
      by (auto simp: stored_ran_def delete_unkept_result recipe_ran_def split: option.splits)
  next
    case (Inl e)
    have ok: "exit_ok e" using raisesD [OF raises_pipeline] p Inl by blast
    obtain st ph err where e: "e = Failed st ph err" "s' = snd (delete_unkept D (snd (fail D st ph err s1)))"
      using assms(1) p Inl by (cases e) (auto simp: execute_def)
    with ok fail_over [of s1 st D ph err] assms(3) show ?thesis
      by (auto simp: run_over_def delete_unkept_result exit_ok_def build_statuses)
  qed
qed

text \<open>
  C18: A build that returns has settled: its status is ready, failed or unsupported, its log is finished,
  its run is no longer registered, and it is still the same build. A ready one says where the app is (a
  port that is not reserved, or a terminal), when it was built, and a recipe whose commands are all safe;
  and that recipe is the one that ran, also after repairs by the model: every one of its install commands
  was run in the sandbox, in their order and with exit code zero, and then its server was started.
\<close>

theorem build_settles:
  assumes "execute fuel D i (start_state w b runs) = (Returned, s)"
  shows "b_Status (x_build s) \<in> {BuildReady, BuildFailed, BuildUnsupported} \<and> Done (x_log s) \<and>
    b_ID b \<notin> set (x_runs s) \<and> b_ID (x_build s) = b_ID b \<and>
    (b_Status (x_build s) = BuildReady \<longrightarrow>
      ready_ok (x_build s) \<and> (\<exists>r. b_Recipe (x_build s) = Some r \<and> recipe_ran r (x_trace s)))"
  using execute_outcome [OF assms] execute_ran [OF assms]
  by (auto simp: run_over_def start_state_def stored_ran_def split: option.splits)

end
