(* ===== verification/Builder_World.thy ===== *)
theory Builder_World
  imports Builder_Safety Fake
begin

text \<open>
  What a build leaves on the platform, for every platform that keeps its contract: the sandboxes and
  snapshots of before, and for a ready build its own sandbox and snapshot besides. The state of an
  execution is related to the world it started in.
\<close>

section \<open>The surroundings of a builder\<close>

text \<open>An operation that keeps the invariant of the world and a view of it.\<close>

definition calm :: "('w \<Rightarrow> bool) \<Rightarrow> ('w \<Rightarrow> 'v) \<Rightarrow> ('w \<Rightarrow> 'r \<times> 'w) \<Rightarrow> bool" where
  "calm ok view f \<longleftrightarrow> (\<forall>w. ok w \<longrightarrow> ok (snd (f w)) \<and> view (snd (f w)) = view w)"

lemma calmD: "calm ok view f \<Longrightarrow> ok w \<Longrightarrow> f w = (r, w') \<Longrightarrow> ok w' \<and> view w' = view w"
  by (auto simp: calm_def dest!: spec [of _ w])

text \<open>The clocks, the pause, the store and the model leave the platform alone.\<close>

locale build_world = platform "bd_Sandbox D" ok boxes snaps
  for D :: "'w builder" and ok boxes snaps +
  assumes now_calm: "calm ok (\<lambda>w. (boxes w, snaps w)) (bd_Now D)"
    and clock_calm: "calm ok (\<lambda>w. (boxes w, snaps w)) (bd_Clock D)"
    and sleep_calm: "calm ok (\<lambda>w. (boxes w, snaps w)) (bd_Sleep D t)"
    and update_calm: "calm ok (\<lambda>w. (boxes w, snaps w)) (so_UpdateBuild (bd_Store D) b)"
    and llm_calm: "bd_LLM D = Some f \<Longrightarrow> calm ok (\<lambda>w. (boxes w, snaps w)) (f sys usr)"

section \<open>The sandbox of an execution\<close>

text \<open>
  Before the sandbox is made; with it, and the snapshots of before; with it, and snapshots of it
  besides; and when it is kept with one snapshot.
\<close>

definition before_box ::
  "('w \<Rightarrow> bool) \<Rightarrow> ('w \<Rightarrow> string \<Rightarrow> sandbox option) \<Rightarrow> ('w \<Rightarrow> string \<Rightarrow> snapshot option) \<Rightarrow> 'w \<Rightarrow> 'w bstate \<Rightarrow> bool" where
  "before_box ok boxes snaps w0 s \<longleftrightarrow>
    ok (x_world s) \<and> \<not> x_made s \<and> \<not> x_keep s \<and> dom (boxes (x_world s)) = dom (boxes w0) \<and> snaps (x_world s) = snaps w0"

definition own_box ::
  "('w \<Rightarrow> bool) \<Rightarrow> ('w \<Rightarrow> string \<Rightarrow> sandbox option) \<Rightarrow> 'w \<Rightarrow> 'w bstate \<Rightarrow> bool" where
  "own_box ok boxes w0 s \<longleftrightarrow>
    (let g = b_Golden (x_build s) in
     ok (x_world s) \<and> x_made s \<and> sx_ID (x_sb s) = g \<and> boxes w0 g = None \<and>
     dom (boxes (x_world s)) = insert g (dom (boxes w0)))"

definition with_box ::
  "('w \<Rightarrow> bool) \<Rightarrow> ('w \<Rightarrow> string \<Rightarrow> sandbox option) \<Rightarrow> ('w \<Rightarrow> string \<Rightarrow> snapshot option) \<Rightarrow> 'w \<Rightarrow> 'w bstate \<Rightarrow> bool" where
  "with_box ok boxes snaps w0 s \<longleftrightarrow> own_box ok boxes w0 s \<and> \<not> x_keep s \<and> snaps (x_world s) = snaps w0"

definition with_snaps ::
  "('w \<Rightarrow> bool) \<Rightarrow> ('w \<Rightarrow> string \<Rightarrow> sandbox option) \<Rightarrow> ('w \<Rightarrow> string \<Rightarrow> snapshot option) \<Rightarrow> 'w \<Rightarrow> 'w bstate \<Rightarrow> bool" where
  "with_snaps ok boxes snaps w0 s \<longleftrightarrow>
    own_box ok boxes w0 s \<and> \<not> x_keep s \<and> without_owner (b_Golden (x_build s)) (snaps (x_world s)) = snaps w0"

definition unsettled ::
  "('w \<Rightarrow> bool) \<Rightarrow> ('w \<Rightarrow> string \<Rightarrow> sandbox option) \<Rightarrow> ('w \<Rightarrow> string \<Rightarrow> snapshot option) \<Rightarrow> 'w \<Rightarrow> 'w bstate \<Rightarrow> bool" where
  "unsettled ok boxes snaps w0 s \<longleftrightarrow> before_box ok boxes snaps w0 s \<or> with_snaps ok boxes snaps w0 s"

definition golden_kept ::
  "('w \<Rightarrow> bool) \<Rightarrow> ('w \<Rightarrow> string \<Rightarrow> sandbox option) \<Rightarrow> ('w \<Rightarrow> string \<Rightarrow> snapshot option) \<Rightarrow> 'w \<Rightarrow> string \<Rightarrow> 'w bstate \<Rightarrow> bool" where
  "golden_kept ok boxes snaps w0 k s \<longleftrightarrow>
    own_box ok boxes w0 s \<and> x_keep s \<and> snaps w0 k = None \<and>
    (\<exists>sn. sn_SandboxID sn = b_Golden (x_build s) \<and> snaps (x_world s) = (snaps w0)(k \<mapsto> sn))"

lemmas box_defs = before_box_def own_box_def with_box_def with_snaps_def unsettled_def golden_kept_def Let_def

lemma keeps_within: "keeps I f \<Longrightarrow> (\<And>s. I s \<Longrightarrow> E s) \<Longrightarrow> valid I f (\<lambda>_. I) (\<lambda>_. E)"
  unfolding keeps_valid by (rule valid_weaken)

lemma valid_within: "valid I f Q (\<lambda>_. I) \<Longrightarrow> (\<And>s. I s \<Longrightarrow> E s) \<Longrightarrow> valid I f Q (\<lambda>_. E)"
  by (rule valid_weaken)

lemma valid_fact: "(R \<Longrightarrow> valid P f Q E) \<Longrightarrow> valid (\<lambda>s. P s \<and> R) f Q E"
  by (cases R) (simp_all add: valid_def)

context build_world
begin

abbreviation "before \<equiv> before_box ok boxes snaps"
abbreviation "boxed \<equiv> with_box ok boxes snaps"
abbreviation "open_end \<equiv> unsettled ok boxes snaps"
abbreviation "settled \<equiv> golden_kept ok boxes snaps"

lemma exec_calm: "calm ok (\<lambda>w. (boxes w, snaps w)) (cl_Exec (bd_Sandbox D) sb sp)"
  using exec by (auto simp: calm_def) (metis prod.collapse)+

lemma write_calm: "calm ok (\<lambda>w. (boxes w, snaps w)) (cl_WriteFile (bd_Sandbox D) sb p d)"
  using write_file by (auto simp: calm_def) (metis prod.collapse)+

lemma start_calm: "calm ok (\<lambda>w. (boxes w, snaps w)) (cl_StartProcess (bd_Sandbox D) sb sp)"
  using start_process by (auto simp: calm_def) (metis prod.collapse)+

lemma logs_calm: "calm ok (\<lambda>w. (boxes w, snaps w)) (cl_Logs (bd_Sandbox D) sb pid)"
  using logs by (auto simp: calm_def) (metis prod.collapse)+

lemmas calms = now_calm clock_calm sleep_calm update_calm exec_calm write_calm start_calm logs_calm

text \<open>A predicate of the flags, the build and the platform survives what is calm.\<close>

lemma calm_world: "calm ok (\<lambda>w. (boxes w, snaps w)) f \<Longrightarrow> ok w \<Longrightarrow>
    ok (snd (f w)) \<and> boxes (snd (f w)) = boxes w \<and> snaps (snd (f w)) = snaps w"
  by (auto simp: calm_def)

lemma step_inv_calm:
  assumes w: "\<And>s w'. I s \<Longrightarrow> (ok (x_world s) \<Longrightarrow> ok w' \<and> boxes w' = boxes (x_world s) \<and> snaps w' = snaps (x_world s)) \<Longrightarrow>
      I (s\<lparr>x_world := w'\<rparr>)"
    and "\<And>s l. I s \<Longrightarrow> I (s\<lparr>x_log := l\<rparr>)" "\<And>s p. I s \<Longrightarrow> I (s\<lparr>x_phase := p\<rparr>)"
    and "\<And>s b. I s \<Longrightarrow> same_build (x_build s) b \<Longrightarrow> I (s\<lparr>x_build := b\<rparr>)"
    and "\<And>s rs. I s \<Longrightarrow> I (s\<lparr>x_runs := rs\<rparr>)" "\<And>s cs. I s \<Longrightarrow> I (s\<lparr>x_trace := cs\<rparr>)"
  shows "step_inv D i I"
proof -
  have c: "wstep I f" if "calm ok (\<lambda>w. (boxes w, snaps w)) f" for f :: "'w \<Rightarrow> 'r \<times> 'w"
    unfolding wstep_def using w calm_world [OF that] by blast
  show ?thesis by unfold_locales (auto intro: assms(2-) c calms llm_calm)
qed

lemma before_inv: "step_inv D i (before w0)"
  by (rule step_inv_calm) (simp_all add: box_defs same_build_def)

lemma boxed_inv: "step_inv D i (boxed w0)"
  by (rule step_inv_calm) (simp_all add: box_defs same_build_def)

lemma open_inv: "step_inv D i (open_end w0)"
  by (rule step_inv_calm; simp only: unsettled_def; elim disjE; simp add: box_defs same_build_def)

lemma settled_inv: "step_inv D i (settled w0 k)"
  by (rule step_inv_calm) (simp_all add: box_defs same_build_def)

lemma snaps_none: "ok w \<Longrightarrow> boxes w g = None \<Longrightarrow> without_owner g (snaps w) = snaps w"
  using owned [of w] by (fastforce simp: without_owner_def fun_eq_iff split: option.split)

lemma boxed_open: "ok w0 \<Longrightarrow> boxed w0 s \<Longrightarrow> open_end w0 s"
  using snaps_none [of w0 "b_Golden (x_build s)"] by (simp add: box_defs)

lemma before_open: "before w0 s \<Longrightarrow> open_end w0 s"
  by (simp add: unsettled_def)

section \<open>The stages\<close>

lemma create_step:
  "valid (before w0) (with_world (cl_Create (bd_Sandbox D) spec))
    (\<lambda>r s. case r of Inl e \<Rightarrow> before w0 s
      | Inr sb \<Rightarrow> boxed w0 (s\<lparr>x_build := (x_build s)\<lparr>b_Golden := sx_ID sb\<rparr>, x_sb := sb, x_made := True, x_keep := False\<rparr>))
    (\<lambda>_. open_end w0)"
proof (rule validI)
  fix s assume b: "before w0 s"
  obtain r w' where c: "cl_Create (bd_Sandbox D) spec (x_world s) = (r, w')" by fastforce
  have w: "ok (x_world s)" "dom (boxes (x_world s)) = dom (boxes w0)" "snaps (x_world s) = snaps w0"
    using b by (simp_all add: before_box_def)
  show "case with_world (cl_Create (bd_Sandbox D) spec) s of (Inl e, s') \<Rightarrow> open_end w0 s'
    | (Inr r, s) \<Rightarrow> (case r of Inl e \<Rightarrow> before w0 s
      | Inr sb \<Rightarrow> boxed w0 (s\<lparr>x_build := (x_build s)\<lparr>b_Golden := sx_ID sb\<rparr>, x_sb := sb, x_made := True, x_keep := False\<rparr>))"
  proof (cases r)
    case (Inl e)
    with create_err [OF w(1)] c b show ?thesis by (simp add: with_world_def before_box_def)
  next
    case (Inr sb)
    then have "cl_Create (bd_Sandbox D) spec (x_world s) = (Inr sb, w')" using c by simp
    from create_ok [OF w(1) this] have "ok w'" "boxes w0 (sx_ID sb) = None"
      "dom (boxes w') = insert (sx_ID sb) (dom (boxes w0))" "snaps w' = snaps w0"
      using w(2,3) by auto
    with c Inr show ?thesis by (simp add: with_world_def with_box_def own_box_def Let_def)
  qed
qed

lemma wait_ready_step:
  "valid (\<lambda>s. boxed w0 s \<and> b_Golden (x_build s) = g) (with_world (cl_WaitReady (bd_Sandbox D) g t))
    (\<lambda>p s. boxed w0 (s\<lparr>x_sb := fst p\<rparr>)) E"
proof (rule validI)
  fix s assume b: "boxed w0 s \<and> b_Golden (x_build s) = g"
  obtain sb r w' where c: "cl_WaitReady (bd_Sandbox D) g t (x_world s) = ((sb, r), w')" by (metis prod.collapse)
  have "ok (x_world s)" "boxes (x_world s) g \<noteq> None" using b by (auto simp: box_defs)
  from wait_ready [OF this c] b c
  show "case with_world (cl_WaitReady (bd_Sandbox D) g t) s of (Inl e, s') \<Rightarrow> E e s'
    | (Inr p, s) \<Rightarrow> boxed w0 (s\<lparr>x_sb := fst p\<rparr>)"
    by (auto simp: with_world_def box_defs)
qed

lemma valid_throw_open: "(\<And>s. I s \<Longrightarrow> E s) \<Longrightarrow> valid I (throwS e) Q (\<lambda>_. E)"
  by (rule valid_pre [OF valid_throw])

lemma tell_boxed:
  "valid (\<lambda>s. boxed w0 s \<and> b_Golden (x_build s) = g) (tell c) (\<lambda>_ s. boxed w0 s \<and> b_Golden (x_build s) = g) E"
  by (auto simp: valid_def tell_def modifyS_def box_defs)

lemma valid_stage_sandbox:
  assumes w0: "ok w0"
  shows "valid (before w0) (stage_sandbox D i) (\<lambda>_. boxed w0) (\<lambda>_. open_end w0)"
proof -
  note pre = step_inv.keeps_set_phase [OF before_inv] step_inv.keeps_line [OF before_inv]
    step_inv.keeps_tell [OF before_inv [of i]]
  note post = step_inv.keeps_line [OF boxed_inv]
  note b = keeps_within [where E = "open_end w0", OF _ before_open]
    and c = keeps_within [where E = "open_end w0", OF _ boxed_open [OF w0]]
  show ?thesis
    unfolding stage_sandbox_def Let_def
    apply (rule valid_then, rule b, rule pre, assumption)
    apply (rule valid_then, rule b, rule pre, assumption)
    apply (rule valid_bind, rule b, rule keep, assumption)
    apply (rule valid_case_option, rule valid_throw_open, erule before_open)
    apply (rule valid_then, rule b, rule pre, simp, assumption)
    apply (rule valid_bind, rule create_step)
    apply (rule valid_case_sum)
     apply (simp only: sum.case, rule valid_throw_open, erule before_open)
    apply (simp only: sum.case)
    apply (rule valid_then)
     apply (rule valid_pre [OF valid_modify [where Q = "\<lambda>_ s. boxed w0 s \<and> b_Golden (x_build s) = sx_ID sb" for sb]])
     apply simp
    apply (rule valid_then, rule tell_boxed)
    apply (rule valid_bind, rule wait_ready_step)
    apply (simp only: split_beta)
    apply (rule valid_then)
     apply (rule valid_pre [OF valid_modify [where Q = "\<lambda>_. boxed w0"]], simp)
    apply (rule valid_case_option)
     apply (rule c, rule post, assumption)
    apply (rule valid_throw_open, erule boxed_open [OF w0])
    done
qed

section \<open>The snapshot\<close>

text \<open>After the snapshot of the own sandbox is asked for: it exists, and nothing else is new.\<close>

definition snapped :: "'w \<Rightarrow> string \<Rightarrow> 'w bstate \<Rightarrow> bool" where
  "snapped w0 k s \<longleftrightarrow>
    own_box ok boxes w0 s \<and> \<not> x_keep s \<and> snaps w0 k = None \<and>
    (\<exists>sn. sn_SandboxID sn = b_Golden (x_build s) \<and> snaps (x_world s) = (snaps w0)(k \<mapsto> sn))"

lemma snapped_inv: "step_inv D i (snapped w0 k)"
  by (rule step_inv_calm) (simp_all add: snapped_def own_box_def Let_def same_build_def)

lemma snapped_open: "ok w0 \<Longrightarrow> snapped w0 k s \<Longrightarrow> open_end w0 s"
proof -
  assume w0: "ok w0" and s: "snapped w0 k s"
  let ?g = "b_Golden (x_build s)"
  from s obtain sn where sn: "sn_SandboxID sn = ?g" "snaps (x_world s) = (snaps w0)(k \<mapsto> sn)" "snaps w0 k = None"
    "boxes w0 ?g = None" by (auto simp: snapped_def own_box_def Let_def)
  have "without_owner ?g (snaps w0) = snaps w0" by (rule snaps_none [OF w0 sn(4)])
  then have "without_owner ?g (snaps (x_world s)) = snaps w0"
    using sn by (simp add: without_owner_def fun_eq_iff)
  with s show ?thesis by (simp add: snapped_def unsettled_def with_snaps_def)
qed

lemma snapshot_step:
  "valid (\<lambda>s. boxed w0 s \<and> sx_ID (x_sb s) = g) (with_world (cl_CreateSnapshot (bd_Sandbox D) g name))
    (\<lambda>r s. case r of Inl e \<Rightarrow> boxed w0 s | Inr sn \<Rightarrow> snapped w0 (sn_ID sn) s) E"
proof (rule validI)
  fix s assume b: "boxed w0 s \<and> sx_ID (x_sb s) = g"
  obtain r w' where c: "cl_CreateSnapshot (bd_Sandbox D) g name (x_world s) = (r, w')" by fastforce
  have "ok (x_world s)" using b by (simp add: box_defs)
  from create_snapshot [OF this c] b c
  show "case with_world (cl_CreateSnapshot (bd_Sandbox D) g name) s of (Inl e, s') \<Rightarrow> E e s'
    | (Inr r, s) \<Rightarrow> (case r of Inl e \<Rightarrow> boxed w0 s | Inr sn \<Rightarrow> snapped w0 (sn_ID sn) s)"
    by (cases r) (auto simp: with_world_def box_defs snapped_def)
qed

lemma wait_snapshot_step:
  "valid (snapped w0 k) (with_world (cl_WaitSnapshot (bd_Sandbox D) k t))
    (\<lambda>r s. snapped w0 k s \<and> (case r of Inl e \<Rightarrow> True | Inr sn \<Rightarrow> sn_ID sn = k)) E"
proof (rule validI)
  fix s assume b: "snapped w0 k s"
  obtain r w' where c: "cl_WaitSnapshot (bd_Sandbox D) k t (x_world s) = (r, w')" by fastforce
  have "ok (x_world s)" using b by (simp add: snapped_def own_box_def Let_def)
  from wait_snapshot [OF this c] b c
  show "case with_world (cl_WaitSnapshot (bd_Sandbox D) k t) s of (Inl e, s') \<Rightarrow> E e s'
    | (Inr r, s) \<Rightarrow> snapped w0 k s \<and> (case r of Inl e \<Rightarrow> True | Inr sn \<Rightarrow> sn_ID sn = k)"
    by (auto simp: with_world_def snapped_def own_box_def Let_def split: sum.split)
qed

lemma pause_snapped: "keeps (snapped w0 k) (with_world (cl_Pause (bd_Sandbox D) g))"
proof (rule keepsI)
  fix s assume b: "snapped w0 k s"
  obtain r w' where c: "cl_Pause (bd_Sandbox D) g (x_world s) = (r, w')" by fastforce
  have "ok (x_world s)" using b by (simp add: snapped_def own_box_def Let_def)
  from pause [OF this c] b c show "snapped w0 k (snd (with_world (cl_Pause (bd_Sandbox D) g) s))"
    by (simp add: with_world_def snapped_def own_box_def Let_def)
qed

lemma snapshot_keeps:
  assumes w0: "ok w0"
  shows "valid (boxed w0) (stage_snapshot D i) (\<lambda>sn. settled w0 (sn_ID sn)) (\<lambda>_. open_end w0)"
proof -
  note b = keeps_within [where E = "open_end w0", OF _ boxed_open [OF w0]]
    and s = keeps_within [where E = "open_end w0", OF _ snapped_open [OF w0]]
  have end': "settled w0 (sn_ID sn) (st\<lparr>x_keep := True\<rparr>)" if "snapped w0 (sn_ID sn) st" for sn st
    using that by (simp add: snapped_def golden_kept_def own_box_def Let_def)
  show ?thesis
    unfolding stage_snapshot_def
    apply (rule valid_then, rule b, rule step_inv.keeps_set_phase [OF boxed_inv], assumption)
    apply (rule valid_then, rule b, rule step_inv.keeps_line [OF boxed_inv], assumption)
    apply (rule valid_bind, rule valid_pre)
      apply (rule valid_get [where Q = "\<lambda>p s. boxed w0 s \<and> sx_ID (x_sb s) = snd p"], simp)
    apply (simp only: split_beta)
    apply (rule valid_case_option, rule valid_throw_open, erule boxed_open [OF w0, OF conjunct1])
    apply (rule valid_then)
     apply (rule valid_pre [where P' = "\<lambda>s. boxed w0 s \<and> sx_ID (x_sb s) = g" for g])
      apply (simp only: tell_def, rule valid_pre [OF valid_modify [where Q = "\<lambda>_ s. boxed w0 s \<and> sx_ID (x_sb s) = g" for g]])
      apply (simp add: box_defs)
     apply assumption
    apply (rule valid_bind, rule snapshot_step)
    apply (rule valid_case_sum)
     apply (simp only: sum.case, rule valid_throw_open, erule boxed_open [OF w0])
    apply (simp only: sum.case)
    apply (rule valid_then, rule s, rule step_inv.keeps_tell [OF snapped_inv [of i]], simp, assumption)
    apply (rule valid_bind, rule wait_snapshot_step)
    apply (rule valid_case_sum, rule valid_throw_open, erule snapped_open [OF w0, OF conjunct1])
    apply (simp only: sum.case)
    apply (rule valid_pre [where P' = "snapped w0 (sn_ID sn)" for sn])
     apply (rule valid_then, rule s, rule step_inv.keeps_line [OF snapped_inv], assumption)
     apply (rule valid_then, rule s, rule step_inv.keeps_tell [OF snapped_inv [of i]], simp, assumption)
     apply (rule valid_then, rule s, rule pause_snapped, assumption)
     apply (rule valid_then)
      apply (rule valid_pre [OF valid_modify [where Q = "\<lambda>_. settled w0 (sn_ID sn)" for sn]], erule end')
     apply (rule valid_pre [OF valid_return], assumption)
    apply simp
    done
qed

section \<open>The execution\<close>

lemma record_snapshot: "b_SnapshotID (x_build (snd (record_ready D rcp kind port snap s))) = snap"
  by (simp add: record_ready_def ready_prefix status_close_result Let_def)

lemma valid_record:
  "valid (settled w0 k) (record_ready D rcp kind port k) (\<lambda>_ s. settled w0 (b_SnapshotID (x_build s)) s) (\<lambda>_. open_end w0)"
proof (rule validI)
  fix s assume s: "settled w0 k s"
  have f: "fst (record_ready D rcp kind port k s) = Inr ()"
    by (simp add: record_ready_def ready_prefix status_close_result Let_def)
  have "keeps (settled w0 k) (record_ready D rcp kind port k)" by (rule step_inv.keeps_record_ready [OF settled_inv])
  from keepsD [OF this s] f record_snapshot [of rcp kind port k s]
  show "case record_ready D rcp kind port k s of (Inl e, s') \<Rightarrow> open_end w0 s'
    | (Inr x, s) \<Rightarrow> settled w0 (b_SnapshotID (x_build s)) s"
    by (cases "record_ready D rcp kind port k s") simp
qed

lemma valid_pipeline_world:
  assumes w0: "ok w0"
  shows "valid (before w0) (pipeline fuel D i) (\<lambda>_ s. settled w0 (b_SnapshotID (x_build s)) s) (\<lambda>_. open_end w0)"
proof -
  note o = boxed_open [OF w0]
  note inv = boxed_inv [of i w0]
  show ?thesis
    unfolding pipeline_def
    apply (rule valid_then, rule keeps_within, rule step_inv.keeps_set_status [OF before_inv], erule before_open)
    apply (rule valid_then, rule valid_stage_sandbox [OF w0])
    apply (rule valid_then, rule keeps_within, rule step_inv.keeps_stage_clone [OF inv], erule o)
    apply (rule valid_bind, rule valid_within [OF step_inv.valid_stage_detect [OF inv]], erule o)
    apply (simp only: split_beta, rule valid_fact)
    apply (rule valid_bind, rule valid_within [OF step_inv.valid_stage_install [OF inv]],
        erule step_inv.recipe_ok_commands [OF inv], erule o)
    apply (rule valid_fact)
    apply (rule valid_bind, rule valid_within [OF step_inv.valid_stage_start [OF inv]], assumption, erule o)
    apply (simp only: split_beta, rule valid_fact)
    apply (rule valid_bind, rule snapshot_keeps [OF w0])
    apply (rule valid_record)
    done
qed

lemma delete_unkept_world:
  assumes "open_end w0 s"
  shows "dom (boxes (x_world (snd (delete_unkept D s)))) = dom (boxes w0) \<and> snaps (x_world (snd (delete_unkept D s))) = snaps w0 \<and>
    ok (x_world (snd (delete_unkept D s)))"
proof (cases "x_made s")
  case False
  with assms show ?thesis by (simp add: box_defs delete_unkept_def monad_defs)
next
  case True
  with assms have s: "with_snaps ok boxes snaps w0 s" by (simp add: unsettled_def before_box_def)
  obtain r w' where c: "cl_Delete (bd_Sandbox D) (b_Golden (x_build s)) (x_world s) = (r, w')" by fastforce
  have "ok (x_world s)" using s by (simp add: box_defs)
  from delete [OF this c] s have "ok w'" "dom (boxes w') = dom (boxes w0)" "snaps w' = snaps w0"
    by (auto simp: box_defs)
  with s c show ?thesis by (simp add: box_defs delete_unkept_def monad_defs tell_def with_world_def)
qed

lemma delete_kept: "x_keep s \<Longrightarrow> snd (delete_unkept D s) = s"
  by (simp add: delete_unkept_def monad_defs)

lemma execute_world:
  assumes w0: "ok w0" and s: "before w0 s" and e: "execute fuel D i s = (Returned, s')"
  shows "(b_Status (x_build s') = BuildReady \<and> settled w0 (b_SnapshotID (x_build s')) s') \<or>
    (b_Status (x_build s') \<noteq> BuildReady \<and> dom (boxes (x_world s')) = dom (boxes w0) \<and> snaps (x_world s') = snaps w0)"
proof -
  obtain r s1 where p: "pipeline fuel D i s = (r, s1)" by fastforce
  show ?thesis
  proof (cases r)
    case (Inr u)
    with valid_Inr [OF valid_pipeline_world [OF w0] s, of fuel i u s1] p
    have k: "settled w0 (b_SnapshotID (x_build s1)) s1" by simp
    have "unkept (b_ID (x_build s)) s" using s by (simp add: unkept_def before_box_def)
    from valid_Inr [OF valid_pipeline this, of fuel D i u s1] p Inr have "b_Status (x_build s1) = BuildReady"
      by (simp add: run_over_def)
    moreover have "s' = s1" using e p Inr delete_kept [of s1] k by (auto simp: execute_def golden_kept_def)
    ultimately show ?thesis using k by simp
  next
    case (Inl x)
    then obtain st ph err where x: "x = Failed st ph err" using e p by (cases x) (auto simp: execute_def)
    have "exit_ok x" using raisesD [OF raises_pipeline] p Inl by blast
    then have st: "st \<noteq> BuildReady" by (auto simp: x exit_ok_def build_statuses)
    have o: "open_end w0 s1" using valid_Inl [OF valid_pipeline_world [OF w0] s, of fuel i x s1] p Inl by simp
    have "open_end w0 (snd (fail D st ph err s1))" using keepsD [OF step_inv.keeps_fail [OF open_inv] o] .
    moreover have "s' = snd (delete_unkept D (snd (fail D st ph err s1)))" using e p Inl x by (simp add: execute_def)
    ultimately show ?thesis
      using delete_unkept_world fail_over [of s1 st D ph err] st by (simp add: run_over_def delete_unkept_result)
  qed
qed

end

end
