(* ===== verification/Builder_Example.thy ===== *)
theory Builder_Example
  imports Builder_Safety
begin

text \<open>
  A concrete execution of the builder that ends well: a platform that answers every call, a store that
  accepts every record, and a repository with an \<open>index.html\<close>. It shows that the statements about builds
  that return, and about ready ones, are not empty.
\<close>

section \<open>A platform, a store and a builder\<close>

definition demo_manifest :: manifest where
  "demo_manifest = \<lparr>m_files = [''index.html''], m_cmdDirs = [], m_packageJSON = None, m_lockfiles = [],
    m_pyProject = [], m_requirements = [], m_goMod = [], m_cargoToml = [], m_procfile = [], m_makeTargets = [],
    m_readme = [], m_tryliveYAML = [], m_dockerfile = [], m_hasIndexHTML = True\<rparr>"

definition demo_codec :: codec where
  "demo_codec = \<lparr>cd_yaml = (\<lambda>_. None), cd_manifest = (\<lambda>_. Inr demo_manifest), cd_recipe = (\<lambda>_. Inl ErrNoMatch),
    cd_cmds = (\<lambda>_. Inl ErrNoMatch), cd_recipe_text = (\<lambda>_. []), cd_package_text = (\<lambda>_. []), cd_range = (\<lambda>xs. xs)\<rparr>"

definition demo_info :: info where
  "demo_info = \<lparr>in_Ref = \<lparr>ref_Owner = ''o'', ref_Name = ''r''\<rparr>, in_DefaultBranch = ''main'', in_SHA = ''abcdefg'',
     in_SizeKB = 1, in_Private = False, in_CloneURL = ''u''\<rparr>"

definition demo_queued :: build where
  "demo_queued = no_build\<lparr>b_ID := ''build1'', b_Owner := ''o'', b_Repo := ''r'', b_SHA := ''abcdefg'', b_Status := BuildQueued\<rparr>"

definition demo_box :: sandbox where "demo_box = no_sandbox\<lparr>sx_ID := ''sb''\<rparr>"
definition demo_snap :: snapshot where
  "demo_snap = \<lparr>sn_ID = ''sn'', sn_SandboxID = ''sb'', sn_Status = SnapshotReady, sn_Error = [], sn_SizeBytes = 0\<rparr>"

definition quiet :: execResult where "quiet = \<lparr>er_Stdout = [], er_Stderr = [], er_ExitCode = 0\<rparr>"
definition listening :: execResult where
  "listening = quiet\<lparr>er_Stdout := ''LISTEN 0 5 0.0.0.0:8080 0.0.0.0:*'' @ [CHR 0x0A]\<rparr>"

definition demo_client :: "unit client" where
  "demo_client =
    \<lparr>cl_Create = (\<lambda>spec w. (Inr demo_box, w)), cl_Get = (\<lambda>i w. (Inr demo_box, w)),
     cl_WaitReady = (\<lambda>i t w. ((demo_box, None), w)), cl_Delete = (\<lambda>i w. (None, w)),
     cl_ExposePort = (\<lambda>i p w. (Inr ''url'', w)), cl_Keepalive = (\<lambda>i w. (None, w)), cl_Pause = (\<lambda>i w. (None, w)),
     cl_CreateSnapshot = (\<lambda>i n w. (Inr demo_snap, w)), cl_GetSnapshot = (\<lambda>k w. (Inr demo_snap, w)),
     cl_WaitSnapshot = (\<lambda>k t w. (Inr demo_snap, w)),
     cl_Exec = (\<lambda>sb sp w. (([], Inr (if sp = probe_spec then listening else quiet)), w)),
     cl_WriteFile = (\<lambda>sb p d w. (None, w)), cl_StartProcess = (\<lambda>sb sp w. (Inr \<lparr>pr_ID = ''p'', pr_State = []\<rparr>, w)),
     cl_Logs = (\<lambda>sb p w. ([], w)), cl_DialPTY = (\<lambda>sb opts w. (Inr 0, w))\<rparr>"

definition demo_store :: "unit store" where
  "demo_store =
    \<lparr>so_CreateBuild = (\<lambda>b w. (Inr b, w)), so_UpdateBuild = (\<lambda>b w. ((b, None), w)),
     so_GetBuild = (\<lambda>i w. (Inl ErrStoreNotFound, w)), so_GetBuildBySHA = (\<lambda>ow rp sha w. (Inl ErrStoreNotFound, w)),
     so_LatestBuild = (\<lambda>ow rp w. (Inl ErrStoreNotFound, w)), so_RecordVisit = (\<lambda>i at w. (None, w)),
     so_CreateSession = (\<lambda>s w. (Inr s, w)), so_UpdateSession = (\<lambda>s w. (None, w)),
     so_GetSession = (\<lambda>i w. (Inl ErrStoreNotFound, w)), so_LiveSessions = (\<lambda>dev ip w. (Inr (0, 0, 0), w)),
     so_LiveSessionsForDevice = (\<lambda>dev w. (Inr [], w)), so_IncrUsage = (\<lambda>day kind ow n w. (Inr n, w))\<rparr>"

definition demo_builder :: "unit builder" where
  "demo_builder =
    \<lparr>bd_Sandbox = demo_client, bd_Store = demo_store, bd_LLM = None, bd_ProbeTimeout = probeTimeout,
     bd_Now = (\<lambda>w. (1, w)), bd_Clock = (\<lambda>w. (1, w)), bd_Sleep = (\<lambda>t w. (None, w)), bd_codec = demo_codec,
     bd_Inspector = []\<rparr>"

lemmas demo_defs = demo_client_def demo_store_def demo_builder_def

section \<open>The stages on it\<close>

lemmas primitive_steps = with_world_def tell_def emit_event_def
  set_phase_def update_build_def modifyS_def getS_def returnS_def throwS_def

definition demo_recipe :: recipe where
  "demo_recipe = the (detectStatic demo_manifest)\<lparr>r_detector := ''index.html''\<rparr>"

lemma demo_detect: "Detect (cd_yaml demo_codec) demo_manifest = Inr demo_recipe"
  by code_simp
lemma demo_port: "ChoosePort 8080 (ParseListening (er_Stdout listening)) = 8080"
  by code_simp
definition demo_name :: string where
  "demo_name = the (golden_name demo_info demo_queued)"

lemma demo_golden: "b_ID b = ''build1'' \<Longrightarrow> golden_name demo_info b = Some demo_name"
  by (simp add: golden_name_def demo_info_def demo_name_def demo_queued_def)

lemma demo_recipe_fields:
  "r_install demo_recipe = []" "r_start demo_recipe \<noteq> []" "r_port demo_recipe = 8080"
  "r_detector demo_recipe = ''index.html''"
  by code_simp+

lemma demo_prog: "fst (snd (Split (r_start demo_recipe))) = ''python3''"
  by code_simp

lemma demo_specs:
  "(clone_spec demo_info = probe_spec) = False" "(inspect_spec = probe_spec) = False" "(which_spec ''python3'' = probe_spec) = False"
  by code_simp+

lemma quiet_simps: "er_ExitCode quiet = 0" "er_Stdout quiet = []" "er_ExitCode listening = 0"
  by (simp_all add: quiet_def listening_def)

lemma demo_sels:
  "bd_Sandbox demo_builder = demo_client" "bd_Store demo_builder = demo_store" "bd_LLM demo_builder = None"
  "bd_Now demo_builder w = (1, w)" "bd_Clock demo_builder w = (1, w)" "bd_codec demo_builder = demo_codec"
  "cl_Create demo_client spec w = (Inr demo_box, w)" "cl_WaitReady demo_client i t w = ((demo_box, None), w)"
  "cl_Delete demo_client i w = (None, w)" "cl_Pause demo_client i w = (None, w)"
  "cl_CreateSnapshot demo_client i n w = (Inr demo_snap, w)" "cl_WaitSnapshot demo_client k t w = (Inr demo_snap, w)"
  "cl_Exec demo_client sb sp w = (([], Inr (if sp = probe_spec then listening else quiet)), w)"
  "cl_WriteFile demo_client sb p d w = (None, w)" "cl_StartProcess demo_client sb sp w = (Inr \<lparr>pr_ID = ''p'', pr_State = []\<rparr>, w)"
  "cl_Logs demo_client sb p w = ([], w)" "so_UpdateBuild demo_store b w = ((b, None), w)"
  "cd_manifest demo_codec x = Inr demo_manifest"
  by (simp_all add: demo_defs demo_codec_def)

lemmas demo_run = monad_defs primitive_steps demo_sels demo_specs quiet_simps demo_recipe_fields demo_prog

lemma demo_sandbox: "b_ID (x_build s) = ''build1'' \<Longrightarrow> \<exists>s'. stage_sandbox demo_builder demo_info s = (Inr (), s') \<and> b_ID (x_build s') = ''build1''"
  by (simp add: stage_sandbox_def line_def emit_line_def demo_golden Let_def demo_run)

lemma demo_clone: "\<exists>s'. stage_clone demo_builder demo_info s = (Inr (), s') \<and> x_build s' = x_build s"
  by (simp add: stage_clone_def exec_logged_def exec_tee_def exec_def line_def emit_line_def demo_run)


lemma demo_stage_detect:
  "\<exists>s'. stage_detect demo_builder s = (Inr (demo_manifest, demo_recipe), s') \<and> b_ID (x_build s') = b_ID (x_build s)"
  by (simp add: stage_detect_def inspect_def find_recipe_def exec_quiet_def exec_def line_def emit_line_def
      demo_detect demo_run)

lemma demo_stage_install:
  "\<exists>s'. stage_install demo_builder m demo_recipe s = (Inr demo_recipe, s') \<and> x_build s' = x_build s"
  by (simp add: stage_install_def install_def demo_run install_loop.simps)

lemma demo_stage_start:
  "\<exists>s'. stage_start 1 demo_builder demo_recipe s = (Inr (KindWeb, 8080), s') \<and> x_build s' = x_build s"
  by (simp add: stage_start_def startAndProbe_def exec_quiet_def exec_def line_def emit_line_def app_logs_def
      Let_def demo_port demo_run)

lemma demo_stage_snapshot:
  "b_ID (x_build s) = ''build1'' \<Longrightarrow>
    \<exists>s'. stage_snapshot demo_builder demo_info s = (Inr demo_snap, s') \<and> x_build s' = x_build s"
  by (simp add: stage_snapshot_def line_def emit_line_def demo_golden Let_def demo_run)

lemma demo_record:
  "\<exists>s'. record_ready demo_builder r k p sn s = (Inr (), s') \<and> b_Status (x_build s') = BuildReady"
  by (simp add: record_ready_def set_status_def close_run_def demo_run)

lemma demo_start: "\<exists>s'. set_status demo_builder st s = (Inr (), s') \<and> b_ID (x_build s') = b_ID (x_build s)"
  by (simp add: set_status_def demo_run)

lemma demo_execute:
  "\<exists>s. execute 1 demo_builder demo_info (start_state () demo_queued []) = (Returned, s) \<and> b_Status (x_build s) = BuildReady"
proof -
  let ?D = demo_builder and ?i = demo_info
  obtain s1 where 1: "set_status ?D BuildBuilding (start_state () demo_queued []) = (Inr (), s1)" "b_ID (x_build s1) = ''build1''"
    using demo_start [of BuildBuilding "start_state () demo_queued []"] by (auto simp: start_state_def demo_queued_def)
  obtain s2 where 2: "stage_sandbox ?D ?i s1 = (Inr (), s2)" "b_ID (x_build s2) = ''build1''" using demo_sandbox [OF 1(2)] by blast
  obtain s3 where 3: "stage_clone ?D ?i s2 = (Inr (), s3)" "x_build s3 = x_build s2" using demo_clone by blast
  obtain s4 where 4: "stage_detect ?D s3 = (Inr (demo_manifest, demo_recipe), s4)" "b_ID (x_build s4) = ''build1''"
    using demo_stage_detect [of s3] 3 2 by auto
  obtain s5 where 5: "stage_install ?D demo_manifest demo_recipe s4 = (Inr demo_recipe, s5)" "x_build s5 = x_build s4"
    using demo_stage_install by blast
  obtain s6 where 6: "stage_start 1 ?D demo_recipe s5 = (Inr (KindWeb, 8080), s6)" "x_build s6 = x_build s5"
    using demo_stage_start by blast
  obtain s7 where 7: "stage_snapshot ?D ?i s6 = (Inr demo_snap, s7)" using demo_stage_snapshot [of s6] 6 5 4 by auto
  obtain s8 where 8: "record_ready ?D demo_recipe KindWeb 8080 (sn_ID demo_snap) s7 = (Inr (), s8)" "b_Status (x_build s8) = BuildReady"
    using demo_record by blast
  have "pipeline 1 ?D ?i (start_state () demo_queued []) = (Inr (), s8)"
    by (simp add: pipeline_def thenS_def bindS_def 1 2 3 4 5 6 7 8 del: One_nat_def)
  then show ?thesis using 8 by (simp add: execute_def delete_unkept_result del: One_nat_def)
qed

theorem build_settles_witness:
  "\<exists>s r. execute 1 demo_builder demo_info (start_state () demo_queued []) = (Returned, s) \<and>
    b_Status (x_build s) = BuildReady \<and> Done (x_log s) \<and> ready_ok (x_build s) \<and>
    b_Recipe (x_build s) = Some r \<and> recipe_ran r (x_trace s)"
  using demo_execute build_settles [of 1 demo_builder demo_info "()" demo_queued "[]"] by blast

end
