(* ===== verification/Builder_Returns.thy ===== *)
theory Builder_Returns
  imports Builder_World Builder_Example
begin

text \<open>
  No execution hangs: the pauses of the probe loop move the clock past its deadline; and it returns when the slices
  of the commit and of the identifier are in range. The surroundings of the tests - the in-process
  store, the fake platform, a clock that does not go back - satisfy what this needs.
\<close>

section \<open>Time\<close>

text \<open>The clock does not go back, a reading lies between the times around it, and a pause takes its time.\<close>

definition ticks :: "('w \<Rightarrow> bool) \<Rightarrow> ('w \<Rightarrow> time) \<Rightarrow> ('w \<Rightarrow> 'r \<times> 'w) \<Rightarrow> bool" where
  "ticks ok tm f \<longleftrightarrow> (\<forall>w. ok w \<longrightarrow> tm w \<le> tm (snd (f w)))"

locale timed_world = build_world D ok boxes snaps
  for D :: "'w builder" and ok boxes snaps +
  fixes tm :: "'w \<Rightarrow> time"
  assumes clock_reads: "ok w \<Longrightarrow> tm w \<le> fst (bd_Clock D w) \<and> fst (bd_Clock D w) \<le> tm (snd (bd_Clock D w))"
    and sleep_takes: "ok w \<Longrightarrow> bd_Sleep D t w = (None, w') \<Longrightarrow> tm w + t \<le> tm w'"
    and now_ticks: "ticks ok tm (bd_Now D)"
    and exec_ticks: "ticks ok tm (cl_Exec (bd_Sandbox D) sb sp)"
    and logs_ticks: "ticks ok tm (cl_Logs (bd_Sandbox D) sb pid)"

lemma valid_raises: "valid P f Q E \<Longrightarrow> raises R f \<Longrightarrow> valid P f Q (\<lambda>e _. R e)"
  unfolding valid_def raises_def by (auto split: prod.splits sum.splits) (metis fst_conv)

lemma keeps_raises: "keeps I f \<Longrightarrow> raises R f \<Longrightarrow> valid I f (\<lambda>_. I) (\<lambda>e _. R e)"
  unfolding keeps_valid by (rule valid_raises)

lemma raises_valid: "raises R f \<Longrightarrow> valid I f (\<lambda>_ _. True) (\<lambda>e _. R e)"
  unfolding valid_def raises_def by (auto split: prod.splits sum.splits) (metis fst_conv)

section \<open>The probe loop ends\<close>

context timed_world
begin

text \<open>At least \<open>lo\<close> on the clock.\<close>

definition since :: "time \<Rightarrow> 'w bstate \<Rightarrow> bool" where
  "since lo s \<longleftrightarrow> ok (x_world s) \<and> lo \<le> tm (x_world s)"

lemma since_world: "calm ok (\<lambda>w. (boxes w, snaps w)) f \<Longrightarrow> ticks ok tm f \<Longrightarrow> keeps (since lo) (with_world f)"
  by (rule keepsI) (fastforce simp: since_def with_world_def ticks_def case_prod_beta dest: calm_world)

lemma since_step:
  "keeps (since lo) (emit_event ev)" "keeps (since lo) (set_phase ph)" "keeps (since lo) (tell c)"
  unfolding emit_event_def set_phase_def tell_def by (rule keeps_modify, simp add: since_def)+

lemma since_emit_line: "keeps (since lo) (emit_line D ph l)"
  unfolding emit_line_def by (intro keep since_step since_world now_calm now_ticks)

lemma since_emit_lines: "keeps (since lo) (emit_lines D ph ls)"
proof (induction ls)
  case (Cons l ls)
  then show ?case unfolding emit_lines.simps by (intro keep since_emit_line)
qed (simp add: keeps_return)

lemma since_write_pieces: "keeps (since lo) (write_pieces D ph ps)"
proof (induction ps)
  case (Cons p ps)
  then show ?case unfolding write_pieces.simps write_piece_def by (intro keep since_emit_lines)
qed (simp add: keeps_return)

lemma since_app_logs: "keeps (since lo) (app_logs D pid)"
  unfolding app_logs_def by (intro keep since_world logs_calm logs_ticks since_write_pieces)

lemma since_exec_quiet: "keeps (since lo) (exec_quiet D sp)"
  unfolding exec_quiet_def exec_def by (intro keep since_step since_world exec_calm exec_ticks)

lemma clock_step: "valid (since lo) (with_world (bd_Clock D)) (\<lambda>t s. since t s \<and> lo \<le> t) E"
proof (rule validI)
  fix s assume s: "since lo s"
  obtain t w' where c: "bd_Clock D (x_world s) = (t, w')" by fastforce
  have w: "ok (x_world s)" "lo \<le> tm (x_world s)" using s by (simp_all add: since_def)
  from clock_reads [OF w(1)] calmD [OF clock_calm w(1) c] c w(2)
  show "case with_world (bd_Clock D) s of (Inl e, s') \<Rightarrow> E e s' | (Inr t, s) \<Rightarrow> since t s \<and> lo \<le> t"
    by (simp add: with_world_def since_def)
qed

lemma sleep_step: "valid (since lo) (with_world (bd_Sleep D t)) (\<lambda>r s. r = None \<longrightarrow> since (lo + t) s) E"
proof (rule validI)
  fix s assume s: "since lo s"
  obtain r w' where c: "bd_Sleep D t (x_world s) = (r, w')" by fastforce
  have w: "ok (x_world s)" "lo \<le> tm (x_world s)" using s by (simp_all add: since_def)
  from sleep_takes [OF w(1), of t w'] calmD [OF sleep_calm w(1) c] c w(2)
  show "case with_world (bd_Sleep D t) s of (Inl e, s') \<Rightarrow> E e s' | (Inr r, s) \<Rightarrow> r = None \<longrightarrow> since (lo + t) s"
    by (auto simp: with_world_def since_def)
qed

lemma valid_probe_ends:
  assumes "deadline < lo + int n * probe_pause D"
  shows "valid (since lo) (probe_loop (Suc n) D hint pid deadline settle) (\<lambda>_ _. True) (\<lambda>e _. e \<noteq> Diverged)"
  using assms
proof (induction n arbitrary: lo settle)
  case 0
  have late: "valid (\<lambda>s. since t s \<and> lo \<le> t) (if t > deadline then returnS x else f) (\<lambda>_ _. True) E" for t x f E
    using 0 by (cases "lo \<le> t") (simp_all add: valid_def returnS_def)
  show ?case
    unfolding probe_loop.simps Let_def
    apply (rule valid_then, rule keeps_raises, rule since_app_logs, simp add: app_logs_def, intro raise)
    apply (rule valid_bind, rule keeps_raises, rule since_exec_quiet, intro raise)
    apply (rule valid_case_sum, rule raises_valid, rule raise)
    apply (rule valid_if, rule raises_valid, rule raise)
    apply (rule valid_bind, rule clock_step)
    apply (rule late)
    done
next
  case (Suc n)
  have late: "valid (\<lambda>s. since t s \<and> lo \<le> t) (if t > deadline then returnS x else f) (\<lambda>_ _. True) (\<lambda>e _. e \<noteq> Diverged)"
    if "lo \<le> t \<Longrightarrow> valid (since t) f (\<lambda>_ _. True) (\<lambda>e _. e \<noteq> Diverged)" for t x f
    using that by (cases "lo \<le> t") (simp_all add: valid_def returnS_def)
  have again: "valid (since (t + probe_pause D)) (probe_loop (Suc n) D hint pid deadline st)
      (\<lambda>_ _. True) (\<lambda>e _. e \<noteq> Diverged)" if "lo \<le> t" for t st
    using Suc.IH [of "t + probe_pause D" st] Suc.prems that by (simp add: algebra_simps)
  show ?case
    apply (subst probe_loop.simps, simp only: Let_def)
    apply (rule valid_then, rule keeps_raises, rule since_app_logs, simp add: app_logs_def, intro raise)
    apply (rule valid_bind, rule keeps_raises, rule since_exec_quiet, intro raise)
    apply (rule valid_case_sum, rule raises_valid, rule raise)
    apply (rule valid_if, rule raises_valid, rule raise)
    apply (rule valid_bind, rule clock_step)
    apply (rule late)
    apply (rule valid_bind, rule sleep_step)
    apply (rule valid_case_option)
     apply (simp only: simp_thms)
     apply (rule again, assumption)
    apply (rule raises_valid, rule raise)
    done
qed

lemma sane_inv: "step_inv D i (\<lambda>s. ok (x_world s))"
  by (rule step_inv_calm) simp_all

lemma sane_world: "calm ok (\<lambda>w. (boxes w, snaps w)) f \<Longrightarrow> keeps (\<lambda>s. ok (x_world s)) (with_world f)"
  by (rule keepsI) (auto simp: with_world_def case_prod_beta dest: calm_world)

lemma first_clock: "valid (\<lambda>s. ok (x_world s)) (with_world (bd_Clock D)) (\<lambda>t s. since t s) E"
proof (rule validI)
  fix s :: "'w bstate" assume w: "ok (x_world s)"
  obtain t w' where c: "bd_Clock D (x_world s) = (t, w')" by fastforce
  from clock_reads [OF w] calmD [OF clock_calm w c] c
  show "case with_world (bd_Clock D) s of (Inl e, s') \<Rightarrow> E e s' | (Inr t, s) \<Rightarrow> since t s"
    by (simp add: with_world_def since_def)
qed

lemma valid_start_ends:
  assumes n: "bd_ProbeTimeout D < int n * probe_pause D"
  shows "valid (\<lambda>s. ok (x_world s)) (startAndProbe (Suc n) D rcp) (\<lambda>_ _. True) (\<lambda>e _. e \<noteq> Diverged)"
proof (cases "r_start rcp = []")
  case True
  then show ?thesis by (simp add: startAndProbe_def raises_valid raises_return)
next
  case False
  have t: "keeps (\<lambda>s. ok (x_world s)) (tell c)" for c unfolding tell_def by (rule keeps_modify) simp
  have p: "valid (since now) (probe_loop (Suc n) D hint pid (now + bd_ProbeTimeout D) st) (\<lambda>_ _. True) (\<lambda>e _. e \<noteq> Diverged)"
    for now hint pid st
    by (rule valid_probe_ends) (use n in simp)
  show ?thesis
    unfolding startAndProbe_def Let_def if_not_P [OF False]
    apply (rule valid_then, rule keeps_raises, rule step_inv.keeps_line [OF sane_inv], rule raise)
    apply (rule valid_then, rule keeps_raises, rule t, rule raise)
    apply (rule valid_bind, rule keeps_raises, rule keep, rule raise)
    apply (rule valid_bind, rule keeps_raises, rule sane_world, rule start_calm, rule raise)
    apply (rule valid_case_sum, rule raises_valid, rule raise)
    apply (rule valid_bind, rule first_clock)
    apply (rule p)
    done
qed

lemma boxed_sane: "boxed w0 s \<Longrightarrow> ok (x_world s)"
  by (simp add: box_defs)

lemma valid_stage_start_ends:
  assumes n: "bd_ProbeTimeout D < int n * probe_pause D" and r: "commands_ok rcp"
  shows "valid (boxed w0) (stage_start (Suc n) D rcp) (\<lambda>_. boxed w0) (\<lambda>e _. e \<noteq> Diverged)"
proof -
  have "valid (\<lambda>s. ok (x_world s)) (stage_start (Suc n) D rcp) (\<lambda>_ _. True) (\<lambda>e _. e \<noteq> Diverged)"
    unfolding stage_start_def
    apply (rule valid_then, rule keeps_raises, rule step_inv.keeps_set_phase [OF sane_inv], rule raise)
    apply (rule valid_bind, rule keeps_raises)
      apply (intro keep step_inv.keeps_missingTools [OF sane_inv])
      apply (use r in \<open>simp add: commands_ok_def\<close>)
     apply (intro raise)
    apply (rule valid_if, rule raises_valid, rule raise, simp)
    apply (rule valid_bind, rule valid_start_ends [OF n])
    apply (rule raises_valid, intro raise, simp)
    done
  moreover have "valid (boxed w0) (stage_start (Suc n) D rcp) (\<lambda>_. boxed w0) (\<lambda>_. boxed w0)"
    using step_inv.keeps_stage_start [OF boxed_inv r] by (simp add: keeps_valid)
  ultimately show ?thesis using boxed_sane unfolding valid_def by (fastforce split: prod.splits sum.splits)
qed

lemma raises_stages:
  "raises (\<lambda>e. e \<noteq> Diverged) (stage_sandbox D i)" "raises (\<lambda>e. e \<noteq> Diverged) (stage_clone D i)"
  "raises (\<lambda>e. e \<noteq> Diverged) (stage_detect D)" "raises (\<lambda>e. e \<noteq> Diverged) (stage_install D m r)"
  "raises (\<lambda>e. e \<noteq> Diverged) (stage_snapshot D i)" "raises (\<lambda>e. e \<noteq> Diverged) (record_ready D r k p sn)"
  unfolding stage_sandbox_def stage_clone_def stage_detect_def inspect_def find_recipe_def stage_install_def
    install_def stage_snapshot_def record_ready_def exec_logged_def
  by (intro raise; simp)+

lemma pipeline_ends:
  assumes w0: "ok w0" and n: "bd_ProbeTimeout D < int n * probe_pause D"
  shows "valid (before w0) (pipeline (Suc n) D i) (\<lambda>_ _. True) (\<lambda>e _. e \<noteq> Diverged)"
proof -
  note inv = boxed_inv [of i w0]
  show ?thesis
    unfolding pipeline_def
    apply (rule valid_then, rule keeps_raises, rule step_inv.keeps_set_status [OF before_inv], rule raise)
    apply (rule valid_then, rule valid_raises, rule valid_stage_sandbox [OF w0], rule raises_stages)
    apply (rule valid_then, rule keeps_raises, rule step_inv.keeps_stage_clone [OF inv], rule raises_stages)
    apply (rule valid_bind, rule valid_raises, rule step_inv.valid_stage_detect [OF inv], rule raises_stages)
    apply (simp only: split_beta, rule valid_fact)
    apply (rule valid_bind, rule valid_raises, rule step_inv.valid_stage_install [OF inv],
        erule step_inv.recipe_ok_commands [OF inv], rule raises_stages)
    apply (rule valid_fact)
    apply (rule valid_bind, rule valid_stage_start_ends [OF n], assumption)
    apply (simp only: split_beta)
    apply (rule raises_valid, intro raise raises_stages)
    done
qed

end

section \<open>No slice out of range\<close>

lemma valid_split: "valid P f Q E \<Longrightarrow> valid P f Q' E' \<Longrightarrow> valid P f Q E'"
  unfolding valid_def by (fastforce split: prod.splits sum.splits)

lemma golden_name_some:
  "7 \<le> length (in_SHA i) \<Longrightarrow> 6 \<le> length k \<Longrightarrow> unkept k s \<Longrightarrow> golden_name i (x_build s) \<noteq> None"
  by (auto simp: golden_name_def unkept_def)

lemma sandbox_no_panic:
  assumes "7 \<le> length (in_SHA i)" and "6 \<le> length k"
  shows "valid (unkept k) (stage_sandbox D i) (\<lambda>_ _. True) (\<lambda>e _. e \<noteq> Panicked)"
  unfolding stage_sandbox_def Let_def
  apply (rule valid_then, rule keeps_raises, rule unkept.keeps_set_phase, rule raise)
  apply (rule valid_then, rule keeps_raises, rule unkept.keeps_line, rule raise)
  apply (rule valid_bind, rule valid_pre, rule valid_get [where Q = "\<lambda>nm s. unkept k s \<and> nm \<noteq> None"])
   apply (simp add: golden_name_some [OF assms])
  apply (rule valid_fact, rule valid_case_option, simp)
  apply (rule raises_valid, intro raise; simp)
  done

lemma snapshot_no_panic:
  assumes "7 \<le> length (in_SHA i)" and "6 \<le> length k"
  shows "valid (unkept k) (stage_snapshot D i) (\<lambda>_ _. True) (\<lambda>e _. e \<noteq> Panicked)"
  unfolding stage_snapshot_def
  apply (rule valid_then, rule keeps_raises, rule unkept.keeps_set_phase, rule raise)
  apply (rule valid_then, rule keeps_raises, rule unkept.keeps_line, rule raise)
  apply (rule valid_bind, rule valid_pre, rule valid_get [where Q = "\<lambda>p s. unkept k s \<and> fst p \<noteq> None"])
   apply (simp add: golden_name_some [OF assms])
  apply (simp only: split_beta)
  apply (rule valid_fact, rule valid_case_option, simp)
  apply (rule raises_valid, intro raise; simp)
  done

lemma raises_no_panic:
  "raises (\<lambda>e. e \<noteq> Panicked) (stage_clone D i)"
  "raises (\<lambda>e. e \<noteq> Panicked) (stage_detect D)" "raises (\<lambda>e. e \<noteq> Panicked) (stage_install D m r)"
  "raises (\<lambda>e. e \<noteq> Panicked) (record_ready D r kd p sn)"
  unfolding stage_clone_def stage_detect_def inspect_def find_recipe_def stage_install_def
    install_def record_ready_def exec_logged_def
  by (intro raise; simp)+

lemma probe_no_panic: "raises (\<lambda>e. e \<noteq> Panicked) (probe_loop n D hint pid deadline settle)"
proof (induction n arbitrary: settle)
  case (Suc n)
  then show ?case unfolding probe_loop.simps app_logs_def by (intro raise)
qed (simp add: raises_throw)

lemma start_no_panic: "raises (\<lambda>e. e \<noteq> Panicked) (stage_start n D r)"
  unfolding stage_start_def startAndProbe_def by (intro raise probe_no_panic; simp)

lemma pipeline_no_panic:
  assumes "7 \<le> length (in_SHA i)" and "6 \<le> length k"
  shows "valid (unkept k) (pipeline n D i) (\<lambda>_ _. True) (\<lambda>e _. e \<noteq> Panicked)"
proof -
  note s = unkept_stage_sandbox [unfolded keeps_valid]
  show ?thesis
    unfolding pipeline_def
    apply (rule valid_then, rule keeps_raises, rule unkept.keeps_set_status, rule raise)
    apply (rule valid_then, rule valid_split [OF s sandbox_no_panic [OF assms]])
    apply (rule valid_then, rule keeps_raises, rule unkept.keeps_stage_clone, rule raises_no_panic)
    apply (rule valid_bind, rule valid_raises, rule unkept.valid_stage_detect, rule raises_no_panic)
    apply (simp only: split_beta, rule valid_fact)
    apply (rule valid_bind, rule valid_raises, rule unkept.valid_stage_install,
        erule unkept.recipe_ok_commands, rule raises_no_panic)
    apply (rule valid_fact)
    apply (rule valid_bind, rule valid_raises, rule unkept.valid_stage_start, assumption, rule start_no_panic)
    apply (simp only: split_beta, rule valid_fact)
    apply (rule valid_bind, rule snapshot_no_panic [OF assms])
    apply (rule raises_valid, rule raises_no_panic)
    done
qed

text \<open>With a shorter commit or identifier the name of the sandbox cannot be made.\<close>

lemma execute_short:
  assumes "\<not> (7 \<le> length (in_SHA i) \<and> 6 \<le> length (b_ID b))"
  shows "fst (execute n D i (start_state w b runs)) = Crashed"
proof -
  let ?s = "snd (set_status D BuildBuilding (start_state w b runs))"
  let ?t = "snd (line D ''creating build sandbox'' (snd (set_phase ''sandbox'' ?s)))"
  have "x_build ?t = b\<lparr>b_Status := BuildBuilding\<rparr>"
    by (simp add: line_result set_phase_result set_status_result start_state_def)
  then have g: "golden_name i (x_build ?t) = None" using assms by (auto simp: golden_name_def)
  have "pipeline n D i (start_state w b runs) = (Inl Panicked, ?t)"
    unfolding pipeline_def then_Inr [OF set_status_result(1)] stage_sandbox_def
    by (simp add: thenS_def [of "thenS _ _"] bindS_def [of "thenS _ _"] then_Inr [OF set_phase_result(1)]
        then_Inr [OF line_result(1)], simp add: monad_defs g)
  then show ?thesis by (simp add: execute_def)
qed

context timed_world
begin

lemma execute_returns:
  assumes w0: "ok w0" and n: "bd_ProbeTimeout D < int n * probe_pause D"
    and "7 \<le> length (in_SHA i)" and "6 \<le> length (b_ID b)"
  shows "fst (execute (Suc n) D i (start_state w0 b runs)) = Returned"
proof -
  let ?s = "start_state w0 b runs"
  obtain r s1 where p: "pipeline (Suc n) D i ?s = (r, s1)" by fastforce
  have b: "before w0 ?s" "unkept (b_ID b) ?s" using w0 by (simp_all add: before_box_def unkept_def start_state_def)
  show ?thesis
  proof (cases r)
    case (Inl e)
    with valid_Inl [OF pipeline_ends [OF w0 n] b(1)] valid_Inl [OF pipeline_no_panic [OF assms(3,4)] b(2)] p
    have "e \<noteq> Diverged" "e \<noteq> Panicked" by blast+
    then show ?thesis using p Inl by (cases e) (simp_all add: execute_def)
  qed (simp add: execute_def p)
qed

end

section \<open>The surroundings of the tests\<close>

definition world_time :: "'a world_scheme \<Rightarrow> time" where
  "world_time w = h_clock (mw_host w) (h_now (mw_host w))"

definition world_clock :: "'a world_scheme \<Rightarrow> time \<times> 'a world_scheme" where
  "world_clock w = (case time_Now (mw_host w) of (now, h) \<Rightarrow> (now, w\<lparr>mw_host := h\<rparr>))"

text \<open>A pause moves every later reading of the clock.\<close>

definition world_sleep :: "time \<Rightarrow> 'a world_scheme \<Rightarrow> error option \<times> 'a world_scheme" where
  "world_sleep t w =
    (let h = mw_host w in (None, w\<lparr>mw_host := h\<lparr>h_clock := (\<lambda>n. h_clock h n + t)\<rparr>\<rparr>))"

text \<open>The model answers from the prompts alone, or is absent.\<close>

definition fake_builder ::
  "codec \<Rightarrow> (string \<Rightarrow> string \<Rightarrow> string result) option \<Rightarrow> 'a world_scheme builder" where
  "fake_builder cd ans =
    \<lparr>bd_Sandbox = fake_client, bd_Store = memory_store, bd_LLM = map_option (\<lambda>f sys usr w. (f sys usr, w)) ans,
     bd_ProbeTimeout = probeTimeout, bd_Now = world_clock, bd_Clock = world_clock, bd_Sleep = world_sleep,
     bd_codec = cd, bd_Inspector = []\<rparr>"

lemma world_calm:
  "calm world_ok (\<lambda>w. (fake_boxes w, fake_snaps w)) world_clock"
  "calm world_ok (\<lambda>w. (fake_boxes w, fake_snaps w)) (world_sleep t)"
  "calm world_ok (\<lambda>w. (fake_boxes w, fake_snaps w)) (so_UpdateBuild memory_store b)"
  by (auto simp: calm_def world_clock_def world_sleep_def time_Now_def world_ok_def fake_boxes_def fake_snaps_def
      Let_def memory_store_def with_now_def with_mem_def mono_def split: prod.split)

lemma fake_ticks:
  "ticks ok world_time (cl_Exec fake_client sb sp)" "ticks ok world_time (cl_Logs fake_client sb pid)"
  by (simp_all add: ticks_def world_time_def fake_client_def with_fake_def split: prod.split)

lemma fake_builder_sels [simp]:
  "bd_Sandbox (fake_builder cd ans) = fake_client" "bd_Store (fake_builder cd ans) = memory_store"
  "bd_Now (fake_builder cd ans) = world_clock" "bd_Clock (fake_builder cd ans) = world_clock"
  "bd_Sleep (fake_builder cd ans) = world_sleep" "bd_ProbeTimeout (fake_builder cd ans) = probeTimeout"
  by (simp_all add: fake_builder_def)

lemma fake_llm_calm:
  "bd_LLM (fake_builder cd ans) = Some f \<Longrightarrow> calm ok view (f sys usr)"
  by (auto simp: fake_builder_def calm_def)

lemma fake_time:
  "world_ok w \<Longrightarrow> world_time w \<le> fst (world_clock w) \<and> fst (world_clock w) \<le> world_time (snd (world_clock w))"
  "world_sleep t w = (None, w') \<Longrightarrow> world_time w + t \<le> world_time w'"
  "ticks world_ok world_time world_clock"
  by (auto simp: world_clock_def time_Now_def world_ok_def world_sleep_def world_time_def Let_def ticks_def monoD)

interpretation fake_world: timed_world "fake_builder cd ans" world_ok fake_boxes fake_snaps world_time for cd ans
proof -
  have "platform (bd_Sandbox (fake_builder cd ans)) world_ok fake_boxes fake_snaps"
    using fakes.platform_axioms by simp
  then show "timed_world (fake_builder cd ans) world_ok fake_boxes fake_snaps world_time"
    by (intro timed_world.intro build_world.intro timed_world_axioms.intro build_world_axioms.intro)
      (simp_all add: world_calm fake_llm_calm fake_time fake_ticks)
qed

section \<open>The properties\<close>

text \<open>
  C8: On every platform that keeps its contract, a build that returns and is not ready leaves exactly the
  sandboxes and the snapshots of before; a ready one leaves besides one sandbox, the golden one of its
  record, and one snapshot, the one of its record, which that sandbox owns.
\<close>

theorem build_leaves_no_sandbox:
  assumes "build_world D ok boxes snaps" and "ok w" and "execute fuel D i (start_state w b runs) = (Returned, s)"
  shows "if b_Status (x_build s) = BuildReady
    then \<exists>sn. boxes w (b_Golden (x_build s)) = None \<and>
      dom (boxes (x_world s)) = insert (b_Golden (x_build s)) (dom (boxes w)) \<and>
      snaps w (b_SnapshotID (x_build s)) = None \<and> sn_SandboxID sn = b_Golden (x_build s) \<and>
      snaps (x_world s) = (snaps w)(b_SnapshotID (x_build s) \<mapsto> sn)
    else dom (boxes (x_world s)) = dom (boxes w) \<and> snaps (x_world s) = snaps w"
proof -
  have "before_box ok boxes snaps w (start_state w b runs)" using assms(2) by (simp add: before_box_def start_state_def)
  from build_world.execute_world [OF assms(1,2) this assms(3)] show ?thesis
    by (auto simp: golden_kept_def own_box_def Let_def)
qed

definition demo_world :: world where
  "demo_world = \<lparr>mw_mem = NewMemory,
    mw_host = \<lparr>h_clock = int, h_rand = (\<lambda>n. ''r''), h_now = 0, h_id = 0\<rparr>, wd_fake = NewFake\<rparr>"

lemma demo_world_ok: "world_ok demo_world"
  by (simp add: demo_world_def world_ok_def NewFake_ok mono_def)

lemma probe_pauses: "bd_ProbeTimeout (fake_builder cd ans) < int 46 * probe_pause (fake_builder cd ans)"
  by (simp add: probe_pause_def probeTimeout_def Second_def Millisecond_def)

theorem build_leaves_no_sandbox_witness:
  "\<exists>s. execute (Suc 46) (fake_builder demo_codec None) demo_info (start_state demo_world demo_queued []) = (Returned, s) \<and>
    (b_Status (x_build s) = BuildReady \<or> dom (fake_boxes (x_world s)) = {})"
proof -
  let ?s = "start_state demo_world demo_queued []"
  obtain s where s: "execute (Suc 46) (fake_builder demo_codec None) demo_info ?s = (Returned, s)"
    using fake_world.execute_returns [OF demo_world_ok probe_pauses, of demo_info demo_queued demo_codec None "[]"]
    by (cases "execute (Suc 46) (fake_builder demo_codec None) demo_info ?s") (simp add: demo_info_def demo_queued_def)
  have "dom (fake_boxes demo_world) = {}" by (simp add: demo_world_def fake_boxes_def NewFake_def)
  with s build_leaves_no_sandbox [OF fake_world.build_world_axioms demo_world_ok s] show ?thesis
    by (auto split: if_splits)
qed

text \<open>
  C19: No build hangs. On a platform that keeps its laws, when the clock does not go back and a pause takes its time, a number of turns
  of the probe loop whose pauses exceed the probe timeout is enough for the whole execution. It returns when
  the commit has at least seven and the identifier at least six characters; with fewer it ends at once in
  the panic of the slices that make the sandbox's name, and never in any other case.
\<close>

theorem build_returns:
  assumes "timed_world D ok boxes snaps tm" and "ok w" and "bd_ProbeTimeout D < int n * probe_pause D"
  shows "fst (execute (Suc n) D i (start_state w b runs)) =
    (if 7 \<le> length (in_SHA i) \<and> 6 \<le> length (b_ID b) then Returned else Crashed)"
  using timed_world.execute_returns [OF assms, of i b runs] execute_short [of i b "Suc n" D w runs] by auto

theorem build_returns_witness:
  "fst (execute 47 (fake_builder demo_codec None) demo_info (start_state demo_world demo_queued [])) = Returned"
proof -
  have "7 \<le> length (in_SHA demo_info)" "6 \<le> length (b_ID demo_queued)" by (simp_all add: demo_info_def demo_queued_def)
  with build_returns [OF fake_world.timed_world_axioms demo_world_ok probe_pauses] show ?thesis by simp
qed

end
