(* ===== verification/Builder_Hub.thy ===== *)
theory Builder_Hub
  imports Builder_Returns
begin

text \<open>
  The shared side of \<open>internal/builder/builder.go\<close>: \<open>init\<close>, \<open>Ensure\<close>, \<open>start\<close>, \<open>Subscribe\<close>, the map of
  runs and the semaphore. Each call of \<open>Ensure\<close> runs under the mutex and is one step; executions,
  other writers of builds and restarts of the process interleave with it.
\<close>

section \<open>The state\<close>

text \<open>\<open>hb_runs\<close> is the map of runs, \<open>hb_active\<close> the runs that hold a token of the semaphore.\<close>

record 'w hub =
  hb_world :: 'w
  hb_runs :: "(string, build \<times> bevent log) gomap"
  hb_active :: "string list"

text \<open>\<open>init\<close>: the capacity of the semaphore and the probe timeout.\<close>

definition sem_cap :: "int \<Rightarrow> int" where
  "sem_cap concurrency = (if concurrency < 1 then 5 else concurrency)"

definition init_probe_timeout :: "time \<Rightarrow> time" where
  "init_probe_timeout t = (if t = 0 then probeTimeout else t)"

definition settled_status :: "string \<Rightarrow> bool" where
  "settled_status st \<longleftrightarrow> st = BuildReady \<or> st = BuildFailed \<or> st = BuildUnsupported"

section \<open>The operations\<close>

definition start :: "build \<Rightarrow> 'w hub \<Rightarrow> 'w hub" where
  "start bld h = h\<lparr>hb_runs := map_put (b_ID bld) (bld, New) (hb_runs h)\<rparr>"

definition new_build :: "info \<Rightarrow> time \<Rightarrow> time \<Rightarrow> build" where
  "new_build i created visited =
    no_build\<lparr>b_Owner := ref_Owner (in_Ref i), b_Repo := ref_Name (in_Ref i), b_SHA := in_SHA i,
      b_Status := BuildQueued, b_CreatedAt := created, b_LastVisitAt := visited\<rparr>"

definition Ensure :: "'w builder \<Rightarrow> info \<Rightarrow> 'w hub \<Rightarrow> build result \<times> 'w hub" where
  "Ensure D i h =
    (case so_GetBuildBySHA (bd_Store D) (ref_Owner (in_Ref i)) (ref_Name (in_Ref i)) (in_SHA i) (hb_world h) of
       (Inr existing, w) \<Rightarrow>
         if map_of (hb_runs h) (b_ID existing) \<noteq> None \<or> settled_status (b_Status existing)
         then (Inr existing, h\<lparr>hb_world := w\<rparr>)
         else
           (case so_UpdateBuild (bd_Store D) (existing\<lparr>b_Status := BuildQueued\<rparr>) w of
              ((b', Some e), w') \<Rightarrow> (Inl e, h\<lparr>hb_world := w'\<rparr>)
            | ((b', None), w') \<Rightarrow> (Inr b', start b' (h\<lparr>hb_world := w'\<rparr>)))
     | (Inl e, w) \<Rightarrow>
         if \<not> errors_Is e ErrStoreNotFound then (Inl e, h\<lparr>hb_world := w\<rparr>)
         else
           (case bd_Now D w of (created, w1) \<Rightarrow>
           (case bd_Now D w1 of (visited, w2) \<Rightarrow>
           (case so_CreateBuild (bd_Store D) (new_build i created visited) w2 of
              (Inl e', w3) \<Rightarrow> (Inl e', h\<lparr>hb_world := w3\<rparr>)
            | (Inr b', w3) \<Rightarrow> (Inr b', start b' (h\<lparr>hb_world := w3\<rparr>))))))"

text \<open>
  \<open>Subscribe\<close>: the live log of a run, or for a build that has none the events made of its record, in
  the order in which they are sent before the channel closes.
\<close>

definition stored_events :: "build \<Rightarrow> bevent list" where
  "stored_events b =
    map (log_event (b_UpdatedAt b) [])
      (filter (\<lambda>l. l \<noteq> []) (SplitByte (CHR 0x0A) (TrimRightByte (CHR 0x0A) (b_Log b)))) @
    [status_event (b_UpdatedAt b) b]"

datatype stream = LiveLog "bevent log" | Stored "bevent list"

definition builder_Subscribe :: "'w builder \<Rightarrow> string \<Rightarrow> 'w hub \<Rightarrow> stream result \<times> 'w hub" where
  "builder_Subscribe D k h =
    (case map_of (hb_runs h) k of
       Some (_, l) \<Rightarrow> (Inr (LiveLog l), h)
     | None \<Rightarrow>
         (case so_GetBuild (bd_Store D) k (hb_world h) of
            (Inl e, w) \<Rightarrow> (Inl e, h\<lparr>hb_world := w\<rparr>)
          | (Inr b, w) \<Rightarrow> (Inr (Stored (stored_events b)), h\<lparr>hb_world := w\<rparr>)))"

text \<open>A run takes a token, and at its end leaves the map and gives the token back.\<close>

definition acquire :: "int \<Rightarrow> string \<Rightarrow> 'w hub \<Rightarrow> 'w hub option" where
  "acquire cap k h =
    (if int (length (hb_active h)) < cap then Some (h\<lparr>hb_active := hb_active h @ [k]\<rparr>) else None)"

definition finish_run :: "string \<Rightarrow> 'w hub \<Rightarrow> 'w hub" where
  "finish_run k h = h\<lparr>hb_runs := map_del k (hb_runs h)\<rparr>"

definition release :: "string \<Rightarrow> 'w hub \<Rightarrow> 'w hub" where
  "release k h = h\<lparr>hb_active := remove1 k (hb_active h)\<rparr>"

section \<open>Interleavings\<close>

text \<open>
  What happens to the shared state over the in-process store: calls of \<open>Ensure\<close>, writers that keep the
  commit of a build (executions and sessions, also with stale copies), visits, tokens, ends of runs, and
  a restart of the process.
\<close>

definition commit_of :: "build \<Rightarrow> string \<times> string \<times> string" where
  "commit_of b = (b_Owner b, b_Repo b, b_SHA b)"

definition info_commit :: "info \<Rightarrow> string \<times> string \<times> string" where
  "info_commit i = (ref_Owner (in_Ref i), ref_Name (in_Ref i), in_SHA i)"

inductive hub_step :: "'a mworld_scheme builder \<Rightarrow> int \<Rightarrow> 'a mworld_scheme hub \<Rightarrow> 'a mworld_scheme hub \<Rightarrow> bool"
  for D cap where
  ensure: "Ensure D i h = (r, h') \<Longrightarrow> hub_step D cap h h'"
| overwrite: "stored_builds (hb_world h) (b_ID b) = Some cur \<Longrightarrow> commit_of b = commit_of cur \<Longrightarrow>
    so_UpdateBuild (bd_Store D) b (hb_world h) = (r, w) \<Longrightarrow> hub_step D cap h (h\<lparr>hb_world := w\<rparr>)"
| visit: "so_RecordVisit (bd_Store D) k at (hb_world h) = (r, w) \<Longrightarrow> hub_step D cap h (h\<lparr>hb_world := w\<rparr>)"
| begins: "map_of (hb_runs h) k \<noteq> None \<Longrightarrow> acquire cap k h = Some h' \<Longrightarrow> hub_step D cap h h'"
| ends: "k \<in> set (hb_active h) \<Longrightarrow> hub_step D cap h (finish_run k h)"
| returns: "k \<in> set (hb_active h) \<Longrightarrow> hub_step D cap h (release k h)"
| restart: "hub_step D cap h (h\<lparr>hb_runs := [], hb_active := []\<rparr>)"

inductive hub_reach :: "'a mworld_scheme builder \<Rightarrow> int \<Rightarrow> 'a mworld_scheme \<Rightarrow> 'a mworld_scheme hub \<Rightarrow> bool"
  for D cap w0 where
  init: "hub_reach D cap w0 \<lparr>hb_world = w0, hb_runs = [], hb_active = []\<rparr>"
| step: "hub_reach D cap w0 h \<Longrightarrow> hub_step D cap h h' \<Longrightarrow> hub_reach D cap w0 h'"

section \<open>The invariant\<close>

text \<open>The identifiers in the store come from the host, and no commit is stored twice.\<close>

definition builds_ok :: "host \<Rightarrow> (string \<Rightarrow> build option) \<Rightarrow> bool" where
  "builds_ok host B \<longleftrightarrow>
    (\<forall>k b. B k = Some b \<longrightarrow> b_ID b = k \<and> (\<exists>j < h_id host. k = NewID (h_rand host j))) \<and>
    (\<forall>k b k' b'. B k = Some b \<longrightarrow> B k' = Some b' \<longrightarrow> commit_of b = commit_of b' \<longrightarrow> k = k')"

definition runs_ok :: "(string \<Rightarrow> (build \<times> bevent log) option) \<Rightarrow> (string \<Rightarrow> build option) \<Rightarrow> bool" where
  "runs_ok R B \<longleftrightarrow>
    (\<forall>k b l. R k = Some (b, l) \<longrightarrow> b_ID b = k \<and> (\<exists>cur. B k = Some cur \<and> commit_of cur = commit_of b))"

definition hub_ok :: "int \<Rightarrow> 'a mworld_scheme hub \<Rightarrow> bool" where
  "hub_ok cap h \<longleftrightarrow>
    inj (h_rand (mw_host (hb_world h))) \<and> memory_ok (mw_mem (hb_world h)) \<and>
    builds_ok (mw_host (hb_world h)) (stored_builds (hb_world h)) \<and>
    runs_ok (map_of (hb_runs h)) (stored_builds (hb_world h)) \<and> wf_map (hb_runs h) \<and> int (length (hb_active h)) \<le> cap"

lemma builds_ok_fresh: "builds_ok host B \<Longrightarrow> inj (h_rand host) \<Longrightarrow> B (NewID (h_rand host (h_id host))) = None"
proof (rule ccontr)
  assume b: "builds_ok host B" "inj (h_rand host)" "B (NewID (h_rand host (h_id host))) \<noteq> None"
  then obtain b' where "B (NewID (h_rand host (h_id host))) = Some b'" by blast
  with b(1) obtain j where "j < h_id host" "NewID (h_rand host (h_id host)) = NewID (h_rand host j)"
    unfolding builds_ok_def by blast
  with b(2) show False by (metis NewID_inj injD less_irrefl)
qed

lemma builds_ok_new:
  assumes "builds_ok host B" and "\<forall>k b'. B k = Some b' \<longrightarrow> commit_of b' \<noteq> commit_of b"
    and "b_ID b = NewID (h_rand host (h_id host))" and "h_rand host' = h_rand host" "h_id host' = Suc (h_id host)"
  shows "builds_ok host' (B(b_ID b \<mapsto> b))"
  using assms(1,2) unfolding builds_ok_def assms(3-5) by (auto simp: less_Suc_eq assms(3)) metis+

lemma builds_ok_update:
  "builds_ok host B \<Longrightarrow> B k = Some cur \<Longrightarrow> b_ID b = k \<Longrightarrow> commit_of b = commit_of cur \<Longrightarrow>
    h_rand host' = h_rand host \<Longrightarrow> h_id host' = h_id host \<Longrightarrow> builds_ok host' (B(k \<mapsto> b))"
  unfolding builds_ok_def by (auto split: if_splits)

lemma runs_ok_grow:
  "runs_ok R B \<Longrightarrow> (\<And>cur. B k = Some cur \<Longrightarrow> commit_of cur = commit_of b) \<Longrightarrow> runs_ok R (B(k \<mapsto> b))"
  by (fastforce simp: runs_ok_def)

lemma runs_ok_start: "runs_ok R B \<Longrightarrow> B (b_ID b) = Some cur \<Longrightarrow> commit_of cur = commit_of b \<Longrightarrow> runs_ok (R(b_ID b \<mapsto> (b, l))) B"
  by (auto simp: runs_ok_def)

lemma runs_ok_del: "runs_ok R B \<Longrightarrow> runs_ok (R(k := None)) B"
  by (auto simp: runs_ok_def)

lemma find_commit:
  "case fst (GetBuildBySHA ow rp sha m) of
     Inl e \<Rightarrow> e = ErrStoreNotFound \<and> (\<forall>k b. map_of (mm_builds m) k = Some b \<longrightarrow> commit_of b \<noteq> (ow, rp, sha))
   | Inr b \<Rightarrow> memory_ok m \<longrightarrow> map_of (mm_builds m) (b_ID b) = Some b \<and> commit_of b = (ow, rp, sha)"
proof (cases "List.find (\<lambda>(_, b). b_Owner b = ow \<and> b_Repo b = rp \<and> b_SHA b = sha) (mm_builds m)")
  case None
  then have "\<forall>k b. (k, b) \<in> set (mm_builds m) \<longrightarrow> commit_of b \<noteq> (ow, rp, sha)" by (auto simp: find_None_iff commit_of_def)
  then show ?thesis using None by (auto simp: GetBuildBySHA_def dest!: map_of_SomeD)
next
  case (Some kb)
  obtain k b where kb: "kb = (k, b)" by (cases kb)
  with Some have "(k, b) \<in> set (mm_builds m)" "commit_of b = (ow, rp, sha)"
    by (auto simp: commit_of_def dest!: find_SomeD)
  then show ?thesis using Some kb by (auto simp: GetBuildBySHA_def memory_ok_def wf_map_in_iff list_all_iff)
qed

section \<open>The store under the steps\<close>

text \<open>The identifiers that the host has given out and will give out.\<close>

definition same_ids :: "'a mworld_scheme \<Rightarrow> 'a mworld_scheme \<Rightarrow> bool" where
  "same_ids w w' \<longleftrightarrow> h_rand (mw_host w') = h_rand (mw_host w) \<and> h_id (mw_host w') = h_id (mw_host w)"

lemma update_stored:
  assumes "memory_ok (mw_mem w)" and "stored_builds w (b_ID b) = Some cur"
  shows "\<exists>b' w'. so_UpdateBuild memory_store b w = ((b', None), w') \<and> b_ID b' = b_ID b \<and> commit_of b' = commit_of b \<and>
    b_Status b' = b_Status b \<and>
    stored_builds w' = (stored_builds w)(b_ID b \<mapsto> b') \<and> same_ids w w' \<and> memory_ok (mw_mem w')"
proof -
  let ?now = "h_clock (mw_host w) (h_now (mw_host w))"
  obtain b' m' where u: "UpdateBuild ?now b (mw_mem w) = ((b', None), m')" "b_ID b' = b_ID b" "commit_of b' = commit_of b"
    "b_Status b' = b_Status b" "map_of (mm_builds m') = (map_of (mm_builds (mw_mem w)))(b_ID b \<mapsto> b')"
    using assms(2) by (auto simp: UpdateBuild_def stored_builds_def Let_def commit_of_def)
  have "memory_ok m'" using store_step_ok [OF assms(1), of "CUpdateBuild ?now b"] u(1) by simp
  with u show ?thesis
    by (simp add: memory_store_def with_now_def with_mem_def time_Now_def stored_builds_def same_ids_def)
qed

lemma visit_stored:
  assumes "memory_ok (mw_mem w)" and "so_RecordVisit memory_store k at w = (r, w')"
  shows "same_ids w w' \<and> memory_ok (mw_mem w') \<and>
    (stored_builds w' = stored_builds w \<or>
     (\<exists>cur b. stored_builds w k = Some cur \<and> b_ID b = b_ID cur \<and> commit_of b = commit_of cur \<and> stored_builds w' = (stored_builds w)(k \<mapsto> b)))"
proof -
  obtain m' where m: "RecordVisit k at (mw_mem w) = (r, m')" "w' = w\<lparr>mw_mem := m'\<rparr>"
    using assms(2) by (auto simp: memory_store_def with_mem_def split: prod.splits)
  have "memory_ok m'" using store_step_ok [OF assms(1), of "CRecordVisit k at"] m(1) by simp
  moreover have "stored_builds w' = stored_builds w \<or>
     (\<exists>cur b. stored_builds w k = Some cur \<and> b_ID b = b_ID cur \<and> commit_of b = commit_of cur \<and> stored_builds w' = (stored_builds w)(k \<mapsto> b))"
  proof (cases "stored_builds w k")
    case None
    with m show ?thesis by (auto simp: RecordVisit_def stored_builds_def)
  next
    case (Some cur)
    let ?b = "cur\<lparr>b_Visits := b_Visits cur + 1, b_LastVisitAt := at\<rparr>"
    have "stored_builds w' = (stored_builds w)(k \<mapsto> ?b)" using m Some by (auto simp: RecordVisit_def stored_builds_def)
    moreover have "b_ID ?b = b_ID cur" "commit_of ?b = commit_of cur" by (simp_all add: commit_of_def)
    ultimately show ?thesis using Some by blast
  qed
  ultimately show ?thesis using m(2) by (simp add: same_ids_def)
qed

lemma create_stored:
  assumes "memory_ok (mw_mem w)" and "b_ID b = []"
  shows "\<exists>b' w'. so_CreateBuild memory_store b w = (Inr b', w') \<and> b_ID b' = NewID (h_rand (mw_host w) (h_id (mw_host w))) \<and>
    commit_of b' = commit_of b \<and> b_Status b' = b_Status b \<and> stored_builds w' = (stored_builds w)(b_ID b' \<mapsto> b') \<and>
    h_rand (mw_host w') = h_rand (mw_host w) \<and> h_id (mw_host w') = Suc (h_id (mw_host w)) \<and> memory_ok (mw_mem w')"
proof -
  let ?now = "h_clock (mw_host w) (h_now (mw_host w))" and ?id = "NewID (h_rand (mw_host w) (h_id (mw_host w)))"
  obtain b' m' where c: "CreateBuild ?now ?id b (mw_mem w) = (Inr b', m')" "b_ID b' = ?id" "commit_of b' = commit_of b"
    "b_Status b' = b_Status b" "map_of (mm_builds m') = (map_of (mm_builds (mw_mem w)))(b_ID b' \<mapsto> b')"
    using assms(2) by (auto simp: CreateBuild_def Let_def commit_of_def)
  have "memory_ok m'" using store_step_ok [OF assms(1), of "CCreateBuild ?now ?id b"] c(1) by simp
  with c show ?thesis
    by (simp add: memory_store_def with_id_def with_now_def with_mem_def new_id_def time_Now_def stored_builds_def)
qed

section \<open>What Ensure does\<close>

locale hub_builder =
  fixes D :: "'a mworld_scheme builder"
  assumes store: "bd_Store D = memory_store"
    and now_quiet: "mw_mem (snd (bd_Now D w)) = mw_mem w \<and> same_ids w (snd (bd_Now D w))"
begin

text \<open>The build is found running or settled; or found stale, and started again; or made and started.\<close>

definition found :: "info \<Rightarrow> 'a mworld_scheme hub \<Rightarrow> build \<Rightarrow> 'a mworld_scheme hub \<Rightarrow> bool" where
  "found i h b h' \<longleftrightarrow>
    stored_builds (hb_world h) (b_ID b) = Some b \<and> h' = h \<and>
    (map_of (hb_runs h) (b_ID b) \<noteq> None \<or> settled_status (b_Status b))"

definition restarted :: "info \<Rightarrow> 'a mworld_scheme hub \<Rightarrow> build \<Rightarrow> 'a mworld_scheme hub \<Rightarrow> bool" where
  "restarted i h b h' \<longleftrightarrow>
    (\<exists>cur w. stored_builds (hb_world h) (b_ID b) = Some cur \<and> commit_of cur = info_commit i \<and>
       map_of (hb_runs h) (b_ID b) = None \<and> b_Status b = BuildQueued \<and>
       stored_builds w = (stored_builds (hb_world h))(b_ID b \<mapsto> b) \<and> same_ids (hb_world h) w \<and>
       memory_ok (mw_mem w) \<and> h' = start b (h\<lparr>hb_world := w\<rparr>))"

definition created :: "info \<Rightarrow> 'a mworld_scheme hub \<Rightarrow> build \<Rightarrow> 'a mworld_scheme hub \<Rightarrow> bool" where
  "created i h b h' \<longleftrightarrow>
    (\<exists>w. (\<forall>k b'. stored_builds (hb_world h) k = Some b' \<longrightarrow> commit_of b' \<noteq> info_commit i) \<and>
       b_ID b = NewID (h_rand (mw_host (hb_world h)) (h_id (mw_host (hb_world h)))) \<and> b_Status b = BuildQueued \<and>
       stored_builds w = (stored_builds (hb_world h))(b_ID b \<mapsto> b) \<and>
       h_rand (mw_host w) = h_rand (mw_host (hb_world h)) \<and> h_id (mw_host w) = Suc (h_id (mw_host (hb_world h))) \<and>
       memory_ok (mw_mem w) \<and> h' = start b (h\<lparr>hb_world := w\<rparr>))"

lemma Ensure_result:
  assumes ok: "hub_ok cap h" and e: "Ensure D i h = (r, h')"
  shows "\<exists>b. r = Inr b \<and> commit_of b = info_commit i \<and> (found i h b h' \<or> restarted i h b h' \<or> created i h b h')"
proof -
  let ?w = "hb_world h"
  let ?find = "GetBuildBySHA (ref_Owner (in_Ref i)) (ref_Name (in_Ref i)) (in_SHA i) (mw_mem ?w)"
  have m: "memory_ok (mw_mem ?w)" using ok by (simp add: hub_ok_def)
  have g: "so_GetBuildBySHA memory_store (ref_Owner (in_Ref i)) (ref_Name (in_Ref i)) (in_SHA i) ?w = (fst ?find, ?w)"
    by (simp add: memory_store_def with_mem_def GetBuildBySHA_def)
  note f = find_commit [where ow = "ref_Owner (in_Ref i)" and rp = "ref_Name (in_Ref i)" and sha = "in_SHA i" and m = "mw_mem ?w"]
  show ?thesis
  proof (cases "fst ?find")
    case (Inr cur)
    then have cur: "stored_builds ?w (b_ID cur) = Some cur" "commit_of cur = info_commit i"
      using f m by (simp_all add: stored_builds_def info_commit_def)
    show ?thesis
    proof (cases "map_of (hb_runs h) (b_ID cur) \<noteq> None \<or> settled_status (b_Status cur)")
      case True
      then have "r = Inr cur" "h' = h" using e by (simp_all add: Ensure_def store g Inr)
      with True cur show ?thesis by (auto simp: found_def)
    next
      case False
      let ?q = "cur\<lparr>b_Status := BuildQueued\<rparr>"
      obtain b' w' where u: "so_UpdateBuild memory_store ?q ?w = ((b', None), w')" "b_ID b' = b_ID cur"
        "commit_of b' = info_commit i" "b_Status b' = BuildQueued"
        "stored_builds w' = (stored_builds ?w)(b_ID cur \<mapsto> b')" "same_ids ?w w'" "memory_ok (mw_mem w')"
        using update_stored [OF m, of ?q cur] cur by (auto simp: commit_of_def)
      have "r = Inr b'" "h' = start b' (h\<lparr>hb_world := w'\<rparr>)" using e False by (simp_all add: Ensure_def store g Inr u(1))
      moreover have "map_of (hb_runs h) (b_ID b') = None" using False u(2) by (cases "map_of (hb_runs h) (b_ID cur)") auto
      ultimately have "restarted i h b' h'" using u cur by (auto simp: restarted_def)
      with u(3) \<open>r = Inr b'\<close> show ?thesis by blast
    qed
  next
    case (Inl err)
    then have none: "err = ErrStoreNotFound" "\<forall>k b'. stored_builds ?w k = Some b' \<longrightarrow> commit_of b' \<noteq> info_commit i"
      using f by (simp_all add: stored_builds_def info_commit_def)
    obtain t1 w1 t2 w2 where n: "bd_Now D ?w = (t1, w1)" "bd_Now D w1 = (t2, w2)" by (metis prod.collapse)
    have w2: "mw_mem w2 = mw_mem ?w" "same_ids ?w w2"
      using now_quiet [of ?w] now_quiet [of w1] by (simp_all add: n same_ids_def)
    let ?n = "new_build i t1 t2"
    have nb: "b_ID ?n = []" "commit_of ?n = info_commit i" "b_Status ?n = BuildQueued"
      by (simp_all add: new_build_def no_build_def commit_of_def info_commit_def)
    obtain b' w3 where c: "so_CreateBuild memory_store ?n w2 = (Inr b', w3)"
      "b_ID b' = NewID (h_rand (mw_host ?w) (h_id (mw_host ?w)))" "commit_of b' = info_commit i" "b_Status b' = BuildQueued"
      "stored_builds w3 = (stored_builds ?w)(b_ID b' \<mapsto> b')" "h_rand (mw_host w3) = h_rand (mw_host ?w)"
      "h_id (mw_host w3) = Suc (h_id (mw_host ?w))" "memory_ok (mw_mem w3)"
      using create_stored [of w2 ?n] m w2 nb by (auto simp: same_ids_def stored_builds_def)
    have "r = Inr b'" "h' = start b' (h\<lparr>hb_world := w3\<rparr>)"
      using e by (simp_all add: Ensure_def store g Inl none(1) n c(1))
    with c none show ?thesis by (auto simp: created_def)
  qed
qed

section \<open>The invariant is kept\<close>

lemma hub_ok_Ensure: "hub_ok cap h \<Longrightarrow> Ensure D i h = (r, h') \<Longrightarrow> hub_ok cap h'"
proof -
  assume ok: "hub_ok cap h" and e: "Ensure D i h = (r, h')"
  let ?B = "stored_builds (hb_world h)" and ?host = "mw_host (hb_world h)"
  have inv: "builds_ok ?host ?B" "runs_ok (map_of (hb_runs h)) ?B" "inj (h_rand ?host)"
    using ok by (simp_all add: hub_ok_def)
  from Ensure_result [OF ok e] obtain b where c: "commit_of b = info_commit i"
    "found i h b h' \<or> restarted i h b h' \<or> created i h b h'" by blast
  from c(2) show ?thesis
  proof (elim disjE)
    assume "found i h b h'"
    with ok show ?thesis by (simp add: found_def)
  next
    assume "restarted i h b h'"
    then obtain cur w where r: "?B (b_ID b) = Some cur" "commit_of cur = info_commit i"
      "stored_builds w = ?B(b_ID b \<mapsto> b)" "same_ids (hb_world h) w" "memory_ok (mw_mem w)" "h' = start b (h\<lparr>hb_world := w\<rparr>)"
      by (auto simp: restarted_def)
    have "builds_ok (mw_host w) (stored_builds w)"
      using builds_ok_update [OF inv(1) r(1) refl, of "mw_host w"] c(1) r by (simp add: same_ids_def)
    moreover have "runs_ok ((map_of (hb_runs h))(b_ID b \<mapsto> (b, New))) (stored_builds w)"
      unfolding r(3) by (rule runs_ok_start [where cur = b, OF runs_ok_grow [OF inv(2)]]) (use r(1,2) c(1) in auto)
    ultimately show ?thesis using ok r by (simp add: hub_ok_def start_def same_ids_def)
  next
    assume "created i h b h'"
    then obtain w where r: "\<forall>k b'. ?B k = Some b' \<longrightarrow> commit_of b' \<noteq> commit_of b"
      "b_ID b = NewID (h_rand ?host (h_id ?host))" "stored_builds w = ?B(b_ID b \<mapsto> b)"
      "h_rand (mw_host w) = h_rand ?host" "h_id (mw_host w) = Suc (h_id ?host)" "memory_ok (mw_mem w)"
      "h' = start b (h\<lparr>hb_world := w\<rparr>)"
      using c(1) by (auto simp: created_def)
    have fresh: "?B (b_ID b) = None" unfolding r(2) by (rule builds_ok_fresh [OF inv(1,3)])
    have "builds_ok (mw_host w) (stored_builds w)" unfolding r(3) by (rule builds_ok_new [OF inv(1) r(1,2,4,5)])
    moreover have "runs_ok ((map_of (hb_runs h))(b_ID b \<mapsto> (b, New))) (stored_builds w)"
      unfolding r(3) by (rule runs_ok_start [where cur = b, OF runs_ok_grow [OF inv(2)]]) (use fresh in auto)
    ultimately show ?thesis using ok r by (simp add: hub_ok_def start_def)
  qed
qed

lemma hub_ok_world:
  assumes "hub_ok cap h" and "same_ids (hb_world h) w" and "memory_ok (mw_mem w)"
    and "stored_builds (hb_world h) k = Some cur" and "b_ID b = k" and "commit_of b = commit_of cur"
    and "stored_builds w = (stored_builds (hb_world h))(k \<mapsto> b)"
  shows "hub_ok cap (h\<lparr>hb_world := w\<rparr>)"
proof -
  have inv: "builds_ok (mw_host (hb_world h)) (stored_builds (hb_world h))"
    "runs_ok (map_of (hb_runs h)) (stored_builds (hb_world h))" using assms(1) by (simp_all add: hub_ok_def)
  have "builds_ok (mw_host w) (stored_builds w)"
    using builds_ok_update [OF inv(1) assms(4-6), of "mw_host w"] assms(2,7) by (simp add: same_ids_def)
  moreover have "runs_ok (map_of (hb_runs h)) (stored_builds w)"
    unfolding assms(7) by (rule runs_ok_grow [OF inv(2)]) (use assms(4,6) in auto)
  ultimately show ?thesis using assms(1-3) by (simp add: hub_ok_def same_ids_def)
qed

lemma hub_ok_step: "hub_step D cap h h' \<Longrightarrow> hub_ok cap h \<Longrightarrow> hub_ok cap h'"
proof (induction rule: hub_step.induct)
  case (ensure i h r h')
  then show ?case by (simp add: hub_ok_Ensure)
next
  case (overwrite h b cur r w)
  have m: "memory_ok (mw_mem (hb_world h))" using overwrite.prems by (simp add: hub_ok_def)
  from update_stored [OF m overwrite(1)] overwrite(3) obtain b' where
    b': "b_ID b' = b_ID b" "commit_of b' = commit_of b" "stored_builds w = (stored_builds (hb_world h))(b_ID b \<mapsto> b')"
    "same_ids (hb_world h) w" "memory_ok (mw_mem w)" by (auto simp: store)
  show ?case
    by (rule hub_ok_world [OF overwrite.prems b'(4,5) overwrite(1) b'(1) _ b'(3)]) (simp add: b'(2) overwrite(2))
next
  case (visit k at h r w)
  have m: "memory_ok (mw_mem (hb_world h))" and b: "builds_ok (mw_host (hb_world h)) (stored_builds (hb_world h))"
    using visit.prems by (simp_all add: hub_ok_def)
  from visit_stored [OF m visit(1) [unfolded store]] have v: "same_ids (hb_world h) w" "memory_ok (mw_mem w)"
    "stored_builds w = stored_builds (hb_world h) \<or> (\<exists>cur b. stored_builds (hb_world h) k = Some cur \<and> b_ID b = b_ID cur \<and>
       commit_of b = commit_of cur \<and> stored_builds w = (stored_builds (hb_world h))(k \<mapsto> b))" by blast+
  from v(3) show ?case
  proof (elim disjE exE conjE)
    assume "stored_builds w = stored_builds (hb_world h)"
    with visit.prems v(1,2) show ?case by (simp add: hub_ok_def same_ids_def builds_ok_def)
  next
    fix cur b
    assume c: "stored_builds (hb_world h) k = Some cur" "b_ID b = b_ID cur" "commit_of b = commit_of cur"
      "stored_builds w = (stored_builds (hb_world h))(k \<mapsto> b)"
    have "b_ID cur = k" using b c(1) by (simp add: builds_ok_def)
    with c(2) have "b_ID b = k" by simp
    from hub_ok_world [OF visit.prems v(1,2) c(1) this c(3,4)] show ?case .
  qed
next
  case (begins h k h')
  then show ?case by (auto simp: hub_ok_def acquire_def split: if_splits)
next
  case (ends k h)
  then show ?case by (simp add: hub_ok_def finish_run_def runs_ok_del)
next
  case (returns k h)
  then show ?case by (auto simp: hub_ok_def release_def length_remove1)
next
  case (restart h)
  then show ?case by (simp add: hub_ok_def runs_ok_def)
qed

lemma hub_reach_ok:
  assumes "hub_reach D cap w0 h" and "inj (h_rand (mw_host w0))" and "mw_mem w0 = NewMemory" and "0 \<le> cap"
  shows "hub_ok cap h"
  using assms(1)
proof induction
  case init
  have "memory_ok NewMemory" by (simp add: memory_ok_def NewMemory_def)
  with assms(2-) show ?case by (simp add: hub_ok_def stored_builds_def NewMemory_def builds_ok_def runs_ok_def)
next
  case (step h h')
  then show ?case by (simp add: hub_ok_step)
qed

lemma live_run_found:
  assumes ok: "hub_ok cap h" and run: "map_of (hb_runs h) k = Some (b0, l)" "commit_of b0 = info_commit i"
    and e: "Ensure D i h = (r, h')"
  shows "\<exists>b. r = Inr b \<and> b_ID b = k \<and> h' = h"
proof -
  let ?B = "stored_builds (hb_world h)"
  have inv: "builds_ok (mw_host (hb_world h)) ?B" "runs_ok (map_of (hb_runs h)) ?B" using ok by (simp_all add: hub_ok_def)
  from inv(2) run obtain cur where cur: "?B k = Some cur" "commit_of cur = info_commit i"
    unfolding runs_ok_def by metis
  have same: "k' = k" if "?B k' = Some b'" "commit_of b' = info_commit i" for k' b'
    using inv(1) cur that unfolding builds_ok_def by metis
  from Ensure_result [OF ok e] obtain b where c: "r = Inr b" "commit_of b = info_commit i"
    "found i h b h' \<or> restarted i h b h' \<or> created i h b h'" by blast
  from c(3) show ?thesis
  proof (elim disjE)
    assume "found i h b h'"
    with c same [of "b_ID b" b] show ?thesis by (auto simp: found_def)
  next
    assume "restarted i h b h'"
    with same run show ?thesis by (auto simp: restarted_def)
  next
    assume "created i h b h'"
    with cur show ?thesis by (auto simp: created_def)
  qed
qed

lemma Ensure_registers:
  assumes ok: "hub_ok cap h" and e: "Ensure D i h = (r, h')"
  shows "\<exists>b. r = Inr b \<and> commit_of b = info_commit i \<and> stored_builds (hb_world h') (b_ID b) = Some b \<and>
    (map_of (hb_runs h') (b_ID b) \<noteq> None \<or> settled_status (b_Status b)) \<and>
    (\<forall>k. k \<noteq> b_ID b \<longrightarrow> map_of (hb_runs h') k = map_of (hb_runs h) k)"
  using Ensure_result [OF ok e] by (auto simp: found_def restarted_def created_def start_def)

end

lemma hub_ok_distinct:
  assumes "hub_ok cap h"
  shows "inj_on commit_of (ran (stored_builds (hb_world h)))"
    and "distinct (map (\<lambda>(k, b, l). commit_of b) (hb_runs h))"
proof -
  let ?B = "stored_builds (hb_world h)" and ?R = "hb_runs h"
  have inv: "builds_ok (mw_host (hb_world h)) ?B" "runs_ok (map_of ?R) ?B" "wf_map ?R"
    using assms by (simp_all add: hub_ok_def)
  show "inj_on commit_of (ran ?B)"
  proof (rule inj_onI)
    fix x y assume xy: "x \<in> ran ?B" "y \<in> ran ?B" "commit_of x = commit_of y"
    then obtain k k' where k: "?B k = Some x" "?B k' = Some y" by (auto simp: ran_def)
    with inv(1) xy(3) have "k = k'" unfolding builds_ok_def by blast
    with k show "x = y" by simp
  qed
  have "inj_on (\<lambda>(k, b, l). commit_of b) (set ?R)"
  proof (rule inj_onI)
    fix x y assume xy: "x \<in> set ?R" "y \<in> set ?R" "(\<lambda>(k, b, l). commit_of b) x = (\<lambda>(k, b, l). commit_of b) y"
    obtain k b l k' b' l' where x: "x = (k, b, l)" and y: "y = (k', b', l')" by (cases x, cases y)
    have m: "map_of ?R k = Some (b, l)" "map_of ?R k' = Some (b', l')" using xy inv(3) x y by (simp_all add: wf_map_def)
    have "\<exists>c. ?B k'' = Some c \<and> commit_of c = commit_of b''" if "map_of ?R k'' = Some (b'', l'')" for k'' b'' l''
      using inv(2) that by (simp add: runs_ok_def)
    from this [OF m(1)] this [OF m(2)] obtain c c' where "?B k = Some c" "?B k' = Some c'" "commit_of c = commit_of c'"
      using xy(3) x y by auto
    then have "k = k'" using inv(1) unfolding builds_ok_def by blast
    with m x y show "x = y" by simp
  qed
  moreover have "distinct ?R" using inv(3) by (simp add: wf_map_def distinct_map)
  ultimately show "distinct (map (\<lambda>(k, b, l). commit_of b) ?R)" by (simp add: distinct_map)
qed

section \<open>The surroundings of the tests\<close>

interpretation hubs: hub_builder "fake_builder cd ans" for cd ans
  by unfold_locales (simp_all add: world_clock_def time_Now_def same_ids_def)

section \<open>The properties\<close>

text \<open>
  C3: Whatever calls of \<open>Ensure\<close>, updates with stale copies, visits, ends of runs and restarts interleave,
  the store never holds two builds of one commit, no commit is ever built by two runs at once, and no more
  executions hold a token than the semaphore has.
\<close>

theorem one_build_per_commit:
  assumes "hub_builder D" and "inj (h_rand (mw_host w0))" and "mw_mem w0 = NewMemory" and "0 \<le> cap"
    and "hub_reach D cap w0 h"
  shows "inj_on commit_of (ran (stored_builds (hb_world h))) \<and>
    distinct (map (\<lambda>(k, b, l). commit_of b) (hb_runs h)) \<and> int (length (hb_active h)) \<le> cap"
  using hub_ok_distinct hub_builder.hub_reach_ok [OF assms(1,5,2-4)] by (auto simp: hub_ok_def)

definition hub_world :: world where
  "hub_world = \<lparr>mw_mem = NewMemory,
    mw_host = \<lparr>h_clock = int, h_rand = (\<lambda>n. replicate n (CHR ''x'')), h_now = 0, h_id = 0\<rparr>, wd_fake = NewFake\<rparr>"

definition hub_start :: "world hub" where
  "hub_start = \<lparr>hb_world = hub_world, hb_runs = [], hb_active = []\<rparr>"

definition hub_twice :: "world hub" where
  "hub_twice = snd (Ensure (fake_builder demo_codec None) demo_info
    (snd (Ensure (fake_builder demo_codec None) demo_info hub_start)))"

lemma hub_world_inj: "inj (h_rand (mw_host hub_world))"
  by (auto simp: hub_world_def inj_def)

lemma hub_twice_reach: "hub_reach (fake_builder demo_codec None) 5 hub_world hub_twice"
proof -
  let ?D = "fake_builder demo_codec None :: world builder"
  have "hub_reach ?D 5 hub_world hub_start" unfolding hub_start_def by (rule hub_reach.init)
  moreover have "hub_step ?D cap h (snd (Ensure ?D demo_info h))" for cap h
    by (rule hub_step.ensure [of ?D demo_info h "fst (Ensure ?D demo_info h)"]) simp
  ultimately show ?thesis unfolding hub_twice_def by (meson hub_reach.step)
qed

theorem one_build_per_commit_witness:
  "length (hb_runs hub_twice) = 1 \<and> distinct (map (\<lambda>(k, b, l). commit_of b) (hb_runs hub_twice))"
proof -
  have "mw_mem hub_world = NewMemory" by (simp add: hub_world_def)
  from one_build_per_commit [OF hubs.hub_builder_axioms hub_world_inj this _ hub_twice_reach]
  have "distinct (map (\<lambda>(k, b, l). commit_of b) (hb_runs hub_twice))" by simp
  moreover have "length (hb_runs hub_twice) = 1"
    by (simp add: hub_twice_def hub_start_def hub_world_def Ensure_def demo_info_def NewMemory_def memory_store_def
        GetBuildBySHA_def with_mem_def world_clock_def time_Now_def CreateBuild_def with_id_def with_now_def new_id_def
        start_def new_build_def no_build_def Let_def)
  ultimately show ?thesis by blast
qed

text \<open>
  C20: In every reachable state, \<open>Ensure\<close> returns the stored build of the commit, which is running or has
  settled after the call, and touches no other run; a commit that is being built is not started again:
  the caller gets the build of the run and nothing changes.
\<close>

theorem Ensure_shares:
  assumes "hub_builder D" and "inj (h_rand (mw_host w0))" and "mw_mem w0 = NewMemory" and "0 \<le> cap"
    and "hub_reach D cap w0 h" and "Ensure D i h = (r, h')"
  shows "(\<exists>b. r = Inr b \<and> commit_of b = info_commit i \<and> stored_builds (hb_world h') (b_ID b) = Some b \<and>
      (map_of (hb_runs h') (b_ID b) \<noteq> None \<or> settled_status (b_Status b)) \<and>
      (\<forall>k. k \<noteq> b_ID b \<longrightarrow> map_of (hb_runs h') k = map_of (hb_runs h) k)) \<and>
    (\<forall>k b0 l. map_of (hb_runs h) k = Some (b0, l) \<longrightarrow> commit_of b0 = info_commit i \<longrightarrow>
      (\<exists>b. r = Inr b \<and> b_ID b = k \<and> h' = h))"
proof -
  have ok: "hub_ok cap h" by (rule hub_builder.hub_reach_ok [OF assms(1,5,2-4)])
  show ?thesis
    using hub_builder.Ensure_registers [OF assms(1) ok assms(6)] hub_builder.live_run_found [OF assms(1) ok _ _ assms(6)]
    by blast
qed

theorem Ensure_shares_witness:
  "\<exists>b. fst (Ensure (fake_builder demo_codec None) demo_info hub_twice) = Inr b \<and> commit_of b = info_commit demo_info \<and>
    settled_status (b_Status b) = False"
proof -
  let ?D = "fake_builder demo_codec None :: world builder"
  obtain r h' where e: "Ensure ?D demo_info hub_twice = (r, h')" by fastforce
  have "mw_mem hub_world = NewMemory" by (simp add: hub_world_def)
  from Ensure_shares [OF hubs.hub_builder_axioms hub_world_inj this _ hub_twice_reach e]
  obtain b where "r = Inr b" "commit_of b = info_commit demo_info" by auto
  moreover have "settled_status (b_Status b) = False"
    using e \<open>r = Inr b\<close>
    by (auto simp: hub_twice_def hub_start_def hub_world_def Ensure_def demo_info_def NewMemory_def memory_store_def
        GetBuildBySHA_def with_mem_def world_clock_def time_Now_def CreateBuild_def with_id_def with_now_def new_id_def
        start_def new_build_def no_build_def Let_def settled_status_def build_statuses)
  ultimately show ?thesis using e by auto
qed

end
