(* ===== verification/Session.thy ===== *)
theory Session
  imports Builder_Hub
begin

text \<open>
  \<open>internal/session/session.go\<close>: the lifecycle of a visitor's session. The manager's fields are a record;
  its state is the state shared with the builder, the event logs and the set of live sessions. A method
  is a step on this state that may leave early: with an error, or for the goroutine \<open>run\<close> with the way
  it left. What other goroutines do while \<open>run\<close> waits is a parameter, and so is the resolver.
\<close>

section \<open>Limits, events, state\<close>

record limits =
  lm_PerDevice :: int
  lm_PerIP :: int
  lm_Global :: int
  lm_TTL :: time
  lm_MaxTTL :: time

definition DefaultLimits :: limits where
  "DefaultLimits = \<lparr>lm_PerDevice = 1, lm_PerIP = 2, lm_Global = 200, lm_TTL = 15 * Minute, lm_MaxTTL = 30 * Minute\<rparr>"

definition no_limits :: limits where
  "no_limits = \<lparr>lm_PerDevice = 0, lm_PerIP = 0, lm_Global = 0, lm_TTL = 0, lm_MaxTTL = 0\<rparr>"

definition init_limits :: "limits \<Rightarrow> limits" where
  "init_limits l = (if l = no_limits then DefaultLimits else l)"

definition init_poll :: "time \<Rightarrow> time" where
  "init_poll t = (if t = 0 then 30 * Second else t)"

text \<open>The payloads. A time stamp stays a time; the source formats it.\<close>

datatype sevent =
    LogData time string string
  | PhaseData string string string
  | PreviewData string int
  | TerminalData bool
  | TTLData time bool
  | EndedData string
  | ErrorData string string

fun event_name :: "sevent \<Rightarrow> string" where
  "event_name (LogData _ _ _) = ''log''"
| "event_name (PhaseData _ _ _) = ''phase''"
| "event_name (PreviewData _ _) = ''preview''"
| "event_name (TerminalData _) = ''terminal''"
| "event_name (TTLData _ _) = ''ttl''"
| "event_name (EndedData _) = ''ended''"
| "event_name (ErrorData _ _) = ''error''"

text \<open>
  \<open>ms_logs\<close> holds every log, by the identifier of its session; \<open>ms_live\<close> are the keys of the map \<open>live\<close>,
  \<open>ms_spawned\<close> the goroutines that were started.
\<close>

record 'w mstate =
  ms_hub :: "'w hub"
  ms_logs :: "(string, sevent log) gomap"
  ms_live :: "string list"
  ms_spawned :: "(session \<times> build \<times> info) list"

text \<open>
  \<open>sm_Next k i\<close> waits for the event number \<open>i\<close> of the log of build \<open>k\<close>, none when the channel is closed;
  \<open>sm_Others\<close> is what the other goroutines do to the state while this one waits for the platform.
\<close>

record 'w manager =
  sm_Store :: "'w store"
  sm_Sandbox :: "'w client"
  sm_Builder :: "'w builder"
  sm_Resolve :: "ref \<Rightarrow> 'w \<Rightarrow> info result \<times> 'w"
  sm_Limits :: limits
  sm_Now :: "'w \<Rightarrow> time \<times> 'w"
  sm_Poll :: time
  sm_Next :: "string \<Rightarrow> nat \<Rightarrow> 'w mstate \<Rightarrow> bevent option \<times> 'w mstate"
  sm_Others :: "'w mstate \<Rightarrow> 'w mstate"

section \<open>Primitive steps\<close>

definition on_world :: "('w \<Rightarrow> 'r \<times> 'w) \<Rightarrow> ('w mstate, 'e, 'r) action" where
  "on_world f st = (case f (hb_world (ms_hub st)) of (r, w) \<Rightarrow> (Inr r, st\<lparr>ms_hub := (ms_hub st)\<lparr>hb_world := w\<rparr>\<rparr>))"

definition on_hub :: "('w hub \<Rightarrow> 'r \<times> 'w hub) \<Rightarrow> ('w mstate, 'e, 'r) action" where
  "on_hub f st = (case f (ms_hub st) of (r, h) \<Rightarrow> (Inr r, st\<lparr>ms_hub := h\<rparr>))"

definition change_log :: "string \<Rightarrow> (sevent log \<Rightarrow> sevent log) \<Rightarrow> ('w mstate, 'e, unit) action" where
  "change_log k f = modifyS (\<lambda>st. case map_of (ms_logs st) k of
      None \<Rightarrow> st | Some l \<Rightarrow> st\<lparr>ms_logs := map_put k (f l) (ms_logs st)\<rparr>)"

definition emit_session :: "string \<Rightarrow> sevent \<Rightarrow> ('w mstate, 'e, unit) action" where
  "emit_session k ev = change_log k (Emit ev)"

fun emit_all :: "string \<Rightarrow> sevent list \<Rightarrow> ('w mstate, 'e, unit) action" where
  "emit_all k [] = returnS ()"
| "emit_all k (ev # evs) = thenS (emit_session k ev) (emit_all k evs)"

definition drop_live :: "string \<Rightarrow> ('w mstate, 'e, unit) action" where
  "drop_live k = modifyS (\<lambda>st. st\<lparr>ms_live := removeAll k (ms_live st)\<rparr>)"

definition attempt :: "'a result \<Rightarrow> ('s, error, 'a) action" where
  "attempt r = (case r of Inl e \<Rightarrow> throwS e | Inr x \<Rightarrow> returnS x)"

section \<open>Stored logs\<close>

text \<open>\<open>splitPhase\<close> and \<open>replayLog\<close>.\<close>

definition splitPhase :: "string \<Rightarrow> string \<times> string" where
  "splitPhase l =
    (if HasPrefix l ''['' then
       (case Index l ''] '' of
          Some i \<Rightarrow> if i > 0 then (take (i - 1) (drop 1 l), drop (i + 2) l) else ([], l)
        | None \<Rightarrow> ([], l))
     else ([], l))"

definition replayLog :: "build \<Rightarrow> sevent list" where
  "replayLog b =
    map (\<lambda>l. case splitPhase l of (ph, text) \<Rightarrow> LogData (b_UpdatedAt b) ph text)
      (filter (\<lambda>l. l \<noteq> []) (SplitByte (CHR 0x0A) (TrimRightByte (CHR 0x0A) (b_Log b))))"

definition phaseMessage :: "string \<Rightarrow> string" where
  "phaseMessage status =
    (if status = BuildQueued then ''queued''
     else if status = BuildBuilding then ''building''
     else if status = BuildReady then ''build ready''
     else if status = BuildUnsupported then ''we couldn't work out how to run this repo''
     else ''build failed'')"

section \<open>Ending a session\<close>

definition ended :: "session \<Rightarrow> string \<Rightarrow> session" where
  "ended s reason = s\<lparr>s_Status := SessionEnded, s_EndedReason := reason\<rparr>"

definition terminate :: "'w manager \<Rightarrow> session \<Rightarrow> string \<Rightarrow> ('w mstate, 'e, unit) action" where
  "terminate m s reason =
    thenS (if s_SandboxID s \<noteq> [] then thenS (on_world (cl_Delete (sm_Sandbox m) (s_SandboxID s))) (returnS ())
           else returnS ())
    (thenS (on_world (so_UpdateSession (sm_Store m) (ended s reason)))
    (bindS (getS (\<lambda>st. s_ID s \<in> set (ms_live st))) (\<lambda>live.
     thenS (drop_live (s_ID s))
       (if live then thenS (emit_session (s_ID s) (EndedData reason)) (change_log (s_ID s) Finish)
        else returnS ()))))"

text \<open>The closure \<open>end\<close> of \<open>run\<close>: a session that \<open>terminate\<close> ended keeps its reason.\<close>

definition end_session :: "'w manager \<Rightarrow> session \<Rightarrow> string \<Rightarrow> ('w mstate, 'e, unit) action" where
  "end_session m s reason =
    bindS (on_world (so_GetSession (sm_Store m) (s_ID s))) (\<lambda>cur.
      if (case cur of Inl _ \<Rightarrow> False | Inr c \<Rightarrow> s_Status c = SessionEnded)
      then change_log (s_ID s) Finish
      else thenS (on_world (so_UpdateSession (sm_Store m) (ended s reason)))
          (thenS (emit_session (s_ID s) (EndedData reason))
          (thenS (change_log (s_ID s) Finish) (drop_live (s_ID s)))))"

section \<open>Create\<close>

fun terminate_all :: "'w manager \<Rightarrow> session list \<Rightarrow> ('w mstate, 'e, unit) action" where
  "terminate_all m [] = returnS ()"
| "terminate_all m (s # ss) = thenS (terminate m s ''replaced by a new session'') (terminate_all m ss)"

definition new_session :: "build \<Rightarrow> string \<Rightarrow> string \<Rightarrow> time \<Rightarrow> session" where
  "new_session b device ip now =
    no_session\<lparr>s_BuildID := b_ID b, s_Device := device, s_IP := ip,
      s_Status := (if b_Status b = BuildReady then SessionStarting else SessionBuilding), s_CreatedAt := now\<rparr>"

text \<open>A device at its limit loses its live sessions; each of them is taken off the count of the address.\<close>

definition replace_sessions :: "'w manager \<Rightarrow> string \<Rightarrow> int \<Rightarrow> int \<Rightarrow> ('w mstate, error, int) action" where
  "replace_sessions m device byDev byIP =
    (if byDev \<ge> lm_PerDevice (sm_Limits m)
     then
       bindS (on_world (so_LiveSessionsForDevice (sm_Store m) device)) (\<lambda>mr.
       bindS (attempt mr) (\<lambda>mine. thenS (terminate_all m mine) (returnS (byIP - int (length mine)))))
     else returnS byIP)"

definition start_session :: "'w manager \<Rightarrow> string \<Rightarrow> string \<Rightarrow> build \<Rightarrow> info \<Rightarrow> ('w mstate, error, session \<times> build) action" where
  "start_session m device ip bld info =
    bindS (on_world (sm_Now m)) (\<lambda>now.
    bindS (on_world (so_CreateSession (sm_Store m) (new_session bld device ip now))) (\<lambda>sr.
    bindS (attempt sr) (\<lambda>s.
    bindS (on_world (sm_Now m)) (\<lambda>at.
     thenS (on_world (so_RecordVisit (sm_Store m) (b_ID bld) at))
     (thenS (modifyS (\<lambda>st. st\<lparr>ms_logs := map_put (s_ID s) New (ms_logs st), ms_live := List.insert (s_ID s) (ms_live st),
        ms_spawned := ms_spawned st @ [(s, bld, info)]\<rparr>))
       (returnS (s, bld)))))))"

definition Manager_Create ::
  "'w manager \<Rightarrow> string \<Rightarrow> string \<Rightarrow> string \<Rightarrow> ('w mstate, error, session \<times> build) action" where
  "Manager_Create m device ip repoRef =
    bindS (attempt (Parse repoRef)) (\<lambda>ref.
    bindS (on_world (so_LiveSessions (sm_Store m) device ip)) (\<lambda>counts.
    bindS (attempt counts) (\<lambda>(byDev, byIP, total).
     if total \<ge> lm_Global (sm_Limits m) then throwS ErrSessionBusy
     else
       bindS (replace_sessions m device byDev byIP) (\<lambda>byIP'.
       if byIP' \<ge> lm_PerIP (sm_Limits m) then throwS ErrLimited
       else
         bindS (on_world (sm_Resolve m ref)) (\<lambda>ir.
         bindS (attempt ir) (\<lambda>info.
         bindS (on_hub (Ensure (sm_Builder m) info)) (\<lambda>br.
         bindS (attempt br) (\<lambda>bld. start_session m device ip bld info))))))))"

section \<open>Subscribing\<close>

datatype sstream = LiveSession "sevent log" | StoredSession "sevent list"

text \<open>The events for a session that has no live log: the story of its build, then its end.\<close>

definition ended_events :: "build result \<Rightarrow> session \<Rightarrow> sevent list" where
  "ended_events br s =
    (case br of
       Inl _ \<Rightarrow> []
     | Inr b \<Rightarrow> replayLog b @
         (if b_Status b = BuildUnsupported then [ErrorData ''unsupported'' (b_Error b)]
          else if b_Status b = BuildFailed then [ErrorData ''infra_error'' (b_Error b)] else [])) @
    [EndedData (if s_EndedReason s = [] then ''server restarted'' else s_EndedReason s)]"

definition Manager_Subscribe :: "'w manager \<Rightarrow> string \<Rightarrow> ('w mstate, error, sstream) action" where
  "Manager_Subscribe m k =
    bindS (getS (\<lambda>st. if k \<in> set (ms_live st) then map_of (ms_logs st) k else None)) (\<lambda>l.
     case l of
       Some l \<Rightarrow> returnS (LiveSession l)
     | None \<Rightarrow>
        bindS (on_world (so_GetSession (sm_Store m) k)) (\<lambda>sr.
        bindS (attempt sr) (\<lambda>s.
        bindS (on_world (so_GetBuild (sm_Store m) (s_BuildID s))) (\<lambda>br.
         returnS (StoredSession (ended_events br s))))))"

section \<open>Running a session\<close>

text \<open>
  How \<open>run\<close> leaves: it returned, it panicked, or it is still waiting when the fuel for its loops is used up.
\<close>

datatype session_exit = SessionOver | SessionPanicked | SessionWaiting

definition finish_session :: "'w manager \<Rightarrow> session \<Rightarrow> string \<Rightarrow> ('w mstate, session_exit, 'a) action" where
  "finish_session m s reason = thenS (end_session m s reason) (throwS SessionOver)"

definition stop_session ::
  "'w manager \<Rightarrow> session \<Rightarrow> string \<Rightarrow> string \<Rightarrow> string \<Rightarrow> ('w mstate, session_exit, 'a) action" where
  "stop_session m s code msg reason =
    thenS (emit_session (s_ID s) (ErrorData code msg)) (finish_session m s reason)"

definition forward_event :: "session \<Rightarrow> build \<Rightarrow> bevent \<Rightarrow> ('w mstate, 'e, build) action" where
  "forward_event s bld ev =
    (if be_Type ev = ''log''
     then thenS (emit_session (s_ID s) (LogData (be_TS ev) (be_Phase ev) (be_Line ev))) (returnS bld)
     else if be_Type ev = ''status''
     then thenS (emit_session (s_ID s)
            (PhaseData (b_Status (be_Build ev)) (s_Status s) (phaseMessage (b_Status (be_Build ev)))))
          (returnS (be_Build ev))
     else returnS bld)"

fun forward_stored :: "session \<Rightarrow> build \<Rightarrow> bevent list \<Rightarrow> ('w mstate, 'e, build) action" where
  "forward_stored s bld [] = returnS bld"
| "forward_stored s bld (ev # evs) = bindS (forward_event s bld ev) (\<lambda>b. forward_stored s b evs)"

definition next_event :: "'w manager \<Rightarrow> string \<Rightarrow> nat \<Rightarrow> ('w mstate, 'e, bevent option) action" where
  "next_event m k i st = (case sm_Next m k i st of (r, st') \<Rightarrow> (Inr r, st'))"

fun forward_live ::
  "nat \<Rightarrow> 'w manager \<Rightarrow> session \<Rightarrow> string \<Rightarrow> nat \<Rightarrow> build \<Rightarrow> ('w mstate, session_exit, build) action" where
  "forward_live 0 m s k i bld = throwS SessionWaiting"
| "forward_live (Suc n) m s k i bld =
    bindS (next_event m k i) (\<lambda>r.
      case r of
        None \<Rightarrow> returnS bld
      | Some ev \<Rightarrow> bindS (forward_event s bld ev) (\<lambda>b. forward_live n m s k (Suc i) b))"

definition forward_build ::
  "nat \<Rightarrow> 'w manager \<Rightarrow> session \<Rightarrow> build \<Rightarrow> stream \<Rightarrow> ('w mstate, session_exit, build) action" where
  "forward_build fuel m s bld ch =
    (case ch of LiveLog _ \<Rightarrow> forward_live fuel m s (b_ID bld) 0 bld | Stored evs \<Rightarrow> forward_stored s bld evs)"

definition follow :: "nat \<Rightarrow> 'w manager \<Rightarrow> session \<Rightarrow> build \<Rightarrow> ('w mstate, session_exit, build) action" where
  "follow fuel m s bld =
    (if b_Status bld = BuildReady then returnS bld
     else
       thenS (emit_session (s_ID s) (PhaseData (b_Status bld) (s_Status s) ''working out how to run this repo''))
       (bindS (on_hub (builder_Subscribe (sm_Builder m) (b_ID bld))) (\<lambda>er.
         case er of
           Inl e \<Rightarrow> stop_session m s ''infra_error'' (error_text e) ''build unavailable''
         | Inr ch \<Rightarrow>
            bindS (forward_build fuel m s bld ch) (\<lambda>bld1.
            bindS (on_world (so_GetBuild (sm_Store m) (b_ID bld1))) (\<lambda>fr.
              let b = (case fr of Inl _ \<Rightarrow> bld1 | Inr fresh \<Rightarrow> fresh)
              in if b_Status b = BuildReady then returnS b
                 else if b_Status b = BuildUnsupported
                 then stop_session m s ''unsupported'' (b_Error b) ''unsupported''
                 else stop_session m s ''infra_error'' (b_Error b) ''build failed'')))))"

definition rebuild :: "'w manager \<Rightarrow> build \<Rightarrow> info \<Rightarrow> ('w mstate, 'e, build result) action" where
  "rebuild m bld info =
    thenS (if b_Golden bld \<noteq> [] then thenS (on_world (cl_Delete (sm_Sandbox m) (b_Golden bld))) (returnS ())
           else returnS ())
    (bindS (on_world (so_UpdateBuild (sm_Store m)
        (bld\<lparr>b_Status := BuildQueued, b_SnapshotID := [], b_Golden := [], b_Error := []\<rparr>))) (\<lambda>(_, err).
      case err of Some e \<Rightarrow> returnS (Inl e) | None \<Rightarrow> on_hub (Ensure (sm_Builder m) info)))"

text \<open>\<open>int(d.Seconds())\<close>, and the sandbox of a visitor: from the snapshot, without egress.\<close>

definition whole_seconds :: "time \<Rightarrow> int" where
  "whole_seconds t = (if t < 0 then - ((- t) div Second) else t div Second)"

definition visitor_spec :: "limits \<Rightarrow> session \<Rightarrow> build \<Rightarrow> createSpec" where
  "visitor_spec lm s bld =
    \<lparr>cs_Name = ''tlv-'' @ take 8 (s_ID s), cs_Restore = b_SnapshotID bld, cs_Resources = Some Size,
     cs_Egress = \<lparr>eg_Mode = ''deny_all'', eg_AllowInternet = False\<rparr>,
     cs_Lifecycle = \<lparr>lc_IdleTimeoutSeconds = whole_seconds (lm_TTL lm), lc_MaxLifetimeSeconds = whole_seconds (lm_MaxTTL lm),
       lc_OnIdle = ''delete''\<rparr>\<rparr>"

text \<open>The loop of \<open>run\<close> that restores the sandbox: a lost snapshot is rebuilt once.\<close>

function restore ::
  "nat \<Rightarrow> 'w manager \<Rightarrow> session \<Rightarrow> info \<Rightarrow> bool \<Rightarrow> build \<Rightarrow> ('w mstate, session_exit, build \<times> sandbox) action" where
  "restore fuel m s info rebuilt bld =
    (if length (s_ID s) < 8 then throwS SessionPanicked
     else bindS (on_world (cl_Create (sm_Sandbox m) (visitor_spec (sm_Limits m) s bld))) (\<lambda>r.
       case r of
         Inr sb \<Rightarrow> returnS (bld, sb)
       | Inl err \<Rightarrow>
          if errors_Is err ErrSandboxBusy
          then stop_session m s ''busy'' ''every sandbox is in use right now'' ''no capacity''
          else if rebuilt
          then stop_session m s ''infra_error'' (''could not start a sandbox: '' @ error_text err) ''could not start a sandbox''
          else
            bindS (on_world (sm_Now m)) (\<lambda>ts.
            thenS (emit_session (s_ID s)
              (LogData ts ''restore'' ''the saved snapshot is no longer available; rebuilding this commit''))
            (bindS (rebuild m bld info) (\<lambda>br.
              case br of
                Inl e \<Rightarrow> stop_session m s ''infra_error'' (error_text e) ''rebuild failed''
              | Inr b \<Rightarrow> bindS (follow fuel m s b) (\<lambda>b'. restore fuel m s info True b'))))))"
  by pat_completeness auto
termination by (relation "measure (\<lambda>(fuel, m, s, info, rebuilt, bld). if rebuilt then 0 else 1)") auto

declare restore.simps [simp del]

definition expose_preview :: "'w manager \<Rightarrow> session \<Rightarrow> build \<Rightarrow> sandbox \<Rightarrow> ('w mstate, 'e, session) action" where
  "expose_preview m s bld sb =
    (if b_Kind bld = KindWeb \<and> b_Port bld > 0
     then bindS (on_world (cl_ExposePort (sm_Sandbox m) (sx_ID sb) (b_Port bld))) (\<lambda>r.
       case r of
         Inl _ \<Rightarrow> returnS s
       | Inr url \<Rightarrow> thenS (emit_session (s_ID s) (PreviewData url (b_Port bld))) (returnS (s\<lparr>s_PreviewURL := url\<rparr>)))
     else returnS s)"

definition live_session :: "session \<Rightarrow> time \<Rightarrow> session" where
  "live_session s exp = s\<lparr>s_Status := SessionLive, s_TerminalReady := True, s_ExpiresAt := Some exp\<rparr>"

definition go_live ::
  "'w manager \<Rightarrow> session \<Rightarrow> build \<Rightarrow> sandbox \<Rightarrow> ('w mstate, session_exit, session \<times> sandbox) action" where
  "go_live m s0 bld sb0 =
    (let s = s0\<lparr>s_SandboxID := sx_ID sb0\<rparr> in
     thenS (on_world (so_UpdateSession (sm_Store m) s))
     (thenS (modifyS (sm_Others m))
     (bindS (on_world (cl_WaitReady (sm_Sandbox m) (sx_ID sb0) (2 * Minute))) (\<lambda>(sb, err).
       case err of
         Some e \<Rightarrow>
           thenS (on_world (cl_Delete (sm_Sandbox m) (sx_ID sb)))
             (stop_session m s ''infra_error'' (error_text e) ''sandbox failed to start'')
       | None \<Rightarrow>
          bindS (expose_preview m s bld sb) (\<lambda>s1.
          bindS (on_world (sm_Now m)) (\<lambda>now.
           let exp = now + lm_TTL (sm_Limits m); s2 = live_session s1 exp
           in thenS (on_world (so_UpdateSession (sm_Store m) s2))
             (thenS (emit_all (s_ID s2)
                [TerminalData True, TTLData exp False, PhaseData (b_Status bld) (s_Status s2) ''live''])
               (returnS (s2, sb)))))))))"

fun watch :: "nat \<Rightarrow> 'w manager \<Rightarrow> string \<Rightarrow> session \<Rightarrow> ('w mstate, session_exit, unit) action" where
  "watch 0 m sid s = throwS SessionWaiting"
| "watch (Suc n) m sid s =
    thenS (modifyS (sm_Others m))
    (bindS (on_world (cl_Get (sm_Sandbox m) sid)) (\<lambda>cur.
      if (case cur of Inl e \<Rightarrow> errors_Is e ErrSandboxNotFound | Inr _ \<Rightarrow> False)
      then finish_session m s ''session expired''
      else if (case cur of Inl _ \<Rightarrow> False | Inr c \<Rightarrow> sx_Phase c \<noteq> PhaseReady)
      then finish_session m s ''sandbox stopped''
      else
        bindS (on_world (so_GetSession (sm_Store m) (s_ID s))) (\<lambda>fr.
          let s' = (case fr of Inl _ \<Rightarrow> s | Inr fresh \<Rightarrow> fresh)
          in case s_ExpiresAt s' of
               None \<Rightarrow> watch n m sid s'
             | Some exp \<Rightarrow>
                bindS (on_world (sm_Now m)) (\<lambda>now.
                  if now > exp
                  then thenS (on_world (cl_Delete (sm_Sandbox m) sid)) (finish_session m s' ''session expired'')
                  else watch n m sid s'))))"

definition session_run ::
  "nat \<Rightarrow> 'w manager \<Rightarrow> session \<Rightarrow> build \<Rightarrow> info \<Rightarrow> ('w mstate, session_exit, unit) action" where
  "session_run fuel m s0 bld0 info =
    bindS (follow fuel m s0 bld0) (\<lambda>bld.
    bindS (getS (\<lambda>st. case map_of (ms_logs st) (s_ID s0) of None \<Rightarrow> 0 | Some l \<Rightarrow> length (Events l))) (\<lambda>n.
     thenS (if n \<le> 1 then emit_all (s_ID s0) (replayLog bld) else returnS ())
     (let s = s0\<lparr>s_Status := SessionStarting\<rparr> in
      thenS (on_world (so_UpdateSession (sm_Store m) s))
      (thenS (emit_session (s_ID s) (PhaseData (b_Status bld) (s_Status s) ''restoring your sandbox''))
      (bindS (restore fuel m s info False bld) (\<lambda>(bld', sb).
       bindS (go_live m s bld' sb) (\<lambda>(s', sb'). watch fuel m (sx_ID sb') s')))))))"

section \<open>Extend, PTY, Get\<close>

text \<open>\<open>Extend\<close> returns the session beside an error.\<close>

definition extended :: "limits \<Rightarrow> time \<Rightarrow> session \<Rightarrow> session" where
  "extended lm now s =
    (let cap = s_CreatedAt s + lm_MaxTTL lm; sooner = now + lm_TTL lm
     in s\<lparr>s_Extended := True, s_ExpiresAt := Some (if sooner < cap then sooner else cap)\<rparr>)"

definition Extend :: "'w manager \<Rightarrow> string \<Rightarrow> ('w mstate, session \<times> error, session) action" where
  "Extend m k =
    bindS (on_world (so_GetSession (sm_Store m) k)) (\<lambda>sr.
     case sr of
       Inl e \<Rightarrow> throwS (no_session, e)
     | Inr s \<Rightarrow>
        if s_Status s \<noteq> SessionLive \<or> s_SandboxID s = [] then throwS (s, ErrNotLive)
        else if s_Extended s then throwS (s, ErrAlreadyExtnd)
        else
          bindS (on_world (cl_Keepalive (sm_Sandbox m) (s_SandboxID s))) (\<lambda>ke.
           case ke of
             Some e \<Rightarrow> throwS (s, e)
           | None \<Rightarrow>
              bindS (on_world (sm_Now m)) (\<lambda>now.
               let s' = extended (sm_Limits m) now s
               in bindS (on_world (so_UpdateSession (sm_Store m) s')) (\<lambda>ue.
                   case ue of
                     Some e \<Rightarrow> throwS (s', e)
                   | None \<Rightarrow>
                      bindS (getS (\<lambda>st. k \<in> set (ms_live st))) (\<lambda>live.
                       thenS (if live then emit_session k (TTLData (the (s_ExpiresAt s')) True) else returnS ())
                         (returnS s'))))))"

definition pty_options :: "int \<Rightarrow> int \<Rightarrow> ptyOptions" where
  "pty_options cols rows =
    \<lparr>pt_Program = ''bash'', pt_Args = [''-c'', ''cd repo 2>/dev/null; exec bash -i''], pt_Cols = cols, pt_Rows = rows\<rparr>"

definition Manager_PTY :: "'w manager \<Rightarrow> string \<Rightarrow> int \<Rightarrow> int \<Rightarrow> ('w mstate, error, nat) action" where
  "Manager_PTY m k cols rows =
    bindS (on_world (so_GetSession (sm_Store m) k)) (\<lambda>sr.
    bindS (attempt sr) (\<lambda>s.
     if s_Status s \<noteq> SessionLive \<or> s_SandboxID s = [] then throwS ErrNotLive
     else
       bindS (on_world (cl_Get (sm_Sandbox m) (s_SandboxID s))) (\<lambda>br.
       bindS (attempt br) (\<lambda>sb.
       bindS (on_world (cl_DialPTY (sm_Sandbox m) sb (pty_options cols rows))) attempt))))"

definition Manager_Get :: "'w manager \<Rightarrow> string \<Rightarrow> ('w mstate, session \<times> error, session \<times> build) action" where
  "Manager_Get m k =
    bindS (on_world (so_GetSession (sm_Store m) k)) (\<lambda>sr.
     case sr of
       Inl e \<Rightarrow> throwS (no_session, e)
     | Inr s \<Rightarrow>
        bindS (on_world (so_GetBuild (sm_Store m) (s_BuildID s))) (\<lambda>br.
         case br of
           Inl e \<Rightarrow> throwS (s, Wrapf (''session '' @ k @ '' build'') e)
         | Inr b \<Rightarrow> returnS (s, b)))"

end
