(* ===== verification/Session_Limits.thy ===== *)
theory Session_Limits
  imports Session
begin

text \<open>
  What \<open>Create\<close> promises about the number of live sessions, over the in-process store: the counts after
  a call that succeeded, when no other call ran between its checks and its insertion.
\<close>

section \<open>The counts\<close>

definition session_list :: "'a mworld_scheme mstate \<Rightarrow> session list" where
  "session_list st = map snd (mm_sessions (mw_mem (hb_world (ms_hub st))))"

text \<open>The sessions are filed under their own identifiers.\<close>

definition sessions_ok :: "'a mworld_scheme mstate \<Rightarrow> bool" where
  "sessions_ok st \<longleftrightarrow>
    (let kss = mm_sessions (mw_mem (hb_world (ms_hub st))) in wf_map kss \<and> list_all (\<lambda>(k, s). s_ID s = k) kss)"

definition live_count :: "(session \<Rightarrow> bool) \<Rightarrow> session list \<Rightarrow> int" where
  "live_count P ss = int (length (filter (\<lambda>s. Live s \<and> P s) ss))"

text \<open>The list of the sessions after those of \<open>ids\<close> have been ended.\<close>

definition end_those :: "string set \<Rightarrow> string \<Rightarrow> (string \<times> session) list \<Rightarrow> (string \<times> session) list" where
  "end_those ids reason kss = map (\<lambda>(k, s). (k, if k \<in> ids then ended s reason else s)) kss"

lemma end_those_empty [simp]: "end_those {} reason kss = kss"
  by (simp add: end_those_def case_prod_beta)

lemma end_those_insert: "end_those (insert k ids) reason kss = end_those {k} reason (end_those ids reason kss)"
  by (auto simp: end_those_def ended_def)

lemma map_put_ended:
  assumes "wf_map kss" and "map_of kss k = Some s"
  shows "map_put k (ended s reason) kss = end_those {k} reason kss"
proof -
  obtain xs ys where xs: "kss = xs @ (k, s) # ys" "map_put k (ended s reason) kss = xs @ (k, ended s reason) # ys"
    using map_put_split [OF assms(2), of "ended s reason"] by blast
  have "k \<notin> fst ` set xs" "k \<notin> fst ` set ys" using assms(1) xs(1) by (auto simp: wf_map_def)
  then have "end_those {k} reason xs = xs" "end_those {k} reason ys = ys"
    by (force simp: end_those_def intro!: map_idI)+
  with xs show ?thesis by (simp add: end_those_def)
qed

lemma end_those_map_of: "map_of (end_those ids reason kss) k = map_option (\<lambda>s. if k \<in> ids then ended s reason else s) (map_of kss k)"
  by (induction kss) (auto simp: end_those_def)

lemma end_those_wf [simp]: "wf_map (end_those ids reason kss) = wf_map kss"
  by (simp add: wf_map_def end_those_def case_prod_beta comp_def)

lemma ended_not_live [simp]: "\<not> Live (ended s reason)"
  by (simp add: Live_def ended_def)

lemma live_count_put:
  "live_count P (map snd (map_put k s kss)) \<le> live_count P (map snd kss) + 1"
  unfolding live_count_def by (induction kss) auto

lemma live_count_end:
  assumes "list_all (\<lambda>(k, s). Live s \<and> P s \<longrightarrow> k \<in> ids) kss"
  shows "live_count P (map snd (end_those ids reason kss)) = 0"
  using assms unfolding live_count_def end_those_def by (induction kss) (auto simp: filter_empty_conv split: if_splits)

lemma live_count_end_le:
  "live_count P (map snd (end_those ids reason kss)) \<le> live_count P (map snd kss)"
  unfolding live_count_def end_those_def by (induction kss) (auto split: if_splits)

text \<open>How many of the sessions of an address an end leaves.\<close>

lemma live_count_end_split:
  assumes "list_all (\<lambda>(k, s). k \<in> ids \<longleftrightarrow> Live s \<and> Q s) kss"
  shows "live_count P (map snd (end_those ids reason kss)) =
    live_count P (map snd kss) - live_count Q (map snd kss) + live_count (\<lambda>s. Q s \<and> \<not> P s) (map snd kss)"
  using assms unfolding live_count_def end_those_def by (induction kss) auto

section \<open>Surroundings that do not touch the store\<close>

definition mem_quiet :: "('a mworld_scheme \<Rightarrow> 'r \<times> 'a mworld_scheme) \<Rightarrow> bool" where
  "mem_quiet f \<longleftrightarrow> (\<forall>w. mw_mem (snd (f w)) = mw_mem w)"

lemma mem_quietD: "mem_quiet f \<Longrightarrow> f w = (r, w') \<Longrightarrow> mw_mem w' = mw_mem w"
  by (metis mem_quiet_def snd_conv)

locale memory_manager =
  fixes m :: "'a mworld_scheme manager"
  assumes store_memory: "sm_Store m = memory_store" and builds_memory: "bd_Store (sm_Builder m) = memory_store"
    and delete_quiet: "mem_quiet (cl_Delete (sm_Sandbox m) i)"
    and resolve_quiet: "mem_quiet (sm_Resolve m ref)"
    and now_quiet: "mem_quiet (sm_Now m)" and clock_quiet: "mem_quiet (bd_Now (sm_Builder m))"
begin

abbreviation sessions_of :: "'a mworld_scheme mstate \<Rightarrow> (string \<times> session) list" where
  "sessions_of st \<equiv> mm_sessions (mw_mem (hb_world (ms_hub st)))"

lemma world_quiet: "mem_quiet f \<Longrightarrow> on_world f st = (Inr r, st') \<Longrightarrow> sessions_of st' = sessions_of st"
  by (auto simp: on_world_def mem_quiet_def split: prod.splits) (metis snd_conv)

lemma bind_attempt: "bindS (attempt r) g st = (case r of Inl e \<Rightarrow> (Inl e, st) | Inr x \<Rightarrow> g x st)"
  by (cases r) (simp_all add: bindS_def attempt_def throwS_def returnS_def)

lemma bind_returned: "bindS f g st = (Inr y, st') \<Longrightarrow> \<exists>x st1. f st = (Inr x, st1) \<and> g x st1 = (Inr y, st')"
  by (auto simp: bindS_def split: prod.splits sum.splits)

lemma bind_known: "f st = (Inr x, st1) \<Longrightarrow> bindS f g st = g x st1"
  by (simp add: bindS_def)

lemma change_log_world [simp]: "sessions_of (snd (change_log k f st)) = sessions_of st"
  by (simp add: change_log_def modifyS_def split: option.split)

lemma terminate_sessions:
  assumes "wf_map (sessions_of st)" and "map_of (sessions_of st) (s_ID s) = Some s"
  shows "\<exists>st'. terminate m s reason st = (Inr (), st') \<and> sessions_of st' = end_those {s_ID s} reason (sessions_of st)"
proof -
  have d: "mw_mem (snd (cl_Delete (sm_Sandbox m) i w)) = mw_mem w" for i w
    using delete_quiet [of i] by (simp add: mem_quiet_def)
  show ?thesis
    using assms map_put_ended [OF assms, of reason]
    by (auto simp: terminate_def thenS_def bindS_def on_world_def returnS_def getS_def drop_live_def modifyS_def
        emit_session_def change_log_def store_memory memory_store_def with_mem_def UpdateSession_def ended_def d
        split: prod.splits option.splits sum.splits dest: mem_quietD [OF delete_quiet])
qed

lemma terminate_all_sessions:
  assumes "wf_map (sessions_of st)" and "distinct (map s_ID ss)"
    and "\<And>s. s \<in> set ss \<Longrightarrow> map_of (sessions_of st) (s_ID s) = Some s"
  shows "\<exists>st'. terminate_all m ss st = (Inr () :: 'e + unit, st') \<and>
    sessions_of st' = end_those (s_ID ` set ss) ''replaced by a new session'' (sessions_of st)"
  using assms
proof (induction ss arbitrary: st)
  case Nil
  then show ?case by (simp add: returnS_def)
next
  case (Cons s ss)
  obtain st1 where t: "terminate m s ''replaced by a new session'' st = (Inr () :: 'e + unit, st1)"
    "sessions_of st1 = end_those {s_ID s} ''replaced by a new session'' (sessions_of st)"
    using terminate_sessions [of st s "''replaced by a new session''"] Cons.prems by auto
  have "map_of (sessions_of st1) (s_ID s') = Some s'" if "s' \<in> set ss" for s'
  proof -
    have "s_ID s' \<noteq> s_ID s" using Cons.prems(2) that by (auto simp: image_iff)
    then show ?thesis using Cons.prems(3) [of s'] that by (simp add: t(2) end_those_map_of)
  qed
  with Cons.IH [of st1] Cons.prems(1,2) t obtain st' where st': "terminate_all m ss st1 = (Inr () :: 'e + unit, st')"
    "sessions_of st' = end_those (s_ID ` set ss) ''replaced by a new session'' (sessions_of st1)" by auto
  have "sessions_of st' = end_those (s_ID ` set (s # ss)) ''replaced by a new session'' (sessions_of st)"
    unfolding st'(2) t(2) by (auto simp: end_those_def ended_def)
  with t st' show ?case by (simp add: thenS_def bindS_def)
qed

text \<open>The replacement leaves no live session of a device at its limit.\<close>

lemma replace_sessions_counts:
  assumes "sessions_ok st" and "0 < lm_PerDevice (sm_Limits m)"
    and "replace_sessions m dev (live_count (\<lambda>s. s_Device s = dev) (session_list st)) byIP st = (Inr byIP', st')"
  shows "live_count (\<lambda>s. s_Device s = dev) (session_list st') < lm_PerDevice (sm_Limits m) \<and>
    live_count P (session_list st') \<le> live_count P (session_list st) \<and>
    live_count (\<lambda>s. s_IP s = ip) (session_list st') - byIP' \<le>
      live_count (\<lambda>s. s_IP s = ip) (session_list st) - byIP +
      live_count (\<lambda>s. s_Device s = dev \<and> s_IP s \<noteq> ip) (session_list st)"
proof (cases "lm_PerDevice (sm_Limits m) \<le> live_count (\<lambda>s. s_Device s = dev) (session_list st)")
  case False
  then show ?thesis using assms(3) by (simp add: replace_sessions_def returnS_def live_count_def)
next
  case True
  let ?kss = "sessions_of st" and ?mine = "filter (\<lambda>s. Live s \<and> s_Device s = dev) (session_list st)"
  let ?ids = "s_ID ` set ?mine"
  have wf: "wf_map ?kss" and own: "list_all (\<lambda>(k, s). s_ID s = k) ?kss" using assms(1) by (simp_all add: sessions_ok_def Let_def)
  have keys: "map s_ID (map snd ?kss) = map fst ?kss" using own by (induction ?kss) (auto simp: list_all_iff)
  have "distinct (map s_ID (map snd ?kss))" using wf by (simp only: keys wf_map_def)
  then have d: "distinct (map s_ID ?mine)" by (simp add: session_list_def distinct_map_filter)
  have look: "map_of ?kss (s_ID s) = Some s" if "s \<in> set ?mine" for s
    using that own wf by (auto simp: session_list_def list_all_iff wf_map_in_iff [symmetric])
  obtain st1 where t: "terminate_all m ?mine st = (Inr () :: error + unit, st1)"
    "sessions_of st1 = end_those ?ids ''replaced by a new session'' ?kss"
    using terminate_all_sessions [OF wf d look] by auto
  have f: "on_world (so_LiveSessionsForDevice (sm_Store m) dev) st = (Inr (Inr ?mine), st)"
    by (simp add: on_world_def store_memory memory_store_def with_mem_def LiveSessionsForDevice_def session_list_def)
  have r: "byIP' = byIP - int (length ?mine)" "st' = st1"
    using assms(3) True t(1) by (simp_all add: replace_sessions_def bindS_def f attempt_def returnS_def thenS_def)
  have iff: "list_all (\<lambda>(k, s). k \<in> ?ids \<longleftrightarrow> Live s \<and> s_Device s = dev) ?kss"
  proof -
    have "k \<in> ?ids \<longleftrightarrow> Live s \<and> s_Device s = dev" if ks: "(k, s) \<in> set ?kss" for k s
    proof
      assume "k \<in> ?ids"
      then obtain s' where s': "s' \<in> set ?mine" "k = s_ID s'" by blast
      with look have "map_of ?kss k = Some s'" by blast
      moreover have "map_of ?kss k = Some s" using ks wf by (simp add: wf_map_in_iff)
      ultimately show "Live s \<and> s_Device s = dev" using s' by simp
    next
      assume "Live s \<and> s_Device s = dev"
      moreover have "s \<in> set (session_list st)" using ks by (force simp: session_list_def)
      moreover have "s_ID s = k" using ks own by (auto simp: list_all_iff)
      ultimately show "k \<in> ?ids" by auto
    qed
    then show ?thesis by (auto simp: list_all_iff)
  qed
  have zero: "live_count (\<lambda>s. s_Device s = dev) (session_list st1) = 0"
    using iff unfolding session_list_def t(2) by (intro live_count_end) (auto simp: list_all_iff)
  have le: "live_count P (session_list st1) \<le> live_count P (session_list st)"
    unfolding session_list_def t(2) by (rule live_count_end_le)
  have "live_count (\<lambda>s. s_IP s = ip) (session_list st1) =
      live_count (\<lambda>s. s_IP s = ip) (session_list st) - live_count (\<lambda>s. s_Device s = dev) (session_list st) +
      live_count (\<lambda>s. s_Device s = dev \<and> s_IP s \<noteq> ip) (session_list st)"
    using iff unfolding session_list_def t(2) by (rule live_count_end_split)
  with zero le r assms(2) show ?thesis by (simp add: live_count_def)
qed

lemma Ensure_sessions:
  assumes "Ensure (sm_Builder m) i h = (r, h')"
  shows "mm_sessions (mw_mem (hb_world h')) = mm_sessions (mw_mem (hb_world h))"
  using assms
  by (auto simp: Ensure_def builds_memory memory_store_def with_mem_def with_now_def with_id_def GetBuildBySHA_def
      UpdateBuild_def CreateBuild_def Let_def time_Now_def new_id_def start_def
      split: prod.splits sum.splits option.splits if_splits dest!: mem_quietD [OF clock_quiet])

lemma start_session_sessions:
  assumes "start_session m dev ip bld i st = (r, st')"
  shows "\<exists>k s. sessions_of st' = map_put k s (sessions_of st)"
  using assms
  by (auto simp: start_session_def bindS_def thenS_def on_world_def modifyS_def returnS_def attempt_def throwS_def
      store_memory memory_store_def with_mem_def with_now_def with_id_def CreateSession_def RecordVisit_def Let_def
      time_Now_def new_id_def
      split: prod.splits sum.splits option.splits if_splits dest!: mem_quietD [OF now_quiet]) ((rule exI)+, rule refl)+

lemma Create_counts:
  assumes "sessions_ok st" and "0 < lm_PerDevice (sm_Limits m)"
    and "Manager_Create m dev ip repoRef st = (Inr x, st')"
  shows "live_count (\<lambda>s. s_Device s = dev) (session_list st') \<le> lm_PerDevice (sm_Limits m) \<and>
    live_count (\<lambda>s. True) (session_list st') \<le> lm_Global (sm_Limits m) \<and>
    live_count (\<lambda>s. s_IP s = ip) (session_list st') \<le>
      lm_PerIP (sm_Limits m) + live_count (\<lambda>s. s_Device s = dev \<and> s_IP s \<noteq> ip) (session_list st)"
proof -
  let ?dev = "live_count (\<lambda>s. s_Device s = dev) (session_list st)"
    and ?ip = "live_count (\<lambda>s. s_IP s = ip) (session_list st)" and ?all = "live_count (\<lambda>s. True) (session_list st)"
  have counts: "on_world (so_LiveSessions (sm_Store m) dev ip) st = (Inr (Inr (?dev, ?ip, ?all)), st)"
    by (simp add: on_world_def store_memory memory_store_def with_mem_def LiveSessions_def count_live_fold
        session_list_def live_count_def)
  obtain ref where ref: "Parse repoRef = Inr ref"
    using assms(3) by (cases "Parse repoRef") (auto simp: Manager_Create_def bind_attempt)
  note c = assms(3) [unfolded Manager_Create_def bind_attempt [of "Inr ref"] bind_attempt [of "Inr (?dev, ?ip, ?all)"] ref sum.case bind_known [where f = "on_world (so_LiveSessions (sm_Store m) dev ip)", OF counts] prod.case]
  have global: "?all < lm_Global (sm_Limits m)" using c by (auto simp: throwS_def split: if_splits)
  obtain byIP' st1 where rep: "replace_sessions m dev ?dev ?ip st = (Inr byIP', st1)" and
    perip: "byIP' < lm_PerIP (sm_Limits m)" and
    rest: "bindS (on_world (sm_Resolve m ref)) (\<lambda>ir. bindS (attempt ir) (\<lambda>info.
         bindS (on_hub (Ensure (sm_Builder m) info)) (\<lambda>br.
         bindS (attempt br) (\<lambda>bld. start_session m dev ip bld info)))) st1 = (Inr x, st')"
    using c global bind_returned [where f = "replace_sessions m dev ?dev ?ip" and st = st] by (fastforce simp: throwS_def split: if_splits)
  obtain k s where put: "sessions_of st' = map_put k s (sessions_of st1)"
  proof -
    obtain ir st2 where s2: "on_world (sm_Resolve m ref) st1 = (Inr ir :: error + _, st2)" and
      r2: "bindS (attempt ir) (\<lambda>info. bindS (on_hub (Ensure (sm_Builder m) info)) (\<lambda>br.
         bindS (attempt br) (\<lambda>bld. start_session m dev ip bld info))) st2 = (Inr x, st')"
      using bind_returned [OF rest] by blast
    obtain info where i: "ir = Inr info" using r2 by (cases ir) (auto simp: bind_attempt)
    obtain br st3 where h: "on_hub (Ensure (sm_Builder m) info) st2 = (Inr br :: error + _, st3)" and
      r3: "bindS (attempt br) (\<lambda>bld. start_session m dev ip bld info) st3 = (Inr x, st')"
      using bind_returned [OF r2 [unfolded i bind_attempt [of "Inr info"] sum.case]] by blast
    obtain bld where b: "start_session m dev ip bld info st3 = (Inr x, st')"
      using r3 by (cases br) (auto simp: bind_attempt)
    have "sessions_of st3 = sessions_of st1"
      using h Ensure_sessions world_quiet [OF resolve_quiet s2] by (auto simp: on_hub_def split: prod.splits)
    then show ?thesis using start_session_sessions [OF b] that by auto
  qed
  have more: "live_count P (session_list st') \<le> live_count P (session_list st1) + 1" for P
    unfolding session_list_def put by (rule live_count_put)
  note r = replace_sessions_counts [OF assms(1,2) rep]
  from r [of "\<lambda>s. True" ip] more [of "\<lambda>s. s_Device s = dev"] more [of "\<lambda>s. s_IP s = ip"] more [of "\<lambda>s. True"] global perip
  show ?thesis by linarith
qed

end

section \<open>The surroundings of the tests\<close>

text \<open>A manager on the in-process store and the fake platform; nothing else runs while it waits.\<close>

definition fake_manager :: "codec \<Rightarrow> (ref \<Rightarrow> info result) \<Rightarrow> limits \<Rightarrow> 'a world_scheme manager" where
  "fake_manager cd resolve lm =
    \<lparr>sm_Store = memory_store, sm_Sandbox = fake_client, sm_Builder = fake_builder cd None,
     sm_Resolve = (\<lambda>r w. (resolve r, w)), sm_Limits = init_limits lm, sm_Now = world_clock, sm_Poll = init_poll 0,
     sm_Next = (\<lambda>k i st. (None, st)),
     sm_Others = (\<lambda>st. st\<lparr>ms_hub := (ms_hub st)\<lparr>hb_world := snd (world_sleep (init_poll 0) (hb_world (ms_hub st)))\<rparr>\<rparr>)\<rparr>"

lemma fake_manager_sels [simp]:
  "sm_Store (fake_manager cd rs lm) = memory_store" "sm_Sandbox (fake_manager cd rs lm) = fake_client"
  "sm_Builder (fake_manager cd rs lm) = fake_builder cd None" "sm_Resolve (fake_manager cd rs lm) = (\<lambda>r w. (rs r, w))"
  "sm_Limits (fake_manager cd rs lm) = init_limits lm" "sm_Now (fake_manager cd rs lm) = world_clock"
  by (simp_all add: fake_manager_def)

lemma fake_quiet:
  "mem_quiet (cl_Delete fake_client i)" "mem_quiet (cl_Create fake_client sp)" "mem_quiet (cl_Get fake_client i)"
  "mem_quiet (cl_WaitReady fake_client i t)" "mem_quiet (cl_ExposePort fake_client i p)"
  "mem_quiet (cl_Keepalive fake_client i)" "mem_quiet (world_clock :: 'a world_scheme \<Rightarrow> _)"
  by (auto simp: mem_quiet_def fake_client_def with_fake_def world_clock_def split: prod.split)

interpretation fake_limits: memory_manager "fake_manager cd rs lm" for cd rs lm
  by unfold_locales (simp_all add: fake_quiet, simp add: mem_quiet_def)

section \<open>The properties\<close>

text \<open>
  C13: After a \<open>Create\<close> that succeeded, the device has no more live sessions than its limit and the program
  no more than the global limit. The address has no more than its limit plus the live sessions that the
  device had at other addresses: each replaced session is taken off the count of the caller's address,
  wherever it was opened.
\<close>

theorem Create_within_limits:
  assumes "memory_manager m" and "memory_ok (mw_mem (hb_world (ms_hub st)))" and "0 < lm_PerDevice (sm_Limits m)"
    and "Manager_Create m dev ip repoRef st = (Inr x, st')"
  shows "live_count (\<lambda>s. s_Device s = dev) (session_list st') \<le> lm_PerDevice (sm_Limits m) \<and>
    live_count (\<lambda>s. True) (session_list st') \<le> lm_Global (sm_Limits m) \<and>
    live_count (\<lambda>s. s_IP s = ip) (session_list st') \<le>
      lm_PerIP (sm_Limits m) + live_count (\<lambda>s. s_Device s = dev \<and> s_IP s \<noteq> ip) (session_list st)"
  using memory_manager.Create_counts [OF assms(1) _ assms(3, 4)] assms(2)
  by (simp add: sessions_ok_def memory_ok_def)

definition limits_session :: "string \<Rightarrow> string \<Rightarrow> string \<Rightarrow> string \<times> session" where
  "limits_session k dev ip = (k, no_session\<lparr>s_ID := k, s_Device := dev, s_IP := ip, s_Status := SessionLive\<rparr>)"

definition limits_state :: "world mstate" where
  "limits_state = \<lparr>ms_hub = \<lparr>hb_world = \<lparr>mw_mem = NewMemory\<lparr>mm_sessions :=
        [limits_session ''1'' ''x'' ''A'', limits_session ''2'' ''y'' ''A'', limits_session ''3'' ''z'' ''B'']\<rparr>,
      mw_host = \<lparr>h_clock = int, h_rand = (\<lambda>n. replicate (Suc n) (CHR ''x'')), h_now = 5, h_id = 0\<rparr>, wd_fake = NewFake\<rparr>,
      hb_runs = [], hb_active = []\<rparr>, ms_logs = [], ms_live = [], ms_spawned = []\<rparr>"

definition limits_manager :: "world manager" where
  "limits_manager = fake_manager demo_codec (\<lambda>_. Inr demo_info) no_limits"

lemmas create_defs = Manager_Create_def replace_sessions_def start_session_def new_session_def init_limits_def
  DefaultLimits_def bindS_def thenS_def on_world_def on_hub_def returnS_def throwS_def attempt_def getS_def modifyS_def
  drop_live_def terminate_def ended_def emit_session_def change_log_def
  memory_store_def with_mem_def with_now_def with_id_def LiveSessions_def count_live_def LiveSessionsForDevice_def
  UpdateSession_def CreateSession_def RecordVisit_def GetBuildBySHA_def CreateBuild_def NewMemory_def
  Ensure_def new_build_def start_def world_clock_def time_Now_def new_id_def no_session_def no_build_def Live_def
  Let_def session_statuses build_statuses

text \<open>Two devices are live at address \<open>A\<close>; a third one, live at \<open>B\<close>, opens a session at \<open>A\<close>.\<close>

theorem Create_within_limits_witness:
  "\<exists>x st'. Manager_Create limits_manager ''z'' ''A'' ''a/b'' limits_state = (Inr x, st') \<and>
    live_count (\<lambda>s. s_Device s = ''z'') (session_list st') \<le> 1 \<and>
    live_count (\<lambda>s. s_IP s = ''A'') (session_list st') = 3 \<and> lm_PerIP (sm_Limits limits_manager) = 2"
proof -
  obtain r where r: "Parse ''a/b'' = Inr r" by (rule exE [of "\<lambda>r. Parse ''a/b'' = Inr r"]) (rule exI, code_simp)
  obtain c st' where c: "Manager_Create limits_manager ''z'' ''A'' ''a/b'' limits_state = (c, st')" by fastforce
  have id: "NewID ''xx'' = ''7878''" "NewID ''x'' = ''78''" by code_simp+
  have v: "\<exists>x. c = Inr x" "live_count (\<lambda>s. s_IP s = ''A'') (session_list st') = 3"
    using c by (auto simp: create_defs r id live_count_def limits_manager_def limits_state_def limits_session_def
        session_list_def demo_info_def)
  obtain x where x: "c = Inr x" using v(1) by blast
  have m: "memory_manager limits_manager" unfolding limits_manager_def by (rule fake_limits.memory_manager_axioms)
  have ok: "memory_ok (mw_mem (hb_world (ms_hub limits_state)))"
    by (simp add: limits_state_def memory_ok_def NewMemory_def wf_map_def limits_session_def)
  have l: "sm_Limits limits_manager = DefaultLimits" by (simp add: limits_manager_def init_limits_def)
  show ?thesis
    using Create_within_limits [OF m ok _ c [unfolded x]] v(2) c x by (simp add: l DefaultLimits_def)
qed

end
