(* ===== verification/Session_Ends.thy ===== *)
theory Session_Ends
  imports Session_Limits
begin

text \<open>
  How sessions end: every way in which \<open>run\<close> returns leaves the log of the session finished, with any store, and the
  stored session ended, with a store that keeps its laws. What \<open>run\<close> keeps is proved once, in the locale
  \<open>session_invariant\<close>, for any predicate that its steps keep; the two kinds of stores are instances. An ended session keeps its reason, the single extension stays within the hard cap, and watching a live
  session comes to an end.
\<close>

section \<open>What a session is to the store and its listeners\<close>

text \<open>A step of the world that leaves the sessions alone.\<close>

definition leaves :: "('w \<Rightarrow> 'v) \<Rightarrow> ('w \<Rightarrow> 'r \<times> 'w) \<Rightarrow> bool" where
  "leaves view f \<longleftrightarrow> (\<forall>w. view (snd (f w)) = view w)"

definition view_of :: "('w \<Rightarrow> 'v) \<Rightarrow> 'w mstate \<Rightarrow> 'v" where
  "view_of view st = view (hb_world (ms_hub st))"

text \<open>The session is stored and has a log.\<close>

definition known :: "('w \<Rightarrow> string \<Rightarrow> session option) \<Rightarrow> string \<Rightarrow> 'w mstate \<Rightarrow> bool" where
  "known view k st \<longleftrightarrow> (\<exists>s. view_of view st k = Some s \<and> s_ID s = k) \<and> map_of (ms_logs st) k \<noteq> None"

text \<open>It has ended and its log is finished.\<close>

definition over_for :: "('w \<Rightarrow> string \<Rightarrow> session option) \<Rightarrow> string \<Rightarrow> 'w mstate \<Rightarrow> bool" where
  "over_for view k st \<longleftrightarrow>
    (\<exists>s. view_of view st k = Some s \<and> s_Status s = SessionEnded) \<and> (\<exists>l. map_of (ms_logs st) k = Some l \<and> Done l)"

text \<open>The time \<open>Extend\<close> goes by: what the clock reads after the platform was told to keep the sandbox.\<close>

definition extension_time :: "'w manager \<Rightarrow> session \<Rightarrow> 'w mstate \<Rightarrow> time" where
  "extension_time m s st =
    fst (sm_Now m (snd (cl_Keepalive (sm_Sandbox m) (s_SandboxID s) (hb_world (ms_hub st)))))"

text \<open>
  Around the stored sessions, or any view of them: everything \<open>run\<close> calls but \<open>UpdateSession\<close> leaves them alone, whether it succeeds
  or fails.
\<close>

locale session_surroundings =
  fixes m :: "'w manager" and sview :: "'w \<Rightarrow> 'v"
  assumes client_leaves: "leaves sview (cl_Create (sm_Sandbox m) spec)" "leaves sview (cl_Delete (sm_Sandbox m) i)"
      "leaves sview (cl_Get (sm_Sandbox m) i)" "leaves sview (cl_WaitReady (sm_Sandbox m) i t)"
      "leaves sview (cl_ExposePort (sm_Sandbox m) i p)" "leaves sview (cl_Keepalive (sm_Sandbox m) i)"
    and now_leaves: "leaves sview (sm_Now m)" "leaves sview (bd_Now (sm_Builder m))"
    and store_leaves: "leaves sview (so_GetBuild (sm_Store m) i)" "leaves sview (so_UpdateBuild (sm_Store m) b)"
      "leaves sview (so_GetBuild (bd_Store (sm_Builder m)) i)" "leaves sview (so_UpdateBuild (bd_Store (sm_Builder m)) b)"
      "leaves sview (so_CreateBuild (bd_Store (sm_Builder m)) b)"
      "leaves sview (so_GetBuildBySHA (bd_Store (sm_Builder m)) ow rp sha)"
    and session_leaves: "leaves sview (so_GetSession (sm_Store m) i)"
begin

text \<open>A predicate on the stored sessions, the logs and the live set survives every step that leaves them alone.\<close>

definition framed :: "('w mstate \<Rightarrow> bool) \<Rightarrow> bool" where
  "framed I \<longleftrightarrow> (\<forall>st st'. view_of sview st' = view_of sview st \<longrightarrow> ms_logs st' = ms_logs st \<longrightarrow> ms_live st' = ms_live st \<longrightarrow>
    I st \<longrightarrow> I st')"

lemma framedD:
  "framed I \<Longrightarrow> I st \<Longrightarrow> view_of sview st' = view_of sview st \<Longrightarrow> ms_logs st' = ms_logs st \<Longrightarrow> ms_live st' = ms_live st \<Longrightarrow> I st'"
  by (simp only: framed_def)

lemma framed_world: "framed I \<Longrightarrow> leaves sview f \<Longrightarrow> keeps I (on_world f)"
  by (rule keepsI, erule framedD, assumption)
    (simp_all add: view_of_def on_world_def leaves_def split: prod.split, metis snd_conv)

lemma framed_get_session: "framed I \<Longrightarrow> keeps I (on_world (so_GetSession (sm_Store m) i))"
  by (rule framed_world [OF _ session_leaves])

lemma Ensure_leaves:
  assumes "Ensure (sm_Builder m) i h = (r, h')"
  shows "sview (hb_world h') = sview (hb_world h)"
proof -
  have l: "leaves sview f \<Longrightarrow> f w = (r, w') \<Longrightarrow> sview w' = sview w" for f :: "'w \<Rightarrow> 'x \<times> 'w" and w r w'
    by (metis leaves_def snd_conv)
  show ?thesis
    using assms by (auto simp: Ensure_def start_def split: prod.splits sum.splits option.splits if_splits
        dest!: l [OF now_leaves(2)] l [OF store_leaves(4)] l [OF store_leaves(5)] l [OF store_leaves(6)])
qed

lemma framed_Ensure: "framed I \<Longrightarrow> keeps I (on_hub (Ensure (sm_Builder m) i))"
  by (rule keepsI, erule framedD, assumption)
    (simp_all add: view_of_def on_hub_def Ensure_leaves split: prod.split)

lemma Subscribe_leaves:
  assumes "builder_Subscribe (sm_Builder m) i h = (r, h')"
  shows "sview (hb_world h') = sview (hb_world h)"
proof -
  have "sview (snd (so_GetBuild (bd_Store (sm_Builder m)) j w)) = sview w" for j w
    using store_leaves(3) by (simp add: leaves_def)
  then show ?thesis
    using assms by (auto simp: builder_Subscribe_def split: prod.splits sum.splits option.splits) (metis snd_conv)+
qed

lemma framed_Subscribe: "framed I \<Longrightarrow> keeps I (on_hub (builder_Subscribe (sm_Builder m) i))"
  by (rule keepsI, erule framedD, assumption)
    (simp_all add: view_of_def on_hub_def Subscribe_leaves split: prod.split)

end

section \<open>Every return ends the session\<close>

lemma raises_steps: "raises P (on_world g)" "raises P (on_hub h)" "raises P (change_log i f)" "raises P (emit_session i ev)"
    "raises P (next_event m j n)"
  by (auto simp: raises_def on_world_def on_hub_def change_log_def emit_session_def modifyS_def next_event_def split: prod.split)

lemma raises_emit_all: "raises P (emit_all i evs)"
  by (induction evs) (simp_all add: raises_return raises_then raises_steps)

text \<open>
  What \<open>run\<close> needs to know of its session, \<open>kn\<close>, and what is true when it has ended, \<open>ov\<close>. The records it writes
  are versions of one session, \<open>fit\<close>: the steps keep what is known, reading the session again gives such a record,
  and the closure \<open>end\<close> establishes the end.
\<close>

locale session_invariant = session_surroundings m sview
  for m :: "'w manager" and sview :: "'w \<Rightarrow> 'v" +
  fixes fit :: "string \<Rightarrow> session \<Rightarrow> bool" and kn ov :: "string \<Rightarrow> 'w mstate \<Rightarrow> bool"
  assumes framed_kn: "framed (kn k)"
    and kn_log: "keeps (kn k) (change_log i f :: ('w mstate, session_exit, unit) action)"
    and kn_update: "fit k s \<Longrightarrow> keeps (kn k) (on_world (so_UpdateSession (sm_Store m) s) :: ('w mstate, session_exit, error option) action)"
    and kn_others: "kn k st \<Longrightarrow> kn k (sm_Others m st)"
    and kn_next: "kn k st \<Longrightarrow> kn k (snd (sm_Next m j n st))"
    and kn_fresh: "kn k st \<Longrightarrow> fst (so_GetSession (sm_Store m) k (hb_world (ms_hub st))) = Inr s \<Longrightarrow> fit k s"
    and kn_end: "fit k s \<Longrightarrow> kn k st \<Longrightarrow> \<exists>st'. end_session m s reason st = (Inr () :: session_exit + unit, st') \<and> ov k st'"
    and fit_ID: "fit k s \<Longrightarrow> s_ID s = k"
    and fit_change: "fit k s \<Longrightarrow> fit k (s\<lparr>s_Status := SessionStarting\<rparr>)" "fit k s \<Longrightarrow> fit k (s\<lparr>s_SandboxID := sid\<rparr>)"
      "fit k s \<Longrightarrow> fit k (s\<lparr>s_PreviewURL := url\<rparr>)" "fit k s \<Longrightarrow> fit k (live_session s exp)"
begin

lemmas kn_world = framed_world [OF framed_kn]
lemmas kn_get_session = framed_get_session [OF framed_kn]
lemmas kn_Ensure = framed_Ensure [OF framed_kn]
lemmas kn_Subscribe = framed_Subscribe [OF framed_kn]

lemma kn_emit: "keeps (kn k) (emit_session i ev :: ('w mstate, session_exit, unit) action)"
  by (simp add: emit_session_def kn_log)

lemma kn_emit_all: "keeps (kn k) (emit_all i evs :: ('w mstate, session_exit, unit) action)"
  by (induction evs) (simp_all add: keeps_return keeps_then kn_emit)

lemma kn_next_event: "keeps (kn k) (next_event m j i)"
  by (rule keepsI) (simp add: next_event_def kn_next split: prod.split, metis kn_next snd_conv)

lemma kn_modify_others: "keeps (kn k) (modifyS (sm_Others m))"
  by (rule keeps_modify) (rule kn_others)

lemma valid_finish:
  assumes "fit k s"
  shows "valid (kn k) (finish_session m s reason) Q (\<lambda>e st. e = SessionOver \<and> ov k st)"
proof (rule validI)
  fix st assume "kn k st"
  from kn_end [OF assms this, of reason] obtain st' where "end_session m s reason st = (Inr () :: session_exit + unit, st')" "ov k st'"
    by blast
  then show "case finish_session m s reason st of (Inl e, s') \<Rightarrow> e = SessionOver \<and> ov k s' | (Inr x, s') \<Rightarrow> Q x s'"
    by (simp add: finish_session_def thenS_def bindS_def throwS_def)
qed

text \<open>A step after which the session is known, or over when \<open>run\<close> returned.\<close>

abbreviation after_end :: "string \<Rightarrow> session_exit \<Rightarrow> 'w mstate \<Rightarrow> bool" where
  "after_end k e st \<equiv> if e = SessionOver then ov k st else kn k st"

definition ends :: "string \<Rightarrow> ('w mstate, session_exit, 'a) action \<Rightarrow> bool" where
  "ends k f \<longleftrightarrow> valid (kn k) f (\<lambda>_. kn k) (after_end k)"

lemma ends_quiet: "keeps (kn k) f \<Longrightarrow> raises (\<lambda>e. e \<noteq> SessionOver) f \<Longrightarrow> ends k f"
  unfolding ends_def by (auto simp: keeps_valid valid_def raises_def split: prod.splits sum.splits) (metis fst_conv)+

lemma ends_bind: "ends k f \<Longrightarrow> (\<And>x. ends k (g x)) \<Longrightarrow> ends k (bindS f g)"
  unfolding ends_def by (rule valid_bind)

lemma ends_then: "ends k f \<Longrightarrow> ends k g \<Longrightarrow> ends k (thenS f g)"
  unfolding ends_def by (rule valid_then)

lemma ends_if: "(b \<Longrightarrow> ends k f) \<Longrightarrow> (\<not> b \<Longrightarrow> ends k g) \<Longrightarrow> ends k (if b then f else g)"
  by simp

lemma ends_case:
  "(\<And>e. ends k (f e)) \<Longrightarrow> (\<And>x. ends k (g x)) \<Longrightarrow> ends k (case r of Inl e \<Rightarrow> f e | Inr x \<Rightarrow> g x)"
  "ends k h \<Longrightarrow> (\<And>x. ends k (g x)) \<Longrightarrow> ends k (case o' of None \<Rightarrow> h | Some x \<Rightarrow> g x)"
  "(\<And>x y. ends k (p x y)) \<Longrightarrow> ends k (case q of (x, y) \<Rightarrow> p x y)"
  by (auto split: sum.split option.split prod.split)

lemma ends_return: "ends k (returnS x)" "e \<noteq> SessionOver \<Longrightarrow> ends k (throwS e)" "ends k (getS h)"
  by (auto simp: ends_def valid_def returnS_def throwS_def getS_def)

lemma ends_world: "leaves sview f \<Longrightarrow> ends k (on_world f)"
  by (rule ends_quiet, rule kn_world, assumption) (simp add: raises_def on_world_def split: prod.split)

lemma ends_steps:
  "ends k (on_world (so_GetSession (sm_Store m) i))" "fit k s \<Longrightarrow> ends k (on_world (so_UpdateSession (sm_Store m) s))"
  "ends k (emit_session i ev)" "ends k (emit_all i evs)" "ends k (on_hub (Ensure (sm_Builder m) i0))"
  "ends k (on_hub (builder_Subscribe (sm_Builder m) i))" "ends k (next_event m j n)" "ends k (modifyS (sm_Others m))"
  by (auto intro!: ends_quiet kn_get_session kn_update kn_emit kn_emit_all kn_Ensure kn_Subscribe
      kn_next_event kn_modify_others raises_steps raises_emit_all raise)

lemma ends_finish: "fit k s \<Longrightarrow> ends k (finish_session m s reason)"
  unfolding ends_def by (rule valid_weaken [OF valid_finish]) auto

lemma ends_stop: "fit k s \<Longrightarrow> ends k (stop_session m s code msg reason)"
  unfolding stop_session_def by (intro ends_then ends_steps ends_finish)

lemmas ends_rules = ends_bind ends_then ends_if ends_case ends_return ends_world ends_steps ends_finish ends_stop
  client_leaves now_leaves store_leaves

lemma ends_forward_event: "ends k (forward_event s b ev)"
  unfolding forward_event_def by (intro ends_rules)

lemma ends_forward_stored: "ends k (forward_stored s b evs)"
  by (induction evs arbitrary: b) (auto intro!: ends_rules ends_forward_event)

lemma ends_forward_live: "ends k (forward_live n m s j i b)"
  by (induction n arbitrary: i b) (auto intro!: ends_rules ends_forward_event)

lemma ends_follow: "fit k s \<Longrightarrow> ends k (follow n m s b)"
  unfolding follow_def forward_build_def Let_def
  by (auto intro!: ends_rules ends_forward_stored ends_forward_live split: stream.split)

lemma ends_rebuild: "ends k (rebuild m b i)"
  unfolding rebuild_def by (intro ends_rules)

lemma ends_restore: "fit k s \<Longrightarrow> ends k (restore n m s i rebuilt b)"
proof -
  assume s: "fit k s"
  have last: "ends k (restore n m s i True b)" for b
    by (subst restore.simps) (auto intro!: ends_rules simp: s)
  then have "ends k (restore n m s i False b)" for b
    by (subst restore.simps) (auto intro!: ends_rules ends_rebuild ends_follow simp: s)
  with last show ?thesis by (cases rebuilt) simp_all
qed

lemmas ends_D = ends_def [THEN iffD1]

lemma ends_expose:
  "fit k s \<Longrightarrow> valid (kn k) (expose_preview m s b sb) (\<lambda>s' st. kn k st \<and> fit k s') (after_end k)"
  unfolding expose_preview_def
  by (intro valid_if valid_bind [OF ends_D [OF ends_world [OF client_leaves(5)]]] valid_case_sum
      valid_then [OF ends_D [OF ends_steps(3)]] valid_return_I) (simp_all add: fit_change)

lemma ends_go_live:
  assumes "fit k s"
  shows "valid (kn k) (go_live m s b sb) (\<lambda>p st. kn k st \<and> fit k (fst p)) (after_end k)"
proof -
  let ?s = "s\<lparr>s_SandboxID := sx_ID sb\<rparr>"
  have id: "fit k ?s" by (rule fit_change(2)) (rule assms)
  have failed: "valid (kn k) (thenS (on_world (cl_Delete (sm_Sandbox m) i)) (stop_session m ?s c t r))
      (\<lambda>p st. kn k st \<and> fit k (fst p)) (after_end k)" for i c t r
    unfolding stop_session_def
    by (rule valid_then [OF ends_D [OF ends_world [OF client_leaves(2)]]],
        rule valid_then [OF ends_D [OF ends_steps(3)]],
        rule valid_weaken [OF valid_finish [OF id]]) simp_all
  have live: "valid (kn k) (let exp = now + lm_TTL (sm_Limits m); s2 = live_session s1 exp
       in thenS (on_world (so_UpdateSession (sm_Store m) s2)) (thenS (emit_all (s_ID s2)
            [TerminalData True, TTLData exp False, PhaseData (b_Status b) (s_Status s2) ''live'']) (returnS (s2, sb'))))
      (\<lambda>p st. kn k st \<and> fit k (fst p)) (after_end k)" if "fit k s1" for s1 now sb'
  proof -
    have i: "fit k (live_session s1 exp)" for exp using that by (rule fit_change(4))
    show ?thesis
      unfolding Let_def
      by (rule valid_then [OF ends_D [OF ends_steps(2)]], rule i, rule valid_then [OF ends_D [OF ends_steps(4)]])
        (simp add: valid_def returnS_def i)
  qed
  show ?thesis
    unfolding go_live_def Let_def [of ?s]
    apply (rule valid_then [OF ends_D [OF ends_steps(2)]], rule id)
    apply (rule valid_then [OF ends_D [OF ends_steps(8)]])
    apply (rule valid_bind [OF ends_D [OF ends_world [OF client_leaves(4)]]])
    apply (simp only: split: prod.split, intro allI impI)
    apply (rule valid_case_option)
     apply (rule valid_bind_fact [OF ends_expose], rule id)
     apply (rule valid_bind [OF ends_D [OF ends_world [OF now_leaves(1)]]])
     apply (rule live, assumption)
    apply (rule failed)
    done
qed

lemma ends_fresh:
  "valid (kn k) (on_world (so_GetSession (sm_Store m) k)) (\<lambda>r st. kn k st \<and> (\<forall>s. r = Inr s \<longrightarrow> fit k s)) E"
proof (rule validI)
  fix st assume k: "kn k st"
  obtain r w where g: "so_GetSession (sm_Store m) k (hb_world (ms_hub st)) = (r, w)" by fastforce
  have "kn k (snd (on_world (so_GetSession (sm_Store m) k) st))" by (rule keepsD [OF kn_get_session k])
  with kn_fresh [OF k] show "case on_world (so_GetSession (sm_Store m) k) st of (Inl e, s') \<Rightarrow> E e s'
      | (Inr r, st') \<Rightarrow> kn k st' \<and> (\<forall>s. r = Inr s \<longrightarrow> fit k s)"
    by (simp add: on_world_def g)
qed

lemma ends_watch: "fit k s \<Longrightarrow> ends k (watch n m sid s)"
proof (induction n arbitrary: s)
  case 0
  show ?case by (simp add: ends_return)
next
  case (Suc n)
  have fresh: "ends k (bindS (on_world (so_GetSession (sm_Store m) (s_ID s))) g)"
    if "\<And>r. \<forall>s. r = Inr s \<longrightarrow> fit k s \<Longrightarrow> ends k (g r)" for g
    unfolding ends_def fit_ID [OF Suc.prems] by (rule valid_bind_fact [OF ends_fresh], rule ends_D, rule that)
  show ?case
    unfolding watch.simps
    apply (intro fresh ends_then ends_steps ends_bind ends_world client_leaves ends_if ends_finish Suc.prems)
    apply (unfold Let_def)
    apply (intro ends_case ends_bind ends_if ends_then ends_world now_leaves client_leaves ends_finish Suc.IH)
    by (auto simp: Suc.prems split: sum.split)
qed

lemma ends_run: "fit k s \<Longrightarrow> ends k (session_run n m s b i)"
proof -
  assume s: "fit k s"
  have w: "ends k (bindS (go_live m s' b' sb) (\<lambda>(s', sb'). watch n m (sx_ID sb') s'))" if "fit k s'" for s' b' sb
    unfolding ends_def
    by (rule valid_bind_fact [OF ends_go_live [OF that]]) (use ends_watch in \<open>auto simp: case_prod_beta ends_def\<close>)
  note s' = fit_change(1) [OF s]
  show ?thesis
    unfolding session_run_def Let_def
    apply (rule ends_bind [OF ends_follow [OF s]])
    apply (rule ends_bind [OF ends_return(3)])
    apply (rule ends_then, intro ends_if ends_steps(4) ends_return(1))
    apply (rule ends_then [OF ends_steps(2) [OF s']])
    apply (rule ends_then [OF ends_steps(3)])
    apply (rule ends_bind [OF ends_restore [OF s']])
    apply (rule ends_case(3), rule w, rule s')
    done
qed

lemma run_ends:
  assumes "fit k s" and "kn k st" and "session_run fuel m s b i st = (r, st')"
  shows "if r = Inl SessionOver then ov k st' else kn k st'"
proof (cases r)
  case (Inl e)
  from valid_Inl [OF ends_D [OF ends_run [OF assms(1)]] assms(2), of fuel b i e st'] assms(3) Inl show ?thesis by auto
next
  case (Inr u)
  from valid_Inr [OF ends_D [OF ends_run [OF assms(1)]] assms(2), of fuel b i u st'] assms(3) Inr show ?thesis by simp
qed

end

section \<open>Stores that keep their promises\<close>

text \<open>The store obeys its laws, and the other goroutines keep the session stored and its log.\<close>

locale session_manager = session_surroundings m sview + session_store "sm_Store m" sview
  for m :: "'w manager" and sview :: "'w \<Rightarrow> string \<Rightarrow> session option" +
  assumes others_known: "known sview k st \<Longrightarrow> known sview k (sm_Others m st)"
    and next_known: "known sview k st \<Longrightarrow> known sview k (snd (sm_Next m j n st))"
begin

lemma framed_known: "framed (known sview k)"
  by (simp add: framed_def known_def)

lemmas known_world = framed_world [OF framed_known]
lemmas known_get_session = framed_get_session [OF framed_known]
lemmas known_Ensure = framed_Ensure [OF framed_known]
lemmas known_Subscribe = framed_Subscribe [OF framed_known]

lemma known_drop: "keeps (known sview k) (drop_live i)"
  unfolding drop_live_def by (rule keeps_modify) (simp add: known_def view_of_def)

lemma known_update: "keeps (known sview (s_ID s)) (on_world (so_UpdateSession (sm_Store m) s))"
proof (rule keepsI)
  fix st assume k: "known sview (s_ID s) st"
  then have "sview (hb_world (ms_hub st)) (s_ID s) \<noteq> None" by (auto simp: known_def view_of_def)
  from update_session [OF this] k show "known sview (s_ID s) (snd (on_world (so_UpdateSession (sm_Store m) s) st))"
    by (auto simp: known_def view_of_def on_world_def)
qed

lemma known_log: "keeps (known sview k) (change_log i f)" "keeps (known sview k) (emit_session i ev)"
proof -
  show *: "keeps (known sview k) (change_log i f)" for f
    by (rule keepsI) (auto simp: known_def view_of_def change_log_def modifyS_def split: option.split)
  then show "keeps (known sview k) (emit_session i ev)" by (simp add: emit_session_def)
qed

lemma known_emit_all: "keeps (known sview k) (emit_all i evs)"
  by (induction evs) (simp_all add: keeps_return keeps_then known_log)

lemma known_next: "keeps (known sview k) (next_event m j i)"
  by (rule keepsI) (simp add: next_event_def next_known split: prod.split, metis next_known snd_conv)

lemma known_others: "keeps (known sview k) (modifyS (sm_Others m))"
  by (rule keeps_modify) (rule others_known)

lemmas known_steps = known_world known_get_session known_log known_emit_all known_Ensure known_Subscribe known_next
  known_others known_drop client_leaves now_leaves store_leaves

text \<open>The effect of the closure \<open>end\<close>.\<close>

lemma end_session_effect:
  assumes "known sview (s_ID s) st"
  shows "\<exists>st'. end_session m s reason st = (Inr (), st') \<and> over_for sview (s_ID s) st' \<and>
    (\<forall>cur. view_of sview st (s_ID s) = Some cur \<longrightarrow>
      view_of sview st' (s_ID s) = Some (if s_Status cur = SessionEnded then cur else ended s reason)) \<and>
    (\<forall>j. j \<noteq> s_ID s \<longrightarrow> view_of sview st' j = view_of sview st j \<and> map_of (ms_logs st') j = map_of (ms_logs st) j)"
proof -
  let ?w = "hb_world (ms_hub st)"
  obtain cur l where c: "sview ?w (s_ID s) = Some cur" "map_of (ms_logs st) (s_ID s) = Some l"
    using assms by (auto simp: known_def view_of_def)
  have g: "so_GetSession (sm_Store m) (s_ID s) ?w = (Inr cur, ?w)" by (simp add: get_session c)
  have id: "s_ID (ended s reason) = s_ID s" "s_Status (ended s reason) = SessionEnded" by (simp_all add: ended_def)
  obtain w' where u: "so_UpdateSession (sm_Store m) (ended s reason) ?w = (None, w')"
    "sview w' = (sview ?w)(s_ID s \<mapsto> ended s reason)"
    using update_session [of ?w "ended s reason"] c(1) by (auto simp: id)
  show ?thesis
    using c
    by (auto simp: id end_session_def bindS_def thenS_def on_world_def g u change_log_def emit_session_def modifyS_def
        drop_live_def over_for_def view_of_def Done_def Finish_def Emit_def wakeAll_def)
qed

lemma session_known: "session_invariant m sview (\<lambda>k s. s_ID s = k) (known sview) (over_for sview)"
proof (intro session_invariant.intro session_invariant_axioms.intro session_surroundings_axioms)
  fix k st and s :: session assume "known sview k st" "fst (so_GetSession (sm_Store m) k (hb_world (ms_hub st))) = Inr s"
  then show "s_ID s = k" by (auto simp: get_session known_def view_of_def)
next
  fix s :: session and st :: "'w mstate" and reason k assume "s_ID s = k" "known sview k st"
  with end_session_effect [of s st reason]
  show "\<exists>st'. end_session m s reason st = (Inr () :: session_exit + unit, st') \<and> over_for sview k st'" by blast
qed (auto simp: framed_known known_log known_update others_known next_known live_session_def)

end

sublocale session_manager \<subseteq> recorded: session_invariant m sview "\<lambda>k s. s_ID s = k" "known sview" "over_for sview"
  by (rule session_known)

section \<open>Stores that fail\<close>

text \<open>
  The store may fail at any call, but what it returns is the record that was asked for, and a write it
  reports as failed or as done has either happened or not. The other goroutines keep the log.
\<close>

definition logged :: "('w \<Rightarrow> string \<Rightarrow> session option) \<Rightarrow> string \<Rightarrow> 'w mstate \<Rightarrow> bool" where
  "logged view k st \<longleftrightarrow> (\<forall>s. view_of view st k = Some s \<longrightarrow> s_ID s = k) \<and> map_of (ms_logs st) k \<noteq> None"

definition log_over :: "string \<Rightarrow> 'w mstate \<Rightarrow> bool" where
  "log_over k st \<longleftrightarrow> (\<exists>l. map_of (ms_logs st) k = Some l \<and> Done l)"

locale unreliable_manager = session_surroundings m sview
  for m :: "'w manager" and sview :: "'w \<Rightarrow> string \<Rightarrow> session option" +
  assumes get_own: "fst (so_GetSession (sm_Store m) i w) = Inr s \<Longrightarrow> sview w i = Some s"
    and update_maybe: "sview (snd (so_UpdateSession (sm_Store m) s w)) \<in> {sview w, (sview w)(s_ID s \<mapsto> s)}"
    and others_logged: "logged sview k st \<Longrightarrow> logged sview k (sm_Others m st)"
    and next_logged: "logged sview k st \<Longrightarrow> logged sview k (snd (sm_Next m j n st))"
begin

lemma framed_logged: "framed (logged sview k)"
  by (simp add: framed_def logged_def)

lemma logged_update: "keeps (logged sview (s_ID s)) (on_world (so_UpdateSession (sm_Store m) s))"
proof (rule keepsI)
  fix st assume "logged sview (s_ID s) st"
  with update_maybe [of s "hb_world (ms_hub st)"]
  show "logged sview (s_ID s) (snd (on_world (so_UpdateSession (sm_Store m) s) st))"
    by (auto simp: logged_def view_of_def on_world_def split: prod.split)
qed

lemma logged_log: "keeps (logged sview k) (change_log i f)"
  by (rule keepsI) (auto simp: logged_def view_of_def change_log_def modifyS_def split: option.split)

lemma end_session_logs:
  assumes "logged sview (s_ID s) st"
  shows "\<exists>st'. end_session m s reason st = (Inr (), st') \<and> log_over (s_ID s) st'"
proof -
  obtain l where l: "map_of (ms_logs st) (s_ID s) = Some l" using assms by (auto simp: logged_def)
  show ?thesis
    by (auto simp: end_session_def bindS_def thenS_def on_world_def change_log_def emit_session_def modifyS_def drop_live_def
        log_over_def ended_def Done_def Finish_def Emit_def wakeAll_def l split: prod.split)
qed

lemma session_logged: "session_invariant m sview (\<lambda>k s. s_ID s = k) (logged sview) log_over"
proof (intro session_invariant.intro session_invariant_axioms.intro session_surroundings_axioms)
  fix k st and s :: session assume "logged sview k st" "fst (so_GetSession (sm_Store m) k (hb_world (ms_hub st))) = Inr s"
  with get_own show "s_ID s = k" by (auto simp: logged_def view_of_def)
qed (auto simp: framed_logged logged_log logged_update others_logged next_logged end_session_logs live_session_def)

end

sublocale unreliable_manager \<subseteq> kept: session_invariant m sview "\<lambda>k s. s_ID s = k" "logged sview" log_over
  by (rule session_logged)

section \<open>Extending\<close>

context session_manager
begin

lemma Extend_effect:
  assumes "view_of sview st k = Some s" and "s_ID s = k" and "Extend m k st = (r, st')"
  shows "case r of
      Inl (s', e) \<Rightarrow> view_of sview st' = view_of sview st
    | Inr s' \<Rightarrow> s_Status s = SessionLive \<and> s_SandboxID s \<noteq> [] \<and> \<not> s_Extended s \<and> s' = extended (sm_Limits m) (extension_time m s st) s \<and>
        view_of sview st' = (view_of sview st)(k \<mapsto> s')"
proof -
  let ?w = "hb_world (ms_hub st)"
  have g: "so_GetSession (sm_Store m) k ?w = (Inr s, ?w)" using assms(1) by (simp add: get_session view_of_def)
  have l: "leaves sview f \<Longrightarrow> f w = (x, w') \<Longrightarrow> sview w' = sview w" for f :: "'w \<Rightarrow> 'x \<times> 'w" and w x w'
    by (metis leaves_def snd_conv)
  obtain ke w1 where ke: "cl_Keepalive (sm_Sandbox m) (s_SandboxID s) ?w = (ke, w1)" by fastforce
  obtain now w2 where now: "sm_Now m w1 = (now, w2)" by fastforce
  let ?s = "extended (sm_Limits m) now s"
  have v: "sview w1 = sview ?w" "sview w2 = sview ?w"
    using l [OF client_leaves(6) ke] l [OF now_leaves(1) now] by simp_all
  have id: "s_ID ?s = k" using assms(2) by (simp add: extended_def Let_def)
  have "sview w2 (s_ID ?s) \<noteq> None" using assms(1) v(2) by (simp add: id view_of_def)
  from update_session [OF this] obtain w3 where u: "so_UpdateSession (sm_Store m) ?s w2 = (None, w3)"
    "sview w3 = (sview ?w)(k \<mapsto> ?s)" by (auto simp: id v(2))
  show ?thesis
    using assms(3)
    by (cases ke) (auto simp: Extend_def bindS_def on_world_def g ke now throwS_def Let_def u getS_def thenS_def
        emit_session_def change_log_def modifyS_def returnS_def view_of_def v extension_time_def split: if_splits option.splits)
qed

lemma Extend_succeeds:
  assumes "view_of sview st k = Some s" and "s_ID s = k" and "s_Status s = SessionLive" and "s_SandboxID s \<noteq> []" and "\<not> s_Extended s"
    and ke: "cl_Keepalive (sm_Sandbox m) (s_SandboxID s) (hb_world (ms_hub st)) = (None, w1)"
  shows "fst (Extend m k st) = Inr (extended (sm_Limits m) (fst (sm_Now m w1)) s)"
proof -
  let ?w = "hb_world (ms_hub st)"
  have g: "so_GetSession (sm_Store m) k ?w = (Inr s, ?w)" using assms(1) by (simp add: get_session view_of_def)
  obtain now w2 where now: "sm_Now m w1 = (now, w2)" by fastforce
  let ?s = "extended (sm_Limits m) now s"
  have v: "sview w2 = sview ?w"
    using client_leaves(6) [unfolded leaves_def] now_leaves(1) [unfolded leaves_def] ke now by (metis snd_conv)
  have id: "s_ID ?s = k" using assms(2) by (simp add: extended_def Let_def)
  have "sview w2 (s_ID ?s) \<noteq> None" using assms(1) v by (simp add: id view_of_def)
  from update_session [OF this] obtain w3 where u: "so_UpdateSession (sm_Store m) ?s w2 = (None, w3)" by auto
  show ?thesis
    using assms(3-5)
    by (simp add: Extend_def bindS_def on_world_def g ke now Let_def u getS_def thenS_def
        emit_session_def change_log_def modifyS_def returnS_def split: option.split)
qed

lemma Extend_again:
  assumes "view_of sview st k = Some s" and "s_Status s = SessionLive" and "s_SandboxID s \<noteq> []" and "s_Extended s"
  shows "fst (Extend m k st) = Inl (s, ErrAlreadyExtnd)"
  using assms by (simp add: Extend_def bindS_def on_world_def get_session view_of_def throwS_def)

end

section \<open>Watching ends\<close>

text \<open>Sessions are stored under their identifiers.\<close>

definition filed :: "(string \<Rightarrow> session option) \<Rightarrow> bool" where
  "filed v \<longleftrightarrow> (\<forall>k s. v k = Some s \<longrightarrow> s_ID s = k)"

lemma filed_put [simp]: "filed v \<Longrightarrow> s_ID s = k \<Longrightarrow> filed (v(k \<mapsto> s))"
  by (simp add: filed_def)

lemma filedD: "filed v \<Longrightarrow> v k = Some s \<Longrightarrow> s_ID s = k"
  by (simp add: filed_def)

text \<open>
  The clock: a reading lies between the times around it, and waiting for the next poll takes its time.
  The other goroutines may extend the session: they keep it stored with an expiry up to any cap that is not
  below its hard cap.
\<close>

definition expires_by :: "time \<Rightarrow> ('w \<Rightarrow> string \<Rightarrow> session option) \<Rightarrow> string \<Rightarrow> time \<Rightarrow> 'w \<Rightarrow> bool" where
  "expires_by maxTTL view k cap w \<longleftrightarrow> filed (view w) \<and>
    (\<exists>s e. view w k = Some s \<and> s_ID s = k \<and> s_ExpiresAt s = Some e \<and> e \<le> cap \<and> s_CreatedAt s + maxTTL \<le> cap)"

locale watched_sessions = session_manager m sview
  for m :: "'w manager" and sview +
  fixes ok :: "'w \<Rightarrow> bool" and tm :: "'w \<Rightarrow> time"
  assumes others_wait: "ok (hb_world (ms_hub st)) \<Longrightarrow> expires_by (lm_MaxTTL (sm_Limits m)) sview k cap (hb_world (ms_hub st)) \<Longrightarrow>
      ok (hb_world (ms_hub (sm_Others m st))) \<and> expires_by (lm_MaxTTL (sm_Limits m)) sview k cap (hb_world (ms_hub (sm_Others m st))) \<and>
      tm (hb_world (ms_hub st)) + sm_Poll m \<le> tm (hb_world (ms_hub (sm_Others m st)))"
    and get_time: "ok w \<Longrightarrow> ok (snd (cl_Get (sm_Sandbox m) i w)) \<and> tm w \<le> tm (snd (cl_Get (sm_Sandbox m) i w))"
    and now_time: "ok w \<Longrightarrow> ok (snd (sm_Now m w)) \<and> tm w \<le> fst (sm_Now m w) \<and> tm w \<le> tm (snd (sm_Now m w))"
begin

lemma finish_over: "fst (finish_session m s reason st) = Inl SessionOver"
proof -
  have "raises (\<lambda>_. False) (end_session m s reason)"
    unfolding end_session_def drop_live_def by (intro raise raises_steps)
  then have "\<exists>x. fst (end_session m s reason st :: (session_exit + unit) \<times> _) = Inr x"
    unfolding raises_def by (metis sumE)
  then obtain st' where "end_session m s reason st = (Inr () :: session_exit + unit, st')"
    by (cases "end_session m s reason st :: (session_exit + unit) \<times> _") auto
  then show ?thesis by (simp add: finish_session_def thenS_def bindS_def throwS_def)
qed

text \<open>One turn ends the session, or time has passed and the loop goes on.\<close>

lemma watch_turn:
  assumes st: "ok (hb_world (ms_hub st))" "expires_by (lm_MaxTTL (sm_Limits m)) sview k cap (hb_world (ms_hub st))" "s_ID s = k"
    and go: "\<And>c st3. ok (hb_world (ms_hub st3)) \<Longrightarrow> expires_by (lm_MaxTTL (sm_Limits m)) sview k cap (hb_world (ms_hub st3)) \<Longrightarrow> s_ID c = k \<Longrightarrow>
      tm (hb_world (ms_hub st)) + sm_Poll m \<le> tm (hb_world (ms_hub st3)) \<Longrightarrow>
      tm (hb_world (ms_hub st)) + sm_Poll m \<le> cap \<Longrightarrow> fst (watch n m sid c st3) = Inl SessionOver"
  shows "fst (watch (Suc n) m sid s st) = Inl SessionOver"
proof -
  let ?st1 = "sm_Others m st"
  let ?w1 = "hb_world (ms_hub ?st1)" and ?t = "tm (hb_world (ms_hub st)) + sm_Poll m"
  note o = others_wait [OF st(1,2)]
  obtain cur w2 where g: "cl_Get (sm_Sandbox m) sid ?w1 = (cur, w2)" by fastforce
  have w2: "ok w2" "?t \<le> tm w2" "sview w2 = sview ?w1"
    using get_time [of ?w1 sid] o g client_leaves(3) [unfolded leaves_def] by (auto simp: leaves_def) (metis snd_conv)
  obtain c e where c: "filed (sview w2)" "sview w2 k = Some c" "s_ID c = k" "s_ExpiresAt c = Some e" "e \<le> cap"
      "s_CreatedAt c + lm_MaxTTL (sm_Limits m) \<le> cap"
    using o by (auto simp: expires_by_def w2(3))
  obtain now w3 where n: "sm_Now m w2 = (now, w3)" by fastforce
  have w3: "ok w3" "?t \<le> now" "?t \<le> tm w3" "sview w3 = sview w2"
    using now_time [OF w2(1)] n w2(2) now_leaves(1) [unfolded leaves_def] by auto (metis snd_conv)
  let ?st2 = "?st1\<lparr>ms_hub := (ms_hub ?st1)\<lparr>hb_world := w2\<rparr>\<rparr>" and ?st3 = "?st1\<lparr>ms_hub := (ms_hub ?st1)\<lparr>hb_world := w3\<rparr>\<rparr>"
  have del: "fst (thenS (on_world (cl_Delete (sm_Sandbox m) sid)) (finish_session m c r) s') = Inl SessionOver" for s' r
    by (simp add: thenS_def bindS_def on_world_def finish_over split: prod.split)
  have loop: "\<not> e < now \<Longrightarrow> fst (watch n m sid c ?st3) = Inl SessionOver"
    by (rule go) (use w3 c o in \<open>auto simp: expires_by_def\<close>)
  have gs: "so_GetSession (sm_Store m) (s_ID s) w2 = (Inr c, w2)" by (simp add: get_session c st(3))
  show ?thesis
    by (auto simp: thenS_def [of "modifyS (sm_Others m)"] modifyS_def bindS_def on_world_def g gs Let_def c n finish_over del loop
        split: sum.split)
qed

lemma watch_over:
  assumes "ok (hb_world (ms_hub st))" and "expires_by (lm_MaxTTL (sm_Limits m)) sview k cap (hb_world (ms_hub st))" and "s_ID s = k"
    and "cap < tm (hb_world (ms_hub st)) + int (Suc n) * sm_Poll m"
  shows "fst (watch (Suc n) m sid s st) = Inl SessionOver"
  using assms
proof (induction n arbitrary: s st)
  case (0 s st)
  show ?case by (rule watch_turn [OF 0(1,2,3)]) (use 0(4) in simp)
next
  case (Suc n s st)
  show ?case
  proof (rule watch_turn [OF Suc.prems(1,2,3)])
    fix c :: session and st3 :: "'w mstate"
    assume "ok (hb_world (ms_hub st3))" "expires_by (lm_MaxTTL (sm_Limits m)) sview k cap (hb_world (ms_hub st3))" "s_ID c = k"
      "tm (hb_world (ms_hub st)) + sm_Poll m \<le> tm (hb_world (ms_hub st3))"
    then show "fst (watch (Suc n) m sid c st3) = Inl SessionOver"
      using Suc.prems(4) by (intro Suc.IH) (simp_all add: algebra_simps)
  qed
qed

end

section \<open>The surroundings of the tests\<close>

lemma quiet_leaves: "mem_quiet f \<Longrightarrow> leaves stored_sessions f"
  by (simp add: mem_quiet_def leaves_def stored_sessions_def fun_eq_iff)

lemma memory_leaves:
  "leaves stored_sessions (so_GetBuild memory_store i)" "leaves stored_sessions (so_UpdateBuild memory_store b)"
  "leaves stored_sessions (so_CreateBuild memory_store b)" "leaves stored_sessions (so_GetBuildBySHA memory_store ow rp sha)"
  by (auto simp: leaves_def mworld_defs GetBuild_def UpdateBuild_def CreateBuild_def GetBuildBySHA_def Let_def fun_eq_iff
      split: option.split)

lemma fake_others: "sm_Others (fake_manager cd rs lm) st =
    st\<lparr>ms_hub := (ms_hub st)\<lparr>hb_world := snd (world_sleep (30 * Second) (hb_world (ms_hub st)))\<rparr>\<rparr>"
  by (simp add: fake_manager_def init_poll_def)

lemma fake_next: "sm_Next (fake_manager cd rs lm) k i st = (None, st)"
  by (simp add: fake_manager_def)

lemma world_sleep_sessions: "stored_sessions (snd (world_sleep t w)) = stored_sessions w"
  by (simp add: world_sleep_def stored_sessions_def Let_def fun_eq_iff)

lemma fake_session_manager: "session_manager (fake_manager cd rs lm) stored_sessions"
  by (intro session_manager.intro session_surroundings.intro session_manager_axioms.intro)
    (simp_all add: msessions.session_store_axioms msessions.get_session leaves_def [of _ "so_GetSession memory_store _"]
      quiet_leaves fake_quiet memory_leaves fake_others fake_next known_def view_of_def world_sleep_sessions)

text \<open>The store of the tests, and the same store when every \<open>UpdateSession\<close> fails.\<close>

lemma memory_update_maybe:
  "stored_sessions (snd (so_UpdateSession memory_store s w)) \<in> {stored_sessions w, (stored_sessions w)(s_ID s \<mapsto> s)}"
  by (auto simp: mworld_defs UpdateSession_def Let_def split: option.split)

definition failing_update :: "error \<Rightarrow> 'w manager \<Rightarrow> 'w manager" where
  "failing_update e m = m\<lparr>sm_Store := (sm_Store m)\<lparr>so_UpdateSession := \<lambda>s w. (Some e, w)\<rparr>\<rparr>"

lemma fake_surroundings: "session_surroundings (fake_manager cd rs lm) stored_sessions"
  by (rule session_manager.axioms(1) [OF fake_session_manager])

interpretation fake_unreliable: unreliable_manager "fake_manager cd rs lm" stored_sessions for cd rs lm
  by (intro unreliable_manager.intro unreliable_manager_axioms.intro fake_surroundings)
    (simp_all add: msessions.get_session memory_update_maybe fake_others fake_next logged_def view_of_def
      world_sleep_sessions split: option.splits del: insert_iff)

lemma failing_unreliable: "unreliable_manager m sview \<Longrightarrow> unreliable_manager (failing_update e m) sview"
  by (simp add: unreliable_manager_def unreliable_manager_axioms_def session_surroundings_def failing_update_def)

interpretation failing_sessions: unreliable_manager "failing_update e (fake_manager cd rs lm)" stored_sessions for e cd rs lm
  by (rule failing_unreliable) (rule fake_unreliable.unreliable_manager_axioms)

lemma fake_waits:
  "world_ok w \<Longrightarrow> world_ok (snd (world_sleep t w)) \<and> world_time w + t \<le> world_time (snd (world_sleep t w))"
  "world_ok w \<Longrightarrow> world_ok (snd (world_clock w)) \<and> world_time w \<le> fst (world_clock w) \<and> world_time w \<le> world_time (snd (world_clock w))"
  "world_ok w \<Longrightarrow> world_ok (snd (cl_Get fake_client i w)) \<and> world_time w \<le> world_time (snd (cl_Get fake_client i w))"
  by (auto simp: world_sleep_def world_ok_def world_time_def Let_def mono_def world_clock_def time_Now_def fake_client_def
      with_fake_def fake_Get_def)

interpretation fake_sessions: watched_sessions "fake_manager cd rs lm" stored_sessions world_ok world_time for cd rs lm
  by (intro watched_sessions.intro watched_sessions_axioms.intro fake_session_manager)
    (simp_all add: fake_waits fake_others expires_by_def world_sleep_sessions, simp add: fake_manager_def init_poll_def fake_waits)

section \<open>The properties\<close>

text \<open>
  C4: Every return of \<open>run\<close> ends the session. Its log is finished, so that every listener's channel closes, even
  when calls of the store fail; and when the store keeps its laws, the stored session is ended. No early return
  forgets the session. Whatever else the builder, the platform and the clock do, their calls leave the stored
  sessions alone; and the other goroutines may do anything, but keep the log and, for the second part, the stored
  session.
\<close>

theorem run_ends_session:
  assumes "unreliable_manager m sview" and "logged sview (s_ID s) st" and "session_run fuel m s b i st = (Inl SessionOver, st')"
  shows "log_over (s_ID s) st' \<and>
    (session_manager m sview \<longrightarrow> known sview (s_ID s) st \<longrightarrow> over_for sview (s_ID s) st')"
  using session_invariant.run_ends [OF unreliable_manager.session_logged [OF assms(1)] refl assms(2,3)]
    session_invariant.run_ends [OF session_manager.session_known refl _ assms(3)] by auto

definition ends_session :: session where
  "ends_session = no_session\<lparr>s_ID := ''0123456789'', s_BuildID := ''b1'', s_Status := SessionBuilding\<rparr>"

definition ends_build :: build where
  "ends_build = no_build\<lparr>b_ID := ''b1'', b_Status := BuildFailed, b_Error := ''clone: no''\<rparr>"

definition ends_state :: "world mstate" where
  "ends_state = \<lparr>ms_hub = \<lparr>hb_world = \<lparr>mw_mem = NewMemory\<lparr>mm_sessions := [(''0123456789'', ends_session)], mm_builds := [(''b1'', ends_build)]\<rparr>,
      mw_host = \<lparr>h_clock = int, h_rand = (\<lambda>n. replicate (Suc n) (CHR ''x'')), h_now = 5, h_id = 0\<rparr>, wd_fake = NewFake\<rparr>,
      hb_runs = [], hb_active = []\<rparr>, ms_logs = [(''0123456789'', New)], ms_live = [''0123456789''], ms_spawned = []\<rparr>"

definition ends_manager :: "world manager" where
  "ends_manager = fake_manager demo_codec (\<lambda>_. Inr demo_info) no_limits"

theorem run_ends_session_witness:
  "over_for stored_sessions ''0123456789'' (snd (session_run 1 ends_manager ends_session ends_build demo_info ends_state)) \<and>
   log_over ''0123456789'' (snd (session_run 1 (failing_update (Errorf ''connection refused'') ends_manager) ends_session ends_build demo_info ends_state))"
proof -
  obtain r st' where r: "session_run 1 ends_manager ends_session ends_build demo_info ends_state = (r, st')" by fastforce
  obtain r2 st2 where r2: "session_run 1 (failing_update (Errorf ''connection refused'') ends_manager) ends_session ends_build demo_info ends_state = (r2, st2)" by fastforce
  have m: "session_manager ends_manager stored_sessions" unfolding ends_manager_def by (rule fake_session_manager)
  have u: "unreliable_manager ends_manager stored_sessions"
    "unreliable_manager (failing_update (Errorf ''connection refused'') ends_manager) stored_sessions"
    unfolding ends_manager_def by (rule fake_unreliable.unreliable_manager_axioms failing_sessions.unreliable_manager_axioms)+
  have k: "known stored_sessions (s_ID ends_session) ends_state" "logged stored_sessions (s_ID ends_session) ends_state"
    by (simp_all add: known_def logged_def view_of_def ends_session_def ends_state_def stored_sessions_def)
  have "r = Inl SessionOver"
    using r by (auto simp: session_run_def bindS_def [of "follow _ _ _ _"] follow_def ends_build_def ends_manager_def ends_state_def ends_session_def
        create_defs builder_Subscribe_def GetBuild_def GetSession_def stop_session_def finish_session_def end_session_def
        forward_build_def stored_events_def status_event_def forward_event_def SplitByte_single TrimRightByte_id)
  moreover have "r2 = Inl SessionOver"
    using r2 by (auto simp: session_run_def bindS_def [of "follow _ _ _ _"] follow_def ends_build_def ends_manager_def ends_state_def ends_session_def
        create_defs builder_Subscribe_def GetBuild_def GetSession_def stop_session_def finish_session_def end_session_def failing_update_def
        forward_build_def stored_events_def status_event_def forward_event_def SplitByte_single TrimRightByte_id)
  ultimately show ?thesis
    using run_ends_session [OF u(1) k(2)] run_ends_session [OF u(2) k(2)] m k(1) r r2 by (simp add: ends_session_def)
qed

text \<open>
  With a store that fails, the log is finished and nothing more: the error of \<open>UpdateSession\<close> is only logged,
  and the session stays in the store as it was, never to be looked at again by its goroutine.
\<close>

lemma failed_update_forgets_session:
  "view_of stored_sessions (snd (session_run 1 (failing_update (Errorf ''connection refused'') ends_manager) ends_session ends_build demo_info ends_state))
     ''0123456789'' = Some ends_session"
  by (auto simp: session_run_def bindS_def [of "follow _ _ _ _"] follow_def ends_build_def ends_manager_def ends_state_def ends_session_def
      create_defs builder_Subscribe_def GetBuild_def GetSession_def stop_session_def finish_session_def end_session_def failing_update_def
      forward_build_def stored_events_def status_event_def forward_event_def SplitByte_single TrimRightByte_id view_of_def stored_sessions_def)

text \<open>
  A session that has already ended, for instance because it was replaced, keeps its record and its
  reason when \<open>run\<close> ends it; any other is recorded as ended for the given reason; no other session and no
  other log is touched.
\<close>

theorem end_keeps_reason:
  assumes "session_manager m sview" and "known sview (s_ID s) st" and "view_of sview st (s_ID s) = Some cur"
    and "end_session m s reason st = (r :: 'e + unit, st')"
  shows "view_of sview st' = (view_of sview st)(s_ID s \<mapsto> if s_Status cur = SessionEnded then cur else ended s reason) \<and>
    (\<exists>l. map_of (ms_logs st') (s_ID s) = Some l \<and> Done l)"
proof -
  obtain st1 where "end_session m s reason st = (Inr () :: 'e + unit, st1)" "over_for sview (s_ID s) st1"
    "\<forall>cur. view_of sview st (s_ID s) = Some cur \<longrightarrow>
      view_of sview st1 (s_ID s) = Some (if s_Status cur = SessionEnded then cur else ended s reason)"
    "\<forall>j. j \<noteq> s_ID s \<longrightarrow> view_of sview st1 j = view_of sview st j"
    using session_manager.end_session_effect [OF assms(1,2), of reason] by blast
  with assms(3,4) show ?thesis by (auto simp: over_for_def fun_eq_iff)
qed

theorem end_keeps_reason_witness:
  "\<exists>st' :: world mstate. view_of stored_sessions st' ''0123456789'' = Some (ended ends_session ''no capacity'')"
proof -
  obtain r st' where r: "end_session ends_manager ends_session ''no capacity'' ends_state = (r :: error + unit, st')" by fastforce
  have m: "session_manager ends_manager stored_sessions" unfolding ends_manager_def by (rule fake_session_manager)
  have k: "known stored_sessions (s_ID ends_session) ends_state" "view_of stored_sessions ends_state (s_ID ends_session) = Some ends_session"
    by (simp_all add: known_def view_of_def ends_session_def ends_state_def stored_sessions_def)
  from end_keeps_reason [OF m k r]
  have "view_of stored_sessions st' ''0123456789'' = Some (ended ends_session ''no capacity'')"
    by (auto simp: ends_session_def session_statuses)
  then show ?thesis by blast
qed

text \<open>
  C14: A session is extended at most once, and only while it is live. The new expiry is at most the hard cap
  \<open>CreatedAt + MaxTTL\<close> and at most one \<open>TTL\<close> from now, where now is what the clock reads in this very call, after
  the keep-alive; it is the sooner of the two. A refused extension changes no session, and a second one is refused.
\<close>

theorem Extend_once:
  assumes "session_manager m sview" and "view_of sview st k = Some s" and "s_ID s = k" and "Extend m k st = (r, st')"
  shows "case r of
      Inl (_, e) \<Rightarrow> view_of sview st' = view_of sview st
    | Inr s' \<Rightarrow> s_Status s = SessionLive \<and> \<not> s_Extended s \<and> view_of sview st' = (view_of sview st)(k \<mapsto> s') \<and>
        (\<exists>exp. s' = s\<lparr>s_Extended := True, s_ExpiresAt := Some exp\<rparr> \<and>
          exp = min (s_CreatedAt s + lm_MaxTTL (sm_Limits m)) (extension_time m s st + lm_TTL (sm_Limits m))) \<and>
        fst (Extend m k st') = Inl (s', ErrAlreadyExtnd)"
proof -
  note e = session_manager.Extend_effect [OF assms]
  have "extended lm now s = s\<lparr>s_Extended := True, s_ExpiresAt := Some (min (s_CreatedAt s + lm_MaxTTL lm) (now + lm_TTL lm))\<rparr>" for lm now
    by (simp add: extended_def Let_def min_def)
  with e session_manager.Extend_again [OF assms(1), of st' k] show ?thesis by (cases r) auto
qed

text \<open>A session that went live late: the extension moves its expiry from 1960 seconds to the cap at 1800.\<close>

definition late_session :: session where
  "late_session = no_session\<lparr>s_ID := ''k'', s_SandboxID := ''sbx-1'', s_Status := SessionLive, s_CreatedAt := 0,
    s_ExpiresAt := Some (1960 * Second)\<rparr>"

definition late_state :: "world mstate" where
  "late_state = \<lparr>ms_hub = \<lparr>hb_world = \<lparr>mw_mem = NewMemory\<lparr>mm_sessions := [(''k'', late_session)]\<rparr>,
      mw_host = \<lparr>h_clock = (\<lambda>n. 1100 * Second), h_rand = (\<lambda>n. []), h_now = 0, h_id = 0\<rparr>, wd_fake = NewFake\<rparr>,
      hb_runs = [], hb_active = []\<rparr>, ms_logs = [], ms_live = [], ms_spawned = []\<rparr>"

theorem Extend_once_witness:
  "\<exists>s' st'. Extend ends_manager ''k'' late_state = (Inr s', st') \<and> s_ExpiresAt s' = Some (1800 * Second) \<and>
    s_ExpiresAt late_session = Some (1960 * Second) \<and> fst (Extend ends_manager ''k'' st') = Inl (s', ErrAlreadyExtnd)"
proof -
  obtain r st' where r: "Extend ends_manager ''k'' late_state = (r, st')" by fastforce
  have m: "session_manager ends_manager stored_sessions" unfolding ends_manager_def by (rule fake_session_manager)
  have k: "view_of stored_sessions late_state ''k'' = Some late_session" "s_ID late_session = ''k''"
    by (simp_all add: view_of_def late_session_def late_state_def stored_sessions_def)
  let ?w1 = "(hb_world (ms_hub late_state))\<lparr>wd_fake := fake_record ''keepalive sbx-1'' NewFake\<rparr>"
  have ke: "cl_Keepalive (sm_Sandbox ends_manager) (s_SandboxID late_session) (hb_world (ms_hub late_state)) = (None, ?w1)"
    by (simp add: ends_manager_def late_state_def late_session_def fake_client_def with_fake_def fake_Keepalive_def)
  have now: "fst (sm_Now ends_manager ?w1) = 1100 * Second"
    by (simp add: ends_manager_def late_state_def world_clock_def time_Now_def)
  have l: "sm_Limits ends_manager = DefaultLimits" by (simp add: ends_manager_def init_limits_def)
  have x: "s_ExpiresAt (extended (sm_Limits ends_manager) (1100 * Second) late_session) = Some (1800 * Second)"
    by (simp add: l extended_def DefaultLimits_def late_session_def Let_def Minute_def Second_def)
  have "fst (Extend ends_manager ''k'' late_state) = Inr (extended (sm_Limits ends_manager) (1100 * Second) late_session)"
    using session_manager.Extend_succeeds [OF m k _ _ _ ke] by (simp add: now late_session_def no_session_def)
  with r x obtain s' where s': "r = Inr s'" "s_ExpiresAt s' = Some (1800 * Second)" by auto
  from Extend_once [OF m k r] r s' show ?thesis by (auto simp: late_session_def)
qed

text \<open>
  A live session ends: when every wait takes the polling interval and no one moves its expiry past the
  cap, watching it is over after at most as many turns as intervals fit between now and the cap, and one.
\<close>

theorem live_session_ends:
  assumes "watched_sessions m sview ok tm" and "ok (hb_world (ms_hub st))" and "expires_by (lm_MaxTTL (sm_Limits m)) sview k cap (hb_world (ms_hub st))"
    and "s_ID s = k" and "cap < tm (hb_world (ms_hub st)) + int (Suc n) * sm_Poll m"
  shows "fst (watch (Suc n) m sid s st) = Inl SessionOver"
  by (rule watched_sessions.watch_over [OF assms])

text \<open>With the default limits, 60 turns cover the half hour of the cap.\<close>

theorem live_session_ends_witness:
  "fst (watch 61 ends_manager ''sbx-1'' late_session late_state) = Inl SessionOver"
proof -
  let ?w = "hb_world (ms_hub late_state)"
  have m: "watched_sessions ends_manager stored_sessions world_ok world_time"
    unfolding ends_manager_def by (rule fake_sessions.watched_sessions_axioms)
  have "world_ok ?w" by (simp add: late_state_def world_ok_def NewFake_ok mono_def)
  moreover have "expires_by (lm_MaxTTL (sm_Limits ends_manager)) stored_sessions ''k'' (1960 * Second) ?w"
    by (simp add: expires_by_def filed_def late_state_def stored_sessions_def late_session_def ends_manager_def init_limits_def DefaultLimits_def
        Minute_def Second_def)
  moreover have "1960 * Second < world_time ?w + int (Suc 60) * sm_Poll ends_manager"
    by (simp add: late_state_def world_time_def ends_manager_def fake_manager_def init_poll_def Second_def)
  ultimately show ?thesis
    using live_session_ends [OF m, of late_state "''k''" "1960 * Second" late_session 60 "''sbx-1''"]
    by (simp add: late_session_def)
qed

end
