(* ===== verification/Session_Replay.thy ===== *)
theory Session_Replay
  imports Session
begin

text \<open>
  The stored log of a build: what \<open>run.text\<close> of the builder writes is read back by \<open>replayLog\<close> of the
  sessions, so that a visitor of a finished build sees the lines that were streamed while it ran; an event
  of several lines comes back as several events.
\<close>

section \<open>Splitting a line\<close>

lemma Index_phase:
  assumes "CHR '']'' \<notin> set ph"
  shows "Index (ph @ '']'' @ '' '' @ l) ''] '' = Some (length ph)"
  using assms by (induction ph) (auto simp: HasPrefix_def)

lemma splitPhase_tagged:
  assumes "CHR '']'' \<notin> set ph"
  shows "splitPhase (''['' @ ph @ ''] '' @ l) = (ph, l)"
  using Index_phase [of "CHR ''['' # ph" l] assms
  by (simp add: splitPhase_def HasPrefix_def)

lemma splitPhase_plain: "l = [] \<or> hd l \<noteq> CHR ''['' \<Longrightarrow> splitPhase l = ([], l)"
  by (cases l) (auto simp: splitPhase_def HasPrefix_def)

section \<open>The lines of a text\<close>

lemma SplitByte_sep: "SplitByte c (s @ c # s') = SplitByte c s @ SplitByte c s'"
  by (induction s) (auto split: list.split)

lemma SplitByte_prefix:
  "c \<notin> set p \<Longrightarrow> SplitByte c (p @ s) = (p @ hd (SplitByte c s)) # tl (SplitByte c s)"
  by (induction p) auto

definition lines_of :: "string \<Rightarrow> string list" where
  "lines_of s = filter (\<lambda>l. l \<noteq> []) (SplitByte (CHR 0x0A) s)"

lemma lines_of_sep: "lines_of (s @ CHR 0x0A # s') = lines_of s @ lines_of s'"
  by (simp add: lines_of_def SplitByte_sep)

lemma lines_of_Nil [simp]: "lines_of [] = []"
  by (simp add: lines_of_def)

lemma lines_of_trim: "lines_of (TrimRightByte (CHR 0x0A) s) = lines_of s"
proof (induction s rule: rev_induct)
  case (snoc x s)
  then show ?case using lines_of_sep [of s "[]"] by (cases "x = CHR 0x0A") (simp_all add: TrimRightByte_id)
qed (simp add: TrimRightByte_id)

lemma lines_of_concat: "lines_of (concat (map (\<lambda>w. w @ [CHR 0x0A]) ws)) = concat (map lines_of ws)"
  by (induction ws) (simp_all add: lines_of_sep)

section \<open>The lines of a log\<close>

definition is_log :: "bevent \<Rightarrow> bool" where
  "is_log ev \<longleftrightarrow> be_Type ev = ''log''"

text \<open>An event whose phase can be told apart from its text; the builder's phases are words.\<close>

definition plain_phase :: "bevent \<Rightarrow> bool" where
  "plain_phase ev \<longleftrightarrow>
    CHR 0x0A \<notin> set (be_Phase ev) \<and> CHR '']'' \<notin> set (be_Phase ev) \<and>
    (be_Phase ev = [] \<longrightarrow> be_Line ev \<noteq> [] \<and> hd (be_Line ev) \<notin> {CHR ''['', CHR 0x0A})"

definition tagged :: "bevent \<Rightarrow> string" where
  "tagged ev = (if be_Phase ev \<noteq> [] then ''['' @ be_Phase ev @ ''] '' else []) @ be_Line ev"

lemma event_text_log: "is_log ev \<Longrightarrow> event_text ev = tagged ev @ [CHR 0x0A]"
  by (simp add: event_text_def tagged_def is_log_def)

lemma run_text_lines:
  "run_text l = concat (map (\<lambda>w. w @ [CHR 0x0A]) (map tagged (filter is_log (Events l))))"
proof -
  have "concat (map event_text evs) = concat (map (\<lambda>w. w @ [CHR 0x0A]) (map tagged (filter is_log evs)))" for evs
    by (induction evs) (auto simp: event_text_log, auto simp: event_text_def is_log_def)
  then show ?thesis by (simp add: run_text_def)
qed

text \<open>
  What becomes of an event: its first line keeps the phase, and every further line that is not empty is an event
  of its own, with a phase only when it happens to start with one in brackets.
\<close>

definition replay_line :: "time \<Rightarrow> string \<Rightarrow> sevent" where
  "replay_line ts w = (case splitPhase w of (ph, text) \<Rightarrow> LogData ts ph text)"

definition replayed :: "time \<Rightarrow> bevent \<Rightarrow> sevent list" where
  "replayed ts ev =
    (let ws = SplitByte (CHR 0x0A) (be_Line ev)
     in LogData ts (be_Phase ev) (hd ws) # map (replay_line ts) (filter (\<lambda>l. l \<noteq> []) (tl ws)))"

lemma replay_tagged:
  assumes "plain_phase ev"
  shows "map (replay_line ts) (lines_of (tagged ev)) = replayed ts ev"
proof -
  let ?ws = "SplitByte (CHR 0x0A) (be_Line ev)"
  show ?thesis
  proof (cases "be_Phase ev = []")
    case True
    then obtain c s where l: "be_Line ev = c # s" "c \<noteq> CHR ''[''" "c \<noteq> CHR 0x0A"
      using assms by (cases "be_Line ev") (auto simp: plain_phase_def)
    then have "?ws = (c # hd (SplitByte (CHR 0x0A) s)) # tl (SplitByte (CHR 0x0A) s)"
      using SplitByte_prefix [of "CHR 0x0A" "[c]" s] by simp
    then show ?thesis
      using True l by (simp add: tagged_def lines_of_def replayed_def Let_def replay_line_def splitPhase_plain)
  next
    case False
    let ?p = "''['' @ be_Phase ev @ ''] ''"
    have "CHR 0x0A \<notin> set ?p" using assms by (simp add: plain_phase_def)
    from SplitByte_prefix [OF this, of "be_Line ev"]
    have "lines_of (tagged ev) = (?p @ hd ?ws) # filter (\<lambda>l. l \<noteq> []) (tl ?ws)"
      using False by (simp add: tagged_def lines_of_def)
    moreover have "replay_line ts (?p @ hd ?ws) = LogData ts (be_Phase ev) (hd ?ws)"
      using splitPhase_tagged [of "be_Phase ev" "hd ?ws"] assms by (simp add: replay_line_def plain_phase_def)
    ultimately show ?thesis by (simp add: replayed_def Let_def)
  qed
qed

lemma replayed_one_line: "CHR 0x0A \<notin> set (be_Line ev) \<Longrightarrow> replayed ts ev = [LogData ts (be_Phase ev) (be_Line ev)]"
  by (simp add: replayed_def SplitByte_single)

text \<open>
  C40: Replaying the stored log of a build, saved with \<open>run.text\<close>, gives all its log events in order, with the
  time of the record in place of their own: an event of one line comes back with its phase and its text, as
  \<open>follow\<close> forwarded it to those who watched the build. An event of several lines does not: its first line
  keeps the phase, and each further line that is not empty becomes an event of its own.
\<close>

theorem replayLog_run_text:
  assumes "list_all plain_phase (filter is_log (Events l))" and "b_Log b = run_text l"
  shows "replayLog b = concat (map (replayed (b_UpdatedAt b)) (filter is_log (Events l))) \<and>
    (list_all (\<lambda>ev. CHR 0x0A \<notin> set (be_Line ev)) (filter is_log (Events l)) \<longrightarrow>
      replayLog b = map (\<lambda>ev. LogData (b_UpdatedAt b) (be_Phase ev) (be_Line ev)) (filter is_log (Events l)))"
proof -
  let ?evs = "filter is_log (Events l)"
  have "replayLog b = map (replay_line (b_UpdatedAt b)) (lines_of (run_text l))"
    using lines_of_trim [of "run_text l"] by (simp add: replayLog_def assms(2) lines_of_def replay_line_def [abs_def])
  also have "\<dots> = concat (map (map (replay_line (b_UpdatedAt b)) \<circ> lines_of \<circ> tagged) ?evs)"
    unfolding run_text_lines lines_of_concat by (simp add: map_concat comp_assoc)
  also have "\<dots> = concat (map (replayed (b_UpdatedAt b)) ?evs)"
    using assms(1) by (intro arg_cong [where f = concat] map_cong) (auto simp: list_all_iff replay_tagged)
  finally have r: "replayLog b = concat (map (replayed (b_UpdatedAt b)) ?evs)" .
  moreover have "concat (map (replayed ts) evs) = map (\<lambda>ev. LogData ts (be_Phase ev) (be_Line ev)) evs"
    if "list_all (\<lambda>ev. CHR 0x0A \<notin> set (be_Line ev)) evs" for evs ts
    using that by (induction evs) (simp_all add: replayed_one_line)
  ultimately show ?thesis by simp
qed

text \<open>A log with a line of two lines, as \<open>fail\<close> writes the answer of the platform into it.\<close>

definition replay_log :: "bevent log" where
  "replay_log = Finish (Emit (log_event 4 ''install'' (''sandbox: 502'' @ [CHR 0x0A] @ ''bad gateway''))
    (Emit (log_event 3 ''app'' ''listening on [::]:3000'')
    (Emit (status_event 2 no_build) (Emit (log_event 1 ''clone'' ''Cloning into repo'') New))))"

theorem replayLog_run_text_witness:
  "replayLog (no_build\<lparr>b_Log := run_text replay_log, b_UpdatedAt := 9\<rparr>) =
    [LogData 9 ''clone'' ''Cloning into repo'', LogData 9 ''app'' ''listening on [::]:3000'',
     LogData 9 ''install'' ''sandbox: 502'', LogData 9 [] ''bad gateway'']"
proof -
  let ?b = "no_build\<lparr>b_Log := run_text replay_log, b_UpdatedAt := 9\<rparr>"
  let ?m = "log_event 4 ''install'' (''sandbox: 502'' @ [CHR 0x0A] @ ''bad gateway'')"
  have e: "filter is_log (Events replay_log) =
      [log_event 1 ''clone'' ''Cloning into repo'', log_event 3 ''app'' ''listening on [::]:3000'', ?m]"
    by (simp add: replay_log_def Finish_def Emit_def New_def wakeAll_def Events_def is_log_def log_event_def status_event_def)
  have "list_all plain_phase (filter is_log (Events replay_log))"
    unfolding e by (simp add: plain_phase_def log_event_def)
  moreover have "b_Log ?b = run_text replay_log" by simp
  moreover have "replayed 9 ?m = [LogData 9 ''install'' ''sandbox: 502'', LogData 9 [] ''bad gateway'']"
    by code_simp
  ultimately show ?thesis
    using replayLog_run_text [of replay_log ?b] e by (simp add: replayed_one_line log_event_def no_build_def)
qed

end
