(* ===== verification/Session_Protocol.thy ===== *)
theory Session_Protocol
  imports Session_Ends
begin

text \<open>
  What the log of a session tells its listeners, as an automaton over the events, and that \<open>run\<close> only
  appends what the automaton accepts, whatever the build, the platform and the other goroutines do.
\<close>

section \<open>The protocol\<close>

text \<open>
  A session is opening (logs and phases, then the preview, if there is one), serves its terminal (phases of a
  live session and expiries), fails, or is closed. It may be closed at any time, because a session can be
  replaced at any time; nothing is read after that.
\<close>

datatype stage = Opening | Announcing | Serving | Failing | Closed

fun protocol :: "stage \<Rightarrow> sevent \<Rightarrow> stage option" where
  "protocol Closed _ = Some Closed"
| "protocol _ (EndedData _) = Some Closed"
| "protocol Opening (LogData _ _ _) = Some Opening"
| "protocol Opening (PhaseData _ p _) = (if p = SessionLive then None else Some Opening)"
| "protocol Opening (PreviewData _ port) = (if port > 0 then Some Announcing else None)"
| "protocol Opening (TerminalData ready) = (if ready then Some Serving else None)"
| "protocol Opening (ErrorData _ _) = Some Failing"
| "protocol Announcing (TerminalData ready) = (if ready then Some Serving else None)"
| "protocol Serving (TTLData _ _) = Some Serving"
| "protocol Serving (PhaseData _ p _) = (if p = SessionLive then Some Serving else None)"
| "protocol _ _ = None"

fun reads :: "sevent list \<Rightarrow> stage \<Rightarrow> stage option" where
  "reads [] g = Some g"
| "reads (ev # evs) g = (case protocol g ev of None \<Rightarrow> None | Some g' \<Rightarrow> reads evs g')"

lemma reads_append: "reads (evs @ evs') g = (case reads evs g of None \<Rightarrow> None | Some g' \<Rightarrow> reads evs' g')"
  by (induction evs arbitrary: g) (simp_all split: option.split)

lemma reads_closed [simp]: "reads evs Closed = Some Closed"
  by (induction evs) simp_all

lemma protocol_ended [simp]: "protocol g (EndedData r) = Some Closed"
  by (cases g) simp_all

lemma reads_logs: "(\<And>ev. ev \<in> set evs \<Longrightarrow> \<exists>t p l. ev = LogData t p l) \<Longrightarrow> reads evs Opening = Some Opening"
  by (induction evs) fastforce+

text \<open>
  The stored session and its log: the log has reached one of the stages \<open>G\<close>, the session has not ended and is
  live only if its terminal is served; or the log is closed, whatever follows.
\<close>

definition follows :: "('w \<Rightarrow> string \<Rightarrow> session option) \<Rightarrow> string \<Rightarrow> stage set \<Rightarrow> 'w mstate \<Rightarrow> bool" where
  "follows view k G st \<longleftrightarrow>
    filed (view_of view st) \<and>
    (\<exists>s l. view_of view st k = Some s \<and> map_of (ms_logs st) k = Some l \<and>
      (reads (Events l) Opening = Some Closed \<or>
       (\<exists>g \<in> G. reads (Events l) Opening = Some g \<and> s_Status s \<noteq> SessionEnded \<and> (s_Status s = SessionLive \<longrightarrow> g = Serving) \<and>
         k \<in> set (ms_live st))))"

text \<open>What is left when \<open>run\<close> is no longer there: a log that the automaton accepts, closed if \<open>run\<close> returned.\<close>

definition told :: "string \<Rightarrow> session_exit \<Rightarrow> 'w mstate \<Rightarrow> bool" where
  "told k e st \<longleftrightarrow> (\<exists>l. map_of (ms_logs st) k = Some l \<and> reads (Events l) Opening \<noteq> None \<and>
    (e = SessionOver \<longrightarrow> reads (Events l) Opening = Some Closed))"

lemma follows_mono: "follows view k G st \<Longrightarrow> G \<subseteq> H \<Longrightarrow> follows view k H st"
  by (auto simp: follows_def)

lemma follows_known: "follows view k G st \<Longrightarrow> known view k st"
  by (auto simp: follows_def known_def filed_def)

lemma follows_told: "follows view k G st \<Longrightarrow> e \<noteq> SessionOver \<Longrightarrow> told k e st"
  by (auto simp: follows_def told_def)

lemma Events_Emit [simp]: "Events (Emit ev l) = Events l @ [ev]" "Events (Finish l) = Events l"
  by (simp_all add: Events_def)

text \<open>The interface: the other goroutines keep to the protocol as well.\<close>

locale session_protocol = session_manager m sview
  for m :: "'w manager" and sview +
  assumes others_follow: "follows sview k G st \<Longrightarrow> follows sview k G (sm_Others m st)"
    and next_follows: "follows sview k G st \<Longrightarrow> follows sview k G (snd (sm_Next m j n st))"
begin

lemma framed_follows: "framed (follows sview k G)"
  by (simp add: framed_def follows_def filed_def)

definition tells :: "string \<Rightarrow> stage set \<Rightarrow> ('w mstate, session_exit, 'a) action \<Rightarrow> stage set \<Rightarrow> bool" where
  "tells k G f H \<longleftrightarrow> valid (follows sview k G) f (\<lambda>_. follows sview k H) (told k)"

lemmas tells_D = tells_def [THEN iffD1]

lemma tells_quiet: "keeps (follows sview k G) f \<Longrightarrow> raises (\<lambda>e. e \<noteq> SessionOver) f \<Longrightarrow> tells k G f G"
  unfolding tells_def
  by (auto simp: keeps_def valid_def raises_def split: prod.splits sum.splits) (metis fst_conv snd_conv follows_told)+

lemma tells_bind: "tells k G f H \<Longrightarrow> (\<And>x. tells k H (g x) K) \<Longrightarrow> tells k G (bindS f g) K"
  unfolding tells_def by (rule valid_bind)

lemma tells_then: "tells k G f H \<Longrightarrow> tells k H g K \<Longrightarrow> tells k G (thenS f g) K"
  unfolding tells_def by (rule valid_then)

lemma tells_bind_fact:
  assumes "valid (follows sview k G) f (\<lambda>x st. follows sview k H st \<and> R x) (told k)" and "\<And>x. R x \<Longrightarrow> tells k H (g x) K"
  shows "tells k G (bindS f g) K"
  using assms unfolding tells_def by (rule valid_bind_fact)

lemma tells_if: "(b \<Longrightarrow> tells k G f H) \<Longrightarrow> (\<not> b \<Longrightarrow> tells k G g H) \<Longrightarrow> tells k G (if b then f else g) H"
  by simp

lemma tells_case:
  "(\<And>e. tells k G (f e) H) \<Longrightarrow> (\<And>x. tells k G (g x) H) \<Longrightarrow> tells k G (case r of Inl e \<Rightarrow> f e | Inr x \<Rightarrow> g x) H"
  "tells k G h H \<Longrightarrow> (\<And>x. tells k G (g x) H) \<Longrightarrow> tells k G (case o' of None \<Rightarrow> h | Some x \<Rightarrow> g x) H"
  "(\<And>x y. tells k G (p x y) H) \<Longrightarrow> tells k G (case q of (x, y) \<Rightarrow> p x y) H"
  by (auto split: sum.split option.split prod.split)

lemma tells_return: "tells k G (returnS x) G" "e \<noteq> SessionOver \<Longrightarrow> tells k G (throwS e) H" "tells k G (getS h) G"
  by (auto simp: tells_def valid_def returnS_def throwS_def getS_def intro: follows_told)

lemma tells_world: "leaves sview f \<Longrightarrow> tells k G (on_world f) G"
  by (rule tells_quiet, rule framed_world [OF framed_follows], assumption) (simp add: raises_def on_world_def split: prod.split)

lemma follows_update:
  assumes "s_ID s = k" and "s_Status s \<noteq> SessionEnded" and "s_Status s \<noteq> SessionLive"
  shows "keeps (follows sview k G) (on_world (so_UpdateSession (sm_Store m) s))"
proof (rule keepsI)
  fix st assume f: "follows sview k G st"
  then have "sview (hb_world (ms_hub st)) (s_ID s) \<noteq> None" by (auto simp: follows_def view_of_def assms(1))
  from update_session [OF this] f assms show "follows sview k G (snd (on_world (so_UpdateSession (sm_Store m) s) st))"
    by (auto simp: follows_def view_of_def on_world_def)
qed

text \<open>Events that the automaton accepts in every stage of \<open>G\<close>.\<close>

definition moves :: "stage set \<Rightarrow> sevent \<Rightarrow> stage set \<Rightarrow> bool" where
  "moves G ev H \<longleftrightarrow> (\<forall>g \<in> G. \<exists>h. protocol g ev = Some h \<and> (h = Closed \<or> h \<in> H \<and> (g = Serving \<longrightarrow> h = Serving)))"

lemma tells_emit: "moves G ev H \<Longrightarrow> tells k G (emit_session i ev) H" if "i = k"
  using that unfolding tells_def
  by (fastforce simp: valid_def emit_session_def change_log_def modifyS_def follows_def view_of_def reads_append moves_def)

lemma tells_steps:
  "tells k G (on_world (so_GetSession (sm_Store m) i)) G"
  "s_ID s = k \<Longrightarrow> s_Status s \<noteq> SessionEnded \<Longrightarrow> s_Status s \<noteq> SessionLive \<Longrightarrow>
    tells k G (on_world (so_UpdateSession (sm_Store m) s)) G"
  "tells k G (on_hub (Ensure (sm_Builder m) i0)) G" "tells k G (on_hub (builder_Subscribe (sm_Builder m) i)) G"
  "tells k G (next_event m j n) G" "tells k G (modifyS (sm_Others m)) G"
proof -
  have "keeps (follows sview k G) (next_event m j n :: ('w mstate, session_exit, bevent option) action)"
    by (rule keepsI) (simp add: next_event_def split: prod.split, metis next_follows snd_conv)
  moreover have "keeps (follows sview k G) (modifyS (sm_Others m))" by (rule keeps_modify) (rule others_follow)
  ultimately show "tells k G (on_world (so_GetSession (sm_Store m) i)) G"
    "s_ID s = k \<Longrightarrow> s_Status s \<noteq> SessionEnded \<Longrightarrow> s_Status s \<noteq> SessionLive \<Longrightarrow>
      tells k G (on_world (so_UpdateSession (sm_Store m) s)) G"
    "tells k G (on_hub (Ensure (sm_Builder m) i0)) G" "tells k G (on_hub (builder_Subscribe (sm_Builder m) i)) G"
    "tells k G (next_event m j n) G" "tells k G (modifyS (sm_Others m)) G"
    by (auto intro!: tells_quiet framed_get_session framed_Ensure framed_Subscribe framed_follows follows_update
        raises_steps raise)
qed

section \<open>Ending\<close>

lemma valid_finish_told: "s_ID s = k \<Longrightarrow> valid (follows sview k G) (finish_session m s reason) Q (told k)"
proof -
  assume s: "s_ID s = k"
  have "told k SessionOver (snd (end_session m s reason st :: (session_exit + unit) \<times> 'w mstate)) \<and>
      (\<exists>x. fst (end_session m s reason st :: (session_exit + unit) \<times> 'w mstate) = Inr x)"
    if f: "follows sview k G st" for st
  proof -
    let ?w = "hb_world (ms_hub st)"
    obtain c l where c: "sview ?w k = Some c" "map_of (ms_logs st) k = Some l"
      "reads (Events l) Opening = Some Closed \<or> (\<exists>g. reads (Events l) Opening = Some g) \<and> s_Status c \<noteq> SessionEnded"
      using f by (auto simp: follows_def view_of_def)
    have "sview ?w (s_ID (ended s reason)) \<noteq> None" using c by (simp add: ended_def s)
    from update_session [OF this] obtain w' where u: "so_UpdateSession (sm_Store m) (ended s reason) ?w = (None, w')" by blast
    show ?thesis
      using c by (auto simp: s end_session_def bindS_def thenS_def on_world_def get_session u change_log_def emit_session_def
          modifyS_def drop_live_def told_def reads_append)
  qed
  then show ?thesis
    by (fastforce simp: valid_def finish_session_def thenS_def bindS_def throwS_def split: prod.split sum.split)
qed

lemma valid_stop_told: "s_ID s = k \<Longrightarrow> valid (follows sview k {Opening}) (stop_session m s code msg reason) Q (told k)"
  unfolding stop_session_def
  by (rule valid_then [OF tells_D [OF tells_emit [where H = "{Failing}"]] valid_finish_told]) (auto simp: moves_def)

lemma tells_finish: "s_ID s = k \<Longrightarrow> tells k G (finish_session m s reason) H"
  unfolding tells_def by (rule valid_finish_told)

section \<open>The stages of run\<close>

abbreviation unserved :: "string \<Rightarrow> session \<Rightarrow> bool" where
  "unserved k s \<equiv> s_ID s = k \<and> s_Status s \<noteq> SessionLive \<and> s_Status s \<noteq> SessionEnded"

abbreviation opens :: "string \<Rightarrow> ('w mstate, session_exit, 'a) action \<Rightarrow> bool" where
  "opens k f \<equiv> tells k {Opening} f {Opening}"

lemma opens_emit: "moves {Opening} ev {Opening} \<Longrightarrow> opens k (emit_session k ev)"
  by (rule tells_emit) simp_all

lemma opens_stop: "s_ID s = k \<Longrightarrow> tells k {Opening} (stop_session m s code msg reason) H"
  unfolding tells_def by (rule valid_stop_told)

lemma opens_emit_all: "(\<And>ev. ev \<in> set evs \<Longrightarrow> moves {Opening} ev {Opening}) \<Longrightarrow> opens k (emit_all k evs)"
  by (induction evs) (auto intro!: tells_return tells_then opens_emit)

lemma moves_opening: "moves {Opening} (LogData t p l) {Opening}" "q \<noteq> SessionLive \<Longrightarrow> moves {Opening} (PhaseData b q msg) {Opening}"
  by (simp_all add: moves_def)

lemmas opens_rules = tells_bind [where G = "{Opening}" and H = "{Opening}"] tells_then [where G = "{Opening}" and H = "{Opening}"] tells_if tells_case tells_return tells_world tells_steps opens_emit opens_stop moves_opening
  client_leaves now_leaves store_leaves

lemma opens_forward_event: "unserved k s \<Longrightarrow> opens k (forward_event s b ev)"
  unfolding forward_event_def by (auto intro!: opens_rules)

lemma opens_forward_stored: "unserved k s \<Longrightarrow> opens k (forward_stored s b evs)"
  by (induction evs arbitrary: b) (auto intro!: opens_rules opens_forward_event)

lemma opens_forward_live: "unserved k s \<Longrightarrow> opens k (forward_live n m s j i b)"
  by (induction n arbitrary: i b) (auto intro!: opens_rules opens_forward_event)

lemma opens_follow: "unserved k s \<Longrightarrow> opens k (follow n m s b)"
  unfolding follow_def forward_build_def Let_def
  by (auto intro!: opens_rules opens_forward_stored opens_forward_live split: stream.split)

lemma opens_rebuild: "opens k (rebuild m b i)"
  unfolding rebuild_def by (intro opens_rules)

lemma opens_restore: "unserved k s \<Longrightarrow> opens k (restore n m s i rebuilt b)"
proof -
  assume s: "unserved k s"
  have last: "opens k (restore n m s i True b)" for b
    by (subst restore.simps) (auto intro!: opens_rules simp: s)
  then have "opens k (restore n m s i False b)" for b
    by (subst restore.simps) (auto intro!: opens_rules opens_rebuild opens_follow simp: s)
  with last show ?thesis by (cases rebuilt) simp_all
qed

lemma tells_expose:
  "s_ID s = k \<Longrightarrow> valid (follows sview k {Opening}) (expose_preview m s b sb)
     (\<lambda>s' st. follows sview k {Opening, Announcing} st \<and> s_ID s' = k) (told k)"
proof -
  assume s: "s_ID s = k"
  have same: "valid (follows sview k {Opening}) (returnS s) (\<lambda>s' st. follows sview k {Opening, Announcing} st \<and> s_ID s' = k) (told k)"
    by (auto simp: valid_def returnS_def s intro: follows_mono)
  have announce: "tells k {Opening} (emit_session (s_ID s) (PreviewData url (b_Port b))) {Opening, Announcing}" if "b_Port b > 0" for url
    by (rule tells_emit) (simp_all add: s moves_def that)
  show ?thesis
    unfolding expose_preview_def
    by (intro valid_if valid_bind [OF tells_D [OF tells_world [OF client_leaves(5)]]] valid_case_sum same
        valid_then [OF tells_D [OF announce]] valid_return_I) (simp_all add: s)
qed

text \<open>The record goes live and the three events follow it before anyone else is served.\<close>

lemma tells_live:
  assumes "s_ID s = k" and "s_Status s = SessionLive"
  shows "tells k {Opening, Announcing} (thenS (on_world (so_UpdateSession (sm_Store m) s))
    (emit_all k [TerminalData True, TTLData t e, PhaseData b SessionLive msg])) {Serving}"
  unfolding tells_def
proof (rule validI)
  fix st assume f: "follows sview k {Opening, Announcing} st"
  then have "sview (hb_world (ms_hub st)) (s_ID s) \<noteq> None" by (auto simp: follows_def view_of_def assms)
  from update_session [OF this] obtain w' where u: "so_UpdateSession (sm_Store m) s (hb_world (ms_hub st)) = (None, w')"
    "sview w' = (sview (hb_world (ms_hub st)))(k \<mapsto> s)" by (auto simp: assms)
  from f show "case thenS (on_world (so_UpdateSession (sm_Store m) s))
      (emit_all k [TerminalData True, TTLData t e, PhaseData b SessionLive msg]) st of
      (Inl e, st') \<Rightarrow> told k e st' | (Inr x, st') \<Rightarrow> follows sview k {Serving} st'"
    by (auto simp: u thenS_def bindS_def on_world_def returnS_def follows_def emit_session_def change_log_def modifyS_def view_of_def
        reads_append assms session_statuses)
qed

lemma then_assoc: "thenS f (thenS g h) = thenS (thenS f g) h"
  by (rule ext) (simp add: thenS_def bindS_def split: prod.split sum.split)

lemma tells_go_live:
  assumes "unserved k s"
  shows "valid (follows sview k {Opening}) (go_live m s b sb) (\<lambda>p st. follows sview k {Serving} st \<and> s_ID (fst p) = k) (told k)"
proof -
  let ?s = "s\<lparr>s_SandboxID := sx_ID sb\<rparr>"
  have id: "s_ID ?s = k" "s_Status ?s \<noteq> SessionEnded" "s_Status ?s \<noteq> SessionLive" using assms by simp_all
  have failed: "valid (follows sview k {Opening}) (thenS (on_world (cl_Delete (sm_Sandbox m) i)) (stop_session m ?s c t r))
      (\<lambda>p st. follows sview k {Serving} st \<and> s_ID (fst p) = k) (told k)" for i c t r
    by (rule valid_then [OF tells_D [OF tells_world [OF client_leaves(2)]] valid_stop_told [OF id(1)]])
  have live: "valid (follows sview k {Opening, Announcing}) (let exp = now + lm_TTL (sm_Limits m); s2 = live_session s1 exp
       in thenS (on_world (so_UpdateSession (sm_Store m) s2)) (thenS (emit_all (s_ID s2)
            [TerminalData True, TTLData exp False, PhaseData (b_Status b) (s_Status s2) ''live'']) (returnS (s2, sb'))))
      (\<lambda>p st. follows sview k {Serving} st \<and> s_ID (fst p) = k) (told k)" if "s_ID s1 = k" for s1 now sb'
  proof -
    have i: "s_ID (live_session s1 exp) = k" "s_Status (live_session s1 exp) = SessionLive" for exp
      using that by (simp_all add: live_session_def)
    show ?thesis
      unfolding Let_def then_assoc i
      by (rule valid_then [OF tells_D [OF tells_live]]) (simp_all only: i valid_def returnS_def, simp add: i)
  qed
  show ?thesis
    unfolding go_live_def Let_def [of ?s]
    apply (rule valid_then [OF tells_D [OF tells_steps(2)]], (rule id)+)
    apply (rule valid_then [OF tells_D [OF tells_steps(6)]])
    apply (rule valid_bind [OF tells_D [OF tells_world [OF client_leaves(4)]]])
    apply (simp only: split: prod.split, intro allI impI)
    apply (rule valid_case_option)
     apply (rule valid_bind_fact [OF tells_expose], rule id)
     apply (rule valid_bind [OF tells_D [OF tells_world [OF now_leaves(1)]]])
     apply (rule live, assumption)
    apply (rule failed)
    done
qed

lemma tells_fresh:
  assumes "s_ID s = k" and "\<And>r. \<forall>c. r = Inr c \<longrightarrow> s_ID c = k \<Longrightarrow> tells k G (g r) H"
  shows "tells k G (bindS (on_world (so_GetSession (sm_Store m) (s_ID s))) g) H"
  by (rule tells_bind_fact [where R = "\<lambda>r. \<forall>c. r = Inr c \<longrightarrow> s_ID c = k"])
    (auto simp: assms valid_def on_world_def get_session follows_def view_of_def split: option.splits dest: filedD)

lemma tells_watch: "s_ID s = k \<Longrightarrow> tells k {Serving} (watch n m sid s) {}"
proof (induction n arbitrary: s)
  case 0
  show ?case by (simp add: tells_return)
next
  case (Suc n)
  show ?case
    unfolding watch.simps
    apply (intro tells_then [OF tells_steps(6)] tells_bind [OF tells_world [OF client_leaves(3)]] tells_if tells_finish tells_fresh
        Suc.prems)
    apply (unfold Let_def)
    apply (intro tells_case tells_bind [OF tells_world [OF now_leaves(1)]] tells_if
        tells_then [OF tells_world [OF client_leaves(2)]] tells_finish Suc.IH)
    by (auto simp: Suc.prems split: sum.split)
qed

lemma replayLog_logs: "ev \<in> set (replayLog b) \<Longrightarrow> \<exists>t p l. ev = LogData t p l"
  by (auto simp: replayLog_def split: prod.splits)

lemma opens_replay: "opens k (emit_all k (replayLog b))"
  by (rule opens_emit_all) (auto dest!: replayLog_logs intro: moves_opening)

lemma tells_run: "unserved k s \<Longrightarrow> tells k {Opening} (session_run n m s b i) {}"
proof -
  assume s: "unserved k s"
  have w: "tells k {Opening} (bindS (go_live m s' b' sb) (\<lambda>(s', sb'). watch n m (sx_ID sb') s')) {}" if "unserved k s'" for s' b' sb
    by (rule tells_bind_fact [OF tells_go_live [OF that]]) (use tells_watch in \<open>auto simp: case_prod_beta\<close>)
  have s': "unserved k (s\<lparr>s_Status := SessionStarting\<rparr>)" using s by (simp add: session_statuses)
  show ?thesis
    unfolding session_run_def Let_def
    using s s' by (intro opens_rules opens_follow opens_restore opens_replay w) (simp_all add: opens_replay tells_return opens_emit moves_opening)
qed

end

section \<open>Visitors who extend and replace sessions meanwhile\<close>

datatype visit = Extends string | Replaces string

fun visits :: "'w manager \<Rightarrow> visit list \<Rightarrow> 'w mstate \<Rightarrow> 'w mstate" where
  "visits m [] st = st"
| "visits m (Extends j # vs) st = visits m vs (snd (Extend m j st))"
| "visits m (Replaces j # vs) st = visits m vs
    (case so_GetSession (sm_Store m) j (hb_world (ms_hub st)) of
       (Inl _, _) \<Rightarrow> st
     | (Inr s, _) \<Rightarrow> snd (terminate_all m [s] st :: (error + unit) \<times> _))"

definition visited :: "'w manager \<Rightarrow> visit list \<Rightarrow> 'w manager" where
  "visited m vs = m\<lparr>sm_Others := \<lambda>st. visits m vs (sm_Others m st)\<rparr>"

lemma visited_sels [simp]:
  "sm_Store (visited m vs) = sm_Store m" "sm_Sandbox (visited m vs) = sm_Sandbox m" "sm_Builder (visited m vs) = sm_Builder m"
  "sm_Now (visited m vs) = sm_Now m" "sm_Next (visited m vs) = sm_Next m"
  "sm_Others (visited m vs) st = visits m vs (sm_Others m st)"
  by (simp_all add: visited_def)

locale visited_manager = session_protocol m sview for m :: "'w manager" and sview +
  assumes update_missing: "sview w (s_ID s) = None \<Longrightarrow> sview (snd (so_UpdateSession (sm_Store m) s w)) = sview w"
begin

lemma update_view:
  "sview (snd (so_UpdateSession (sm_Store m) s w)) = (if sview w (s_ID s) = None then sview w else (sview w)(s_ID s \<mapsto> s))"
  using update_missing update_session [of w s] by auto

lemma update_state:
  "view_of sview (snd (on_world (so_UpdateSession (sm_Store m) s) st)) =
    (if view_of sview st (s_ID s) = None then view_of sview st else (view_of sview st)(s_ID s \<mapsto> s))"
  "ms_logs (snd (on_world (so_UpdateSession (sm_Store m) s) st)) = ms_logs st"
  "ms_live (snd (on_world (so_UpdateSession (sm_Store m) s) st)) = ms_live st"
  using update_view [of s "hb_world (ms_hub st)"] by (auto simp: view_of_def on_world_def split: prod.split)

lemma follows_update_other: "s_ID s \<noteq> k \<Longrightarrow> keeps (follows sview k G) (on_world (so_UpdateSession (sm_Store m) s))"
  by (rule keepsI) (auto simp: follows_def update_state)

lemma follows_log_other: "j \<noteq> k \<Longrightarrow> keeps (follows sview k G) (change_log j f)"
  by (rule keepsI) (auto simp: follows_def view_of_def change_log_def modifyS_def split: option.split)

lemma follows_drop_other: "j \<noteq> k \<Longrightarrow> keeps (follows sview k G) (drop_live j)"
  unfolding drop_live_def by (rule keeps_modify) (auto simp: follows_def view_of_def)

text \<open>An extension of the session itself finds it live, so its terminal is served.\<close>

lemma follows_update_served:
  assumes "s_ID s = k" and "s_Status s = SessionLive" and "G \<subseteq> {Serving}"
  shows "keeps (follows sview k G) (on_world (so_UpdateSession (sm_Store m) s))"
  by (rule keepsI) (use assms in \<open>auto simp: follows_def update_state session_statuses\<close>)

lemma follows_ttl_served: "G \<subseteq> {Serving} \<Longrightarrow> keeps (follows sview k G) (emit_session k (TTLData t e))"
  by (rule keepsI) (force simp: follows_def view_of_def emit_session_def change_log_def modifyS_def reads_append split: option.split)

lemma Extend_follows: "keeps (follows sview k G) (Extend m j)"
proof -
  let ?H = "if j = k then G \<inter> {Serving} else G"
  have get: "valid (follows sview k G) (on_world (so_GetSession (sm_Store m) j))
      (\<lambda>r st. follows sview k G st \<and> (\<forall>s. r = Inr s \<longrightarrow> s_ID s = j \<and> (s_Status s = SessionLive \<longrightarrow> follows sview k ?H st)))
      (\<lambda>_. follows sview k G)"
    by (auto simp: valid_def on_world_def get_session follows_def view_of_def split: option.splits dest: filedD)
  have update: "keeps (follows sview k ?H) (on_world (so_UpdateSession (sm_Store m) (extended lm now s)))"
    if "s_ID s = j" "s_Status s = SessionLive" for s lm now
  proof -
    have x: "s_ID (extended lm now s) = j" "s_Status (extended lm now s) = SessionLive"
      using that by (simp_all add: extended_def Let_def)
    show ?thesis using x by (cases "j = k") (simp_all add: follows_update_served follows_update_other)
  qed
  have ttl: "keeps (follows sview k ?H) (emit_session j (TTLData t e))" for t e
    by (cases "j = k") (simp_all add: follows_ttl_served follows_log_other emit_session_def [of j])
  show ?thesis
    unfolding keeps_valid Extend_def
    apply (rule valid_bind [OF get])
    subgoal for r
      apply (cases r)
       apply (simp add: valid_def throwS_def)
      subgoal for s
        apply (cases "s_ID s = j \<and> s_Status s = SessionLive")
         apply (simp only: sum.case)
         apply (rule valid_weaken [where P' = "follows sview k ?H" and Q' = "\<lambda>_. follows sview k ?H" and E' = "\<lambda>_. follows sview k ?H"])
            apply (simp only: keeps_valid [symmetric] Let_def)
            apply (intro keep framed_world [OF framed_follows client_leaves(6)] framed_world [OF framed_follows now_leaves(1)] update ttl)
            apply (auto simp: valid_def throwS_def intro: follows_mono split: if_splits)
        done
      done
    done
qed

text \<open>A replacement closes the log, unless it is closed already.\<close>

lemma terminate_follows: "s_ID s = k \<Longrightarrow> keeps (follows sview k G) (terminate m s reason)"
proof (rule keepsI)
  fix st assume s: "s_ID s = k" and f: "follows sview k G st"
  let ?w = "hb_world (ms_hub st)"
  obtain de w1 where d: "cl_Delete (sm_Sandbox m) (s_SandboxID s) ?w = (de, w1)" by fastforce
  have v: "sview w1 = sview ?w" using client_leaves(2) d by (metis leaves_def snd_conv)
  have "sview ?w (s_ID (ended s reason)) \<noteq> None" using f by (auto simp: follows_def view_of_def ended_def s)
  moreover have "sview w1 (s_ID (ended s reason)) \<noteq> None" using calculation by (simp add: v)
  ultimately obtain w2 w3 where u: "so_UpdateSession (sm_Store m) (ended s reason) ?w = (None, w2)"
    "sview w2 = (sview ?w)(k \<mapsto> ended s reason)"
    "so_UpdateSession (sm_Store m) (ended s reason) w1 = (None, w3)" "sview w3 = (sview ?w)(k \<mapsto> ended s reason)"
    using update_session [of ?w "ended s reason"] update_session [of w1 "ended s reason"] by (auto simp: v s ended_def)
  have "s_ID (ended s reason) = k" by (simp add: ended_def s)
  with f s show "follows sview k G (snd (terminate m s reason st))"
    by (auto simp: terminate_def bindS_def thenS_def on_world_def d u returnS_def getS_def drop_live_def modifyS_def emit_session_def
        change_log_def follows_def view_of_def reads_append split: option.split)
qed

lemma terminate_follows_other: "s_ID s \<noteq> k \<Longrightarrow> keeps (follows sview k G) (terminate m s reason)"
  unfolding terminate_def emit_session_def
  by (intro keep framed_world [OF framed_follows client_leaves(2)] follows_update_other follows_drop_other follows_log_other)
    (simp_all add: ended_def)

lemma terminate_keeps: "keeps (follows sview k G) (terminate m s reason)"
  by (cases "s_ID s = k") (simp_all add: terminate_follows terminate_follows_other)

lemma known_update_any: "keeps (known sview k) (on_world (so_UpdateSession (sm_Store m) s))"
  by (rule keepsI) (auto simp: known_def update_state)

lemma Extend_known: "keeps (known sview k) (Extend m j)"
  unfolding Extend_def Let_def
  by (intro keep known_get_session known_world [OF client_leaves(6)] known_world [OF now_leaves(1)] known_update_any known_log)

lemma terminate_known: "keeps (known sview k) (terminate m s reason)"
  unfolding terminate_def by (intro keep known_world [OF client_leaves(2)] known_update_any known_log known_drop)

lemma visits_keep: "(\<And>j. keeps I (Extend m j)) \<Longrightarrow>
    (\<And>s. keeps I (terminate m s ''replaced by a new session'' :: ('w mstate, error, unit) action)) \<Longrightarrow> I st \<Longrightarrow> I (visits m vs st)"
proof (induction vs arbitrary: st)
  case (Cons v vs)
  have "I (snd (Extend m j st))" for j using Cons.prems(1,3) by (rule keepsD)
  moreover have "I (snd (terminate_all m [s] st :: (error + unit) \<times> _))" for s
    using keepsD [OF Cons.prems(2,3), of s]
    by (auto simp: thenS_def bindS_def returnS_def split: prod.split sum.split)
  ultimately show ?case using Cons by (cases v) (simp_all split: prod.split sum.split)
qed simp

lemma visited_protocol: "session_protocol (visited m vs) sview"
proof -
  have "session_manager (visited m vs) sview"
    by (intro session_manager.intro session_surroundings.intro session_manager_axioms.intro)
      (simp_all add: session_store_axioms client_leaves now_leaves store_leaves session_leaves next_known visits_keep others_known Extend_known
        terminate_known)
  then show ?thesis
    by (intro session_protocol.intro session_protocol_axioms.intro)
      (simp_all add: next_follows visits_keep others_follow Extend_follows terminate_keeps)
qed

end

section \<open>The property\<close>

lemma fake_protocol: "session_protocol (fake_manager cd rs lm) stored_sessions"
  by (intro session_protocol.intro session_protocol_axioms.intro fake_session_manager)
    (simp_all add: fake_others fake_next follows_def view_of_def world_sleep_sessions)

interpretation fake_visits: visited_manager "fake_manager cd rs lm" stored_sessions for cd rs lm
  by (intro visited_manager.intro visited_manager_axioms.intro fake_protocol)
    (simp add: mworld_defs UpdateSession_def)

interpretation fake_protocol: session_protocol "visited (fake_manager cd rs lm) vs" stored_sessions for cd rs lm vs
  by (rule fake_visits.visited_protocol)

text \<open>
  C6: The log of a session tells one story. Whatever the build and the platform do, and the other goroutines at the points where it waits, \<open>run\<close>
  only appends events that the protocol accepts: logs and phases while the session opens, the preview before
  the terminal, expiries only once the terminal is served, at most one error and then the end; and when
  \<open>run\<close> returns, the story is closed. The other goroutines keep to the protocol themselves, as those do that
  extend and replace sessions at every wait (\<open>visited_protocol\<close>).
\<close>

theorem run_follows_protocol:
  assumes "session_protocol m sview" and "follows sview k {Opening} st" and "s_ID s = k"
    and "s_Status s \<noteq> SessionLive" and "s_Status s \<noteq> SessionEnded" and "session_run fuel m s b i st = (r, st')"
  shows "\<exists>l. map_of (ms_logs st') k = Some l \<and> reads (Events l) Opening \<noteq> None \<and>
    (r = Inl SessionOver \<longrightarrow> reads (Events l) Opening = Some Closed)"
proof -
  have v: "valid (follows sview k {Opening}) (session_run fuel m s b i) (\<lambda>_. follows sview k {}) (told k)"
    using session_protocol.tells_run [OF assms(1), of s k fuel b i] assms(3-5) by (simp add: session_protocol.tells_def [OF assms(1)])
  show ?thesis
  proof (cases r)
    case (Inl e)
    with valid_Inl [OF v assms(2)] assms(6) show ?thesis by (auto simp: told_def)
  next
    case (Inr x)
    with valid_Inr [OF v assms(2)] assms(6) show ?thesis by (auto simp: follows_def)
  qed
qed

text \<open>
  A web build that is ready: the visitor's session opens, is extended at the first poll and expires. Every
  attempt to extend it before that is refused.
\<close>

definition story_build :: build where
  "story_build = no_build\<lparr>b_ID := ''b1'', b_Status := BuildReady, b_SnapshotID := ''snap'', b_Kind := KindWeb, b_Port := 80,
    b_Log := ''[install] ok''\<rparr>"

definition story_state :: "world mstate" where
  "story_state = \<lparr>ms_hub = \<lparr>hb_world = \<lparr>mw_mem = NewMemory\<lparr>mm_sessions := [(''0123456789'', ends_session)], mm_builds := [(''b1'', story_build)]\<rparr>,
      mw_host = \<lparr>h_clock = int, h_rand = (\<lambda>n. replicate (Suc n) (CHR ''x'')), h_now = 5, h_id = 0\<rparr>,
      wd_fake = NewFake\<lparr>fk_Snapshots := [(''snap'', \<lparr>sn_ID = ''snap'', sn_SandboxID = ''sb-0'', sn_Status = SnapshotReady, sn_Error = [],
        sn_SizeBytes = 1\<rparr>)]\<rparr>\<rparr>, hb_runs = [], hb_active = []\<rparr>,
    ms_logs = [(''0123456789'', New)], ms_live = [''0123456789''], ms_spawned = []\<rparr>"

definition story_manager :: "visit \<Rightarrow> world manager" where
  "story_manager v = visited ends_manager [v]"

definition story :: "visit \<Rightarrow> (session_exit + unit) \<times> sevent list option" where
  "story v = (case session_run 40 (story_manager v) ends_session story_build demo_info story_state of
     (r, st) \<Rightarrow> (r, map_option Events (map_of (ms_logs st) ''0123456789'')))"

lemma story_extended:
  "story (Extends ''0123456789'') = (Inl SessionOver, Some
    [LogData 0 ''install'' ''ok'', PhaseData ''ready'' ''starting'' ''restoring your sandbox'',
     PreviewData ''https://80-sb-1.test.example'' 80, TerminalData True, TTLData 930000000006 False, PhaseData ''ready'' ''live'' ''live'',
     TTLData 960000000007 True, EndedData ''session expired''])"
  unfolding story_def story_manager_def story_state_def story_build_def ends_session_def ends_manager_def by code_simp

text \<open>A session that is replaced while its sandbox starts: the log goes on after its end, and the reader must stop there.\<close>

lemma story_replaced:
  "story (Replaces ''0123456789'') = (Inl SessionOver, Some
    [LogData 0 ''install'' ''ok'', PhaseData ''ready'' ''starting'' ''restoring your sandbox'',
     EndedData ''replaced by a new session'', ErrorData ''infra_error'' ''sandbox: not found''])"
  unfolding story_def story_manager_def story_state_def story_build_def ends_session_def ends_manager_def by code_simp

theorem run_follows_protocol_witness:
  "reads [LogData 0 ''install'' ''ok'', PhaseData ''ready'' ''starting'' ''restoring your sandbox'',
     PreviewData ''https://80-sb-1.test.example'' 80, TerminalData True, TTLData 930000000006 False, PhaseData ''ready'' ''live'' ''live'',
     TTLData 960000000007 True, EndedData ''session expired''] Opening = Some Closed"
proof -
  obtain r st' where r: "session_run 40 (story_manager (Extends ''0123456789'')) ends_session story_build demo_info story_state = (r, st')"
    by fastforce
  have m: "session_protocol (story_manager (Extends ''0123456789'')) stored_sessions"
    unfolding story_manager_def ends_manager_def by (rule fake_visits.visited_protocol)
  have k: "follows stored_sessions ''0123456789'' {Opening} story_state"
    by (simp add: follows_def filed_def view_of_def ends_session_def story_state_def stored_sessions_def New_def Events_def session_statuses)
  have s: "s_ID ends_session = ''0123456789''" "s_Status ends_session \<noteq> SessionLive" "s_Status ends_session \<noteq> SessionEnded"
    by (simp_all add: ends_session_def session_statuses)
  from run_follows_protocol [OF m k s r] story_extended show ?thesis by (auto simp: story_def r session_statuses)
qed

end
