(* ===== verification/Session_Story.thy ===== *)
theory Session_Story
  imports Session_Protocol
begin

text \<open>
  From \<open>Create\<close> to the end: a session that \<open>Create\<close> returned is in the state from which \<open>run\<close> keeps the
  protocol and ends, whoever extends or replaces it before \<open>run\<close> gets to it and at every wait; and a
  listener that comes when the log is gone is told a closed story as well.
\<close>

section \<open>Opening a session\<close>

lemma keeps_any: "keeps I f \<Longrightarrow> valid I f (\<lambda>_. I) (\<lambda>_ _. True)"
  unfolding keeps_valid by (erule valid_weaken) simp_all

locale session_opener = visited_manager m sview for m :: "'w manager" and sview +
  assumes visit_leaves: "leaves sview (so_RecordVisit (sm_Store m) i t)"
    and resolve_leaves: "leaves sview (sm_Resolve m ref)"
    and counts_leaves: "leaves sview (so_LiveSessions (sm_Store m) dev ip)"
begin

abbreviation in_order :: "'w mstate \<Rightarrow> bool" where
  "in_order st \<equiv> filed (view_of sview st)"

lemma framed_order: "framed in_order"
  by (simp add: framed_def)

lemma order_update: "keeps in_order (on_world (so_UpdateSession (sm_Store m) s))"
  by (rule keepsI) (simp add: update_state)

lemma order_log: "keeps in_order (change_log j f)" "keeps in_order (drop_live j)"
  by (auto simp: keeps_def change_log_def drop_live_def modifyS_def view_of_def split: option.split)

lemma order_terminate: "keeps in_order (terminate m s reason)"
  unfolding terminate_def emit_session_def
  by (intro keep framed_world [OF framed_order client_leaves(2)] order_update order_log)

lemma order_terminate_all: "keeps in_order (terminate_all m ss)"
  by (induction ss) (auto intro: keep order_terminate)

lemma order_attempt: "keeps in_order (attempt r)"
  by (simp add: attempt_def keep split: sum.split)

lemma order_mine: "keeps in_order (on_world (so_LiveSessionsForDevice (sm_Store m) dev))"
proof (rule keepsI)
  fix st assume "in_order st"
  moreover obtain mine where "so_LiveSessionsForDevice (sm_Store m) dev (hb_world (ms_hub st)) = (Inr mine, hb_world (ms_hub st))"
    using live_for_device by blast
  ultimately show "in_order (snd (on_world (so_LiveSessionsForDevice (sm_Store m) dev) st))"
    by (simp add: on_world_def view_of_def)
qed

lemma order_replace: "keeps in_order (replace_sessions m device byDev byIP)"
  unfolding replace_sessions_def by (intro keep order_mine order_attempt order_terminate_all)

text \<open>The session that \<open>Create\<close> returns.\<close>

definition opened :: "session \<times> build \<Rightarrow> 'w mstate \<Rightarrow> bool" where
  "opened p st \<longleftrightarrow> follows sview (s_ID (fst p)) {Opening} st \<and> s_Status (fst p) \<noteq> SessionLive \<and> s_Status (fst p) \<noteq> SessionEnded"

lemma start_opened: "valid in_order (start_session m device ip bld info) opened (\<lambda>_ _. True)"
proof (rule validI)
  fix st assume o: "in_order st"
  let ?w = "hb_world (ms_hub st)"
  obtain now w1 where n: "sm_Now m ?w = (now, w1)" by fastforce
  obtain s w2 where c: "so_CreateSession (sm_Store m) (new_session bld device ip now) w1 = (Inr s, w2)"
    "sview w2 = (sview w1)(s_ID s \<mapsto> s)" "s_Status s = s_Status (new_session bld device ip now)"
    using create_session by metis
  obtain at w3 where n2: "sm_Now m w2 = (at, w3)" by fastforce
  obtain e w4 where v: "so_RecordVisit (sm_Store m) (b_ID bld) at w3 = (e, w4)" by fastforce
  have eqs: "sview w1 = sview ?w" "sview w3 = sview w2" "sview w4 = sview w3"
    using now_leaves(1) visit_leaves n n2 v unfolding leaves_def by (metis snd_conv)+
  have "s_Status s \<noteq> SessionLive" "s_Status s \<noteq> SessionEnded" by (simp_all add: c(3) new_session_def session_statuses)
  with o show "case start_session m device ip bld info st of (Inl e, st') \<Rightarrow> True | (Inr p, st') \<Rightarrow> opened p st'"
    by (simp add: start_session_def bindS_def thenS_def on_world_def n c n2 v attempt_def returnS_def modifyS_def opened_def
        follows_def view_of_def eqs New_def Events_def)
qed

lemma Create_opened: "valid in_order (Manager_Create m device ip ref) opened (\<lambda>_ _. True)"
proof -
  have r: "valid in_order (throwS e) opened (\<lambda>_ _. True)" for e :: error by (simp add: valid_def throwS_def)
  show ?thesis
    unfolding Manager_Create_def
    by (intro valid_bind [OF keeps_any [OF order_attempt]] valid_bind [OF keeps_any [OF framed_world [OF framed_order counts_leaves]]]
        valid_bind [OF keeps_any [OF order_replace]] valid_bind [OF keeps_any [OF framed_world [OF framed_order resolve_leaves]]]
        valid_bind [OF keeps_any [OF framed_Ensure [OF framed_order]]] start_opened valid_if r)
      (auto intro!: valid_if r valid_bind [OF keeps_any [OF order_replace]] valid_bind [OF keeps_any [OF order_attempt]]
        valid_bind [OF keeps_any [OF framed_world [OF framed_order resolve_leaves]]]
        valid_bind [OF keeps_any [OF framed_Ensure [OF framed_order]]] start_opened)
qed

lemma visits_opened: "opened p st \<Longrightarrow> opened p (visits m vs st)"
  by (simp add: opened_def visits_keep Extend_follows terminate_keeps)

lemma visited_opener: "session_opener (visited m vs) sview"
proof -
  have "sm_Resolve (visited m vs) = sm_Resolve m" by (simp add: visited_def)
  then show ?thesis
    by (intro session_opener.intro visited_manager.intro session_opener_axioms.intro visited_manager_axioms.intro visited_protocol)
      (simp_all add: update_missing visit_leaves resolve_leaves counts_leaves)
qed

lemma story_told:
  assumes "in_order st" and "Manager_Create m device ip ref st = (Inr (s, b), st1)"
    and "session_run fuel m s b i (visits m vs st1) = (r, st2)"
  shows "\<exists>l. map_of (ms_logs st2) (s_ID s) = Some l \<and> reads (Events l) Opening \<noteq> None \<and>
    (r = Inl SessionOver \<longrightarrow> reads (Events l) Opening = Some Closed \<and> over_for sview (s_ID s) st2)"
proof -
  have "opened (s, b) (visits m vs st1)" using valid_Inr [OF Create_opened assms(1,2)] by (rule visits_opened)
  then have o: "follows sview (s_ID s) {Opening} (visits m vs st1)" "unserved (s_ID s) s" by (simp_all add: opened_def)
  have v: "valid (follows sview (s_ID s) {Opening}) (session_run fuel m s b i) (\<lambda>_. follows sview (s_ID s) {}) (told (s_ID s))"
    using tells_run [OF o(2)] by (simp add: tells_def)
  have e: "over_for sview (s_ID s) st2" if "r = Inl SessionOver"
    using recorded.run_ends [OF refl follows_known [OF o(1)]] assms(3) that by auto
  show ?thesis
  proof (cases r)
    case (Inl x)
    with valid_Inl [OF v o(1)] e assms(3) show ?thesis by (auto simp: told_def)
  next
    case (Inr x)
    with valid_Inr [OF v o(1)] assms(3) show ?thesis by (auto simp: follows_def)
  qed
qed

end

lemma fake_opener: "session_opener (fake_manager cd rs lm) stored_sessions"
  by (intro session_opener.intro session_opener_axioms.intro fake_visits.visited_manager_axioms)
    (simp_all add: leaves_def mworld_defs RecordVisit_def LiveSessions_def fun_eq_iff split: option.split)

interpretation fake_openings: session_opener "fake_manager cd rs lm" stored_sessions for cd rs lm
  by (rule fake_opener)

interpretation visited_openings: session_opener "visited (fake_manager cd rs lm) vs" stored_sessions for cd rs lm vs
  by (rule fake_openings.visited_opener)

section \<open>A listener that comes late\<close>

text \<open>The story that a session without a live log tells is closed.\<close>

lemma ended_events_closed: "reads (ended_events br s) Opening = Some Closed"
proof -
  have "reads (replayLog b) Opening = Some Opening" for b
    by (rule reads_logs) (auto simp: replayLog_def split: prod.splits)
  then show ?thesis by (simp add: ended_events_def reads_append split: sum.split)
qed

lemma Subscribe_stored:
  assumes "Manager_Subscribe m k st = (Inr (StoredSession evs), st')"
  shows "reads evs Opening = Some Closed"
  using assms
  by (auto simp: Manager_Subscribe_def bindS_def getS_def on_world_def attempt_def returnS_def throwS_def ended_events_closed
      split: option.splits sum.splits prod.splits if_splits)

section \<open>The property\<close>

text \<open>
  C5: Every session that \<open>Create\<close> returns comes to its end in good order: from the state that \<open>Create\<close> left,
  and after any extensions and replacements of sessions since, \<open>run\<close> only adds to the log what the protocol
  accepts; when it returns, the story is closed, the record is ended and the log is finished, so that every
  listener's channel closes; and a listener that comes later is told a closed story.
\<close>

theorem created_session_story:
  assumes "session_opener m sview" and "filed (view_of sview st)"
    and "Manager_Create m device ip ref st = (Inr (s, b), st1)" and "session_run fuel m s b i (visits m vs st1) = (r, st2)"
  shows "(\<exists>l. map_of (ms_logs st2) (s_ID s) = Some l \<and> reads (Events l) Opening \<noteq> None \<and>
      (r = Inl SessionOver \<longrightarrow> reads (Events l) Opening = Some Closed \<and> over_for sview (s_ID s) st2)) \<and>
    (\<forall>evs st3. Manager_Subscribe m (s_ID s) st2 = (Inr (StoredSession evs), st3) \<longrightarrow> reads evs Opening = Some Closed)"
  using session_opener.story_told [OF assms] Subscribe_stored by blast

text \<open>A visitor of the repository asks for a session, it is extended at every wait, and a new one replaces it before it runs.\<close>

definition visitor_state :: "world mstate" where
  "visitor_state = story_state\<lparr>ms_hub := (ms_hub story_state)\<lparr>hb_world := (hb_world (ms_hub story_state))\<lparr>mw_mem := NewMemory\<rparr>\<rparr>,
     ms_logs := [], ms_live := []\<rparr>"

lemma visitor_created: "\<exists>s b. fst (Manager_Create (visited ends_manager vs) ''device-1'' ''10.0.0.1'' ''a/b'' visitor_state) = Inr (s, b)"
proof -
  obtain r where r: "Parse ''a/b'' = Inr r" by (rule exE [of "\<lambda>r. Parse ''a/b'' = Inr r"]) (rule exI, code_simp)
  have id: "NewID ''xx'' = ''7878''" "NewID ''x'' = ''78''" by code_simp+
  show ?thesis
    by (simp add: create_defs r id ends_manager_def visitor_state_def story_state_def visited_def demo_info_def)
qed

theorem created_session_story_witness:
  "\<exists>s b st1. Manager_Create (story_manager (Extends ''78'')) ''device-1'' ''10.0.0.1'' ''a/b'' visitor_state = (Inr (s, b), st1) \<and>
    (\<exists>l. map_of (ms_logs (snd (session_run 40 (story_manager (Extends ''78'')) s b demo_info
        (visits (story_manager (Extends ''78'')) [Replaces ''78''] st1)))) (s_ID s) = Some l \<and> reads (Events l) Opening \<noteq> None)"
proof -
  let ?m = "story_manager (Extends ''78'')"
  have m: "session_opener ?m stored_sessions"
    unfolding story_manager_def ends_manager_def by (rule fake_openings.visited_opener)
  obtain s b st1 where c: "Manager_Create ?m ''device-1'' ''10.0.0.1'' ''a/b'' visitor_state = (Inr (s, b), st1)"
    using visitor_created [of "[Extends ''78'']"] unfolding story_manager_def by (metis prod.collapse)
  obtain r st2 where run: "session_run 40 ?m s b demo_info (visits ?m [Replaces ''78''] st1) = (r, st2)" by fastforce
  have "filed (view_of stored_sessions visitor_state)"
    by (simp add: filed_def view_of_def stored_sessions_def visitor_state_def NewMemory_def)
  from created_session_story [OF m this c run] c run show ?thesis by auto
qed

end
