(* ===== verification/Session_Returns.thy ===== *)
theory Session_Returns
  imports Session_Story
begin

text \<open>
  A session's goroutine returns: with fuel for the events of its build and for the polls up to its hard cap,
  \<open>run\<close> is over, whatever the build and the platform answer, and also while others extend and replace sessions.
\<close>

section \<open>Time passes\<close>

definition passes :: "('w \<Rightarrow> bool) \<Rightarrow> ('w \<Rightarrow> time) \<Rightarrow> ('w \<Rightarrow> 'r \<times> 'w) \<Rightarrow> bool" where
  "passes ok tm f \<longleftrightarrow> (\<forall>w. ok w \<longrightarrow> ok (snd (f w)) \<and> tm w \<le> tm (snd (f w)))"

lemma passesD: "passes ok tm f \<Longrightarrow> ok w \<Longrightarrow> f w = (r, w') \<Longrightarrow> ok w' \<and> tm w \<le> tm w'"
  unfolding passes_def by (metis snd_conv)

text \<open>The log of a build has at most \<open>events\<close> events; then its channel is closed.\<close>

locale timed_sessions = watched_sessions m sview ok tm
  for m :: "'w manager" and sview and ok :: "'w \<Rightarrow> bool" and tm :: "'w \<Rightarrow> time" +
  fixes events :: nat
  assumes client_passes: "passes ok tm (cl_Create (sm_Sandbox m) spec)" "passes ok tm (cl_Delete (sm_Sandbox m) i)"
      "passes ok tm (cl_WaitReady (sm_Sandbox m) i t)" "passes ok tm (cl_ExposePort (sm_Sandbox m) i p)"
    and update_passes: "passes ok tm (so_UpdateSession (sm_Store m) s)"
    and store_passes: "passes ok tm (so_GetBuild (sm_Store m) i)" "passes ok tm (so_UpdateBuild (sm_Store m) b)"
      "passes ok tm (so_GetBuild (bd_Store (sm_Builder m)) i)" "passes ok tm (so_UpdateBuild (bd_Store (sm_Builder m)) b)"
      "passes ok tm (so_CreateBuild (bd_Store (sm_Builder m)) b)"
      "passes ok tm (so_GetBuildBySHA (bd_Store (sm_Builder m)) ow rp sha)"
    and clock_passes: "passes ok tm (bd_Now (sm_Builder m))"
    and now_exact: "ok w \<Longrightarrow> fst (sm_Now m w) \<le> tm (snd (sm_Now m w))"
    and others_pass: "ok (hb_world (ms_hub st)) \<Longrightarrow> filed (view_of sview st) \<Longrightarrow>
      ok (hb_world (ms_hub (sm_Others m st))) \<and> tm (hb_world (ms_hub st)) \<le> tm (hb_world (ms_hub (sm_Others m st))) \<and>
      filed (view_of sview (sm_Others m st))"
    and next_passes: "ok (hb_world (ms_hub st)) \<Longrightarrow> filed (view_of sview st) \<Longrightarrow>
      ok (hb_world (ms_hub (snd (sm_Next m j n st)))) \<and> tm (hb_world (ms_hub st)) \<le> tm (hb_world (ms_hub (snd (sm_Next m j n st)))) \<and>
      filed (view_of sview (snd (sm_Next m j n st)))"
    and next_closes: "events \<le> n \<Longrightarrow> fst (sm_Next m j n st) = None"
begin

definition later :: "string \<Rightarrow> time \<Rightarrow> 'w mstate \<Rightarrow> bool" where
  "later k t st \<longleftrightarrow> ok (hb_world (ms_hub st)) \<and> t \<le> tm (hb_world (ms_hub st)) \<and> known sview k st \<and> filed (view_of sview st)"

lemma later_world: "passes ok tm f \<Longrightarrow> leaves sview f \<Longrightarrow> keeps (later k t) (on_world f)"
proof (rule keepsI)
  fix st assume p: "passes ok tm f" "leaves sview f" and l: "later k t st"
  obtain r w where f: "f (hb_world (ms_hub st)) = (r, w)" by fastforce
  have "sview w = sview (hb_world (ms_hub st))" using p(2) f unfolding leaves_def by (metis snd_conv)
  with l passesD [OF p(1) _ f] show "later k t (snd (on_world f st))"
    by (auto simp: later_def on_world_def f known_def view_of_def)
qed

lemma later_get: "keeps (later k t) (on_world (so_GetSession (sm_Store m) i))"
  by (rule later_world) (simp_all add: passes_def leaves_def get_session)

lemma later_now: "keeps (later k t) (on_world (sm_Now m))"
  by (rule later_world) (simp_all add: passes_def now_time now_leaves)

lemma later_update:
  assumes "s_ID s = k"
  shows "keeps (later k t) (on_world (so_UpdateSession (sm_Store m) s))"
proof (rule keepsI)
  fix st assume l: "later k t st"
  then have "sview (hb_world (ms_hub st)) (s_ID s) \<noteq> None" by (auto simp: later_def known_def view_of_def assms)
  from update_session [OF this] obtain w' where u: "so_UpdateSession (sm_Store m) s (hb_world (ms_hub st)) = (None, w')"
    "sview w' = (sview (hb_world (ms_hub st)))(k \<mapsto> s)" by (auto simp: assms)
  with l passesD [OF update_passes _ u(1)] assms show "later k t (snd (on_world (so_UpdateSession (sm_Store m) s) st))"
    by (auto simp: later_def on_world_def known_def view_of_def)
qed

lemma later_log: "keeps (later k t) (change_log i f)" "keeps (later k t) (emit_session i ev)"
proof -
  show *: "keeps (later k t) (change_log i f)" for f
    by (rule keepsI) (auto simp: later_def known_def view_of_def change_log_def modifyS_def split: option.split)
  then show "keeps (later k t) (emit_session i ev)" by (simp add: emit_session_def)
qed

lemma later_emit_all: "keeps (later k t) (emit_all i evs)"
  by (induction evs) (simp_all add: keeps_return keeps_then later_log)

lemma Ensure_passes:
  assumes "Ensure (sm_Builder m) i h = (r, h')" and "ok (hb_world h)"
  shows "ok (hb_world h') \<and> tm (hb_world h) \<le> tm (hb_world h')"
  using assms
  by (fastforce simp: Ensure_def start_def split: prod.splits sum.splits option.splits if_splits
      dest: passesD [OF store_passes(4)] passesD [OF store_passes(5)] passesD [OF store_passes(6)] passesD [OF clock_passes])

lemma later_Ensure: "keeps (later k t) (on_hub (Ensure (sm_Builder m) i))"
proof (rule keepsI)
  fix st assume l: "later k t st"
  obtain r h where e: "Ensure (sm_Builder m) i (ms_hub st) = (r, h)" by fastforce
  with l Ensure_passes [OF e] Ensure_leaves [OF e] show "later k t (snd (on_hub (Ensure (sm_Builder m) i) st))"
    by (auto simp: later_def on_hub_def known_def view_of_def)
qed

lemma later_Subscribe: "keeps (later k t) (on_hub (builder_Subscribe (sm_Builder m) i))"
proof (rule keepsI)
  fix st assume l: "later k t st"
  obtain r h where e: "builder_Subscribe (sm_Builder m) i (ms_hub st) = (r, h)" by fastforce
  have "ok (hb_world h) \<and> tm (hb_world (ms_hub st)) \<le> tm (hb_world h)"
    using e l by (auto simp: builder_Subscribe_def later_def split: prod.splits sum.splits option.splits
        dest: passesD [OF store_passes(3)])
  with l Subscribe_leaves [OF e] show "later k t (snd (on_hub (builder_Subscribe (sm_Builder m) i) st))"
    by (auto simp: later_def on_hub_def known_def view_of_def e)
qed

lemma later_others: "keeps (later k t) (modifyS (sm_Others m))"
  by (rule keeps_modify) (use others_pass in \<open>fastforce simp: later_def others_known\<close>)

lemma later_next: "keeps (later k t) (next_event m j i)"
proof (rule keepsI)
  fix st assume "later k t st"
  with next_passes [of st j i] next_known [of k st j i] show "later k t (snd (next_event m j i st))"
    by (auto simp: later_def next_event_def split: prod.split)
qed

section \<open>No step waits for ever\<close>

definition proceeds :: "string \<Rightarrow> time \<Rightarrow> ('w mstate, session_exit, 'a) action \<Rightarrow> bool" where
  "proceeds k t f \<longleftrightarrow> valid (later k t) f (\<lambda>_. later k t) (\<lambda>e _. e = SessionOver)"

lemmas proceeds_D = proceeds_def [THEN iffD1]

lemma proceeds_quiet: "keeps (later k t) f \<Longrightarrow> raises (\<lambda>e. e = SessionOver) f \<Longrightarrow> proceeds k t f"
  unfolding proceeds_def by (rule keeps_raises)

lemma proceeds_bind: "proceeds k t f \<Longrightarrow> (\<And>x. proceeds k t (g x)) \<Longrightarrow> proceeds k t (bindS f g)"
  unfolding proceeds_def by (rule valid_bind)

lemma proceeds_then: "proceeds k t f \<Longrightarrow> proceeds k t g \<Longrightarrow> proceeds k t (thenS f g)"
  unfolding proceeds_def by (rule valid_then)

lemma proceeds_if: "(b \<Longrightarrow> proceeds k t f) \<Longrightarrow> (\<not> b \<Longrightarrow> proceeds k t g) \<Longrightarrow> proceeds k t (if b then f else g)"
  by simp

lemma proceeds_case:
  "(\<And>e. proceeds k t (f e)) \<Longrightarrow> (\<And>x. proceeds k t (g x)) \<Longrightarrow> proceeds k t (case r of Inl e \<Rightarrow> f e | Inr x \<Rightarrow> g x)"
  "proceeds k t h \<Longrightarrow> (\<And>x. proceeds k t (g x)) \<Longrightarrow> proceeds k t (case o' of None \<Rightarrow> h | Some x \<Rightarrow> g x)"
  "(\<And>x y. proceeds k t (p x y)) \<Longrightarrow> proceeds k t (case q of (x, y) \<Rightarrow> p x y)"
  by (auto split: sum.split option.split prod.split)

lemma proceeds_return: "proceeds k t (returnS x)" "proceeds k t (getS h)"
  by (auto simp: proceeds_def valid_def returnS_def getS_def)

lemma proceeds_world: "passes ok tm f \<Longrightarrow> leaves sview f \<Longrightarrow> proceeds k t (on_world f)"
  by (rule proceeds_quiet, rule later_world) (simp_all add: raises_steps)

lemma proceeds_steps:
  "s_ID s = k \<Longrightarrow> proceeds k t (on_world (so_UpdateSession (sm_Store m) s))" "proceeds k t (on_world (sm_Now m))"
  "proceeds k t (emit_session i ev)" "proceeds k t (emit_all i evs)" "proceeds k t (on_hub (Ensure (sm_Builder m) i0))"
  "proceeds k t (on_hub (builder_Subscribe (sm_Builder m) i))" "proceeds k t (modifyS (sm_Others m))"
  by (auto intro!: proceeds_quiet later_update later_now later_log later_emit_all later_Ensure later_Subscribe later_others
      raises_steps raises_emit_all raise)

lemma over_finish: "valid P (finish_session m s reason :: ('w mstate, session_exit, 'a) action) Q (\<lambda>e _. e = SessionOver)"
proof (rule validI)
  fix st
  obtain r st' where r: "(finish_session m s reason :: ('w mstate, session_exit, 'a) action) st = (r, st')" by fastforce
  have "fst ((finish_session m s reason :: ('w mstate, session_exit, 'a) action) st) = Inl SessionOver" by (rule finish_over)
  with r show "case (finish_session m s reason :: ('w mstate, session_exit, 'a) action) st of
      (Inl e, s') \<Rightarrow> e = SessionOver | (Inr x, s') \<Rightarrow> Q x s'" by simp
qed

lemma over_stop: "valid (later k t) (stop_session m s code msg reason) Q (\<lambda>e _. e = SessionOver)"
  unfolding stop_session_def by (rule valid_then [OF proceeds_D [OF proceeds_steps(3)] over_finish])

lemma proceeds_stop: "proceeds k t (stop_session m s code msg reason)"
  unfolding proceeds_def by (rule over_stop)

lemmas proceeds_rules = proceeds_bind proceeds_then proceeds_if proceeds_case proceeds_return proceeds_world proceeds_steps proceeds_stop
  client_leaves client_passes store_leaves store_passes

lemma proceeds_forward_event: "proceeds k t (forward_event s b ev)"
  unfolding forward_event_def by (intro proceeds_rules)

lemma proceeds_forward_stored: "proceeds k t (forward_stored s b evs)"
  by (induction evs arbitrary: b) (auto intro!: proceeds_rules proceeds_forward_event)

lemma proceeds_forward_live: "i \<le> events \<Longrightarrow> events < i + n \<Longrightarrow> proceeds k t (forward_live n m s j i b)"
proof (induction n arbitrary: i b)
  case (Suc n)
  have v: "valid (later k t) (next_event m j i) (\<lambda>r st. later k t st \<and> (r \<noteq> None \<longrightarrow> i < events)) (\<lambda>e _. e = SessionOver)"
  proof (rule validI)
    fix st assume l: "later k t st"
    show "case next_event m j i st of (Inl e, s') \<Rightarrow> e = SessionOver | (Inr r, s') \<Rightarrow> later k t s' \<and> (r \<noteq> None \<longrightarrow> i < events)"
      using keepsD [OF later_next l, of j i] next_closes [of i j st]
      by (auto simp: next_event_def not_less split: prod.splits) (metis not_less option.discI)
  qed
  show ?case
    unfolding forward_live.simps proceeds_def
  proof (rule valid_bind_fact [OF v])
    fix r :: "bevent option" assume r: "r \<noteq> None \<longrightarrow> i < events"
    show "valid (later k t) (case r of None \<Rightarrow> returnS b | Some ev \<Rightarrow> bindS (forward_event s b ev) (\<lambda>b. forward_live n m s j (Suc i) b))
        (\<lambda>_. later k t) (\<lambda>e _. e = SessionOver)"
      using r Suc.prems
      by (intro proceeds_D) (auto intro!: proceeds_bind proceeds_return proceeds_forward_event Suc.IH split: option.split)
  qed
qed simp

lemma proceeds_follow: "events < n \<Longrightarrow> proceeds k t (follow n m s b)"
  unfolding follow_def forward_build_def Let_def
  by (auto intro!: proceeds_rules proceeds_forward_stored proceeds_forward_live split: stream.split)

lemma proceeds_rebuild: "proceeds k t (rebuild m b i)"
  unfolding rebuild_def by (intro proceeds_rules)

lemma proceeds_restore: "events < n \<Longrightarrow> 8 \<le> length (s_ID s) \<Longrightarrow> proceeds k t (restore n m s i rebuilt b)"
proof -
  assume s: "events < n" "8 \<le> length (s_ID s)"
  have last: "proceeds k t (restore n m s i True b)" for b
    by (subst restore.simps) (use s in \<open>auto intro!: proceeds_rules\<close>)
  then have "proceeds k t (restore n m s i False b)" for b
    by (subst restore.simps) (use s in \<open>auto intro!: proceeds_rules proceeds_rebuild proceeds_follow\<close>)
  with last show ?thesis by (cases rebuilt) simp_all
qed

section \<open>Going live, and the watch\<close>

text \<open>The session is live, and its hard cap and its expiry lie within the longer of the two windows from now.\<close>

definition capped :: "string \<Rightarrow> 'w mstate \<Rightarrow> bool" where
  "capped k st \<longleftrightarrow> ok (hb_world (ms_hub st)) \<and>
    (\<exists>cap. expires_by (lm_MaxTTL (sm_Limits m)) sview k cap (hb_world (ms_hub st)) \<and>
      cap \<le> tm (hb_world (ms_hub st)) + max (lm_TTL (sm_Limits m)) (lm_MaxTTL (sm_Limits m)))"

lemma over_expose:
  assumes "s_ID s = k"
  shows "valid (later k t) (expose_preview m s b sb) (\<lambda>s' st. later k t st \<and> s_ID s' = k \<and> s_CreatedAt s' = s_CreatedAt s)
    (\<lambda>e _. e = SessionOver)"
proof -
  have r: "valid (later k t) (returnS s') (\<lambda>s' st. later k t st \<and> s_ID s' = k \<and> s_CreatedAt s' = s_CreatedAt s) (\<lambda>e _. e = SessionOver)"
    if "s_ID s' = k" "s_CreatedAt s' = s_CreatedAt s" for s'
    using that by (simp add: valid_def returnS_def)
  show ?thesis
    unfolding expose_preview_def
    by (intro valid_if valid_bind [OF proceeds_D [OF proceeds_world [OF client_passes(4) client_leaves(5)]]] valid_case_sum
        valid_then [OF proceeds_D [OF proceeds_steps(3)]] r) (simp_all add: assms)
qed

lemma now_later:
  "valid (later k t) (on_world (sm_Now m)) (\<lambda>now st. later k (max t now) st) (\<lambda>e _. e = SessionOver)"
proof (rule validI)
  fix st assume l: "later k t st"
  obtain now w where n: "sm_Now m (hb_world (ms_hub st)) = (now, w)" by fastforce
  have "later k t (snd (on_world (sm_Now m) st))" using later_now l by (rule keepsD)
  moreover have "now \<le> tm w" using now_exact [of "hb_world (ms_hub st)"] l n by (simp add: later_def)
  ultimately show "case on_world (sm_Now m) st of (Inl e, s') \<Rightarrow> e = SessionOver | (Inr now, s') \<Rightarrow> later k (max t now) s'"
    by (simp add: on_world_def n later_def)
qed

lemma update_capped:
  assumes "s_ID s = k" and "s_ExpiresAt s = Some (now + lm_TTL (sm_Limits m))" and "s_CreatedAt s \<le> t"
  shows "valid (later k (max t now)) (on_world (so_UpdateSession (sm_Store m) s)) (\<lambda>_. capped k) (\<lambda>e _. e = SessionOver)"
proof (rule validI)
  fix st assume l: "later k (max t now) st"
  let ?cap = "max (now + lm_TTL (sm_Limits m)) (s_CreatedAt s + lm_MaxTTL (sm_Limits m))"
  have "sview (hb_world (ms_hub st)) (s_ID s) \<noteq> None" using l by (auto simp: later_def known_def view_of_def assms)
  from update_session [OF this] obtain w' where u: "so_UpdateSession (sm_Store m) s (hb_world (ms_hub st)) = (None, w')"
    "sview w' = (sview (hb_world (ms_hub st)))(k \<mapsto> s)" by (auto simp: assms)
  with l passesD [OF update_passes _ u(1)] have w: "ok w'" "max t now \<le> tm w'" "filed (sview w')"
    by (auto simp: later_def view_of_def assms)
  then have "expires_by (lm_MaxTTL (sm_Limits m)) sview k ?cap w'"
    by (auto simp: expires_by_def u(2) assms)
  moreover have "?cap \<le> tm w' + max (lm_TTL (sm_Limits m)) (lm_MaxTTL (sm_Limits m))" using w(2) assms(3) by auto
  ultimately have "capped k (snd (on_world (so_UpdateSession (sm_Store m) s) st))"
    using w by (auto simp: capped_def on_world_def u)
  then show "case on_world (so_UpdateSession (sm_Store m) s) st of (Inl e, s') \<Rightarrow> e = SessionOver | (Inr _, s') \<Rightarrow> capped k s'"
    by (simp add: on_world_def u)
qed

lemma capped_emit_all: "keeps (capped k) (emit_all i evs)"
proof -
  have "keeps (capped k) (emit_session j ev)" for j ev
    by (rule keepsI) (simp add: capped_def emit_session_def change_log_def modifyS_def split: option.split)
  then show ?thesis by (induction evs) (auto intro: keeps_return keeps_then)
qed

lemma over_go_live:
  assumes "s_ID s = k" and "s_CreatedAt s \<le> t"
  shows "valid (later k t) (go_live m s b sb) (\<lambda>p st. capped k st \<and> s_ID (fst p) = k) (\<lambda>e _. e = SessionOver)"
proof -
  let ?s = "s\<lparr>s_SandboxID := sx_ID sb\<rparr>" and ?Q = "\<lambda>p :: session \<times> sandbox. \<lambda>st. capped k st \<and> s_ID (fst p) = k"
  have id: "s_ID ?s = k" "s_CreatedAt ?s = s_CreatedAt s" using assms by simp_all
  have live: "valid (later k (max t now)) (let exp = now + lm_TTL (sm_Limits m); s2 = live_session s1 exp
       in thenS (on_world (so_UpdateSession (sm_Store m) s2)) (thenS (emit_all (s_ID s2)
            [TerminalData True, TTLData exp False, PhaseData (b_Status b) (s_Status s2) ''live'']) (returnS (s2, sb'))))
      ?Q (\<lambda>e _. e = SessionOver)" if "s_ID s1 = k \<and> s_CreatedAt s1 = s_CreatedAt ?s" for s1 now sb'
  proof -
    let ?s2 = "live_session s1 (now + lm_TTL (sm_Limits m))"
    have i: "s_ID ?s2 = k" "s_ExpiresAt ?s2 = Some (now + lm_TTL (sm_Limits m))" "s_CreatedAt ?s2 \<le> t"
      using that assms(2) by (simp_all add: live_session_def)
    have e: "valid (capped k) (emit_all j evs) (\<lambda>_. capped k) (\<lambda>e _. e = SessionOver)" for j evs
      by (rule keeps_raises [OF capped_emit_all raises_emit_all])
    show ?thesis
      unfolding Let_def
      by (rule valid_then [OF update_capped [OF i]], rule valid_then [OF e]) (simp add: valid_def returnS_def i(1))
  qed
  show ?thesis
    unfolding go_live_def Let_def [of ?s]
    apply (rule valid_then [OF proceeds_D [OF proceeds_steps(1)]], rule id)
    apply (rule valid_then [OF proceeds_D [OF proceeds_steps(7)]])
    apply (rule valid_bind [OF proceeds_D [OF proceeds_world [OF client_passes(3) client_leaves(4)]]])
    apply (simp only: split: prod.split, intro allI impI)
    apply (rule valid_case_option)
     apply (rule valid_bind_fact [OF over_expose], rule id)
     apply (rule valid_bind [OF now_later])
     apply (rule live, assumption)
    apply (rule valid_then [OF proceeds_D [OF proceeds_world [OF client_passes(2) client_leaves(2)]] over_stop])
    done
qed

lemma over_watch:
  assumes "s_ID s = k" and "max (lm_TTL (sm_Limits m)) (lm_MaxTTL (sm_Limits m)) < int (Suc n) * sm_Poll m"
  shows "valid (capped k) (watch (Suc n) m sid s) (\<lambda>_ _. False) (\<lambda>e _. e = SessionOver)"
proof (rule validI)
  fix st assume c: "capped k st"
  then obtain cap where cap: "ok (hb_world (ms_hub st))" "expires_by (lm_MaxTTL (sm_Limits m)) sview k cap (hb_world (ms_hub st))"
    "cap \<le> tm (hb_world (ms_hub st)) + max (lm_TTL (sm_Limits m)) (lm_MaxTTL (sm_Limits m))"
    by (auto simp: capped_def)
  have "cap < tm (hb_world (ms_hub st)) + int (Suc n) * sm_Poll m" using cap(3) assms(2) by linarith
  from watch_over [OF cap(1,2) assms(1) this, of sid]
  show "case watch (Suc n) m sid s st of (Inl e, s') \<Rightarrow> e = SessionOver | (Inr _, s') \<Rightarrow> False"
    by (cases "watch (Suc n) m sid s st") auto
qed

lemma run_over:
  assumes s: "s_ID s = k" "s_CreatedAt s \<le> t" "8 \<le> length k" and n: "events < Suc n"
    and w: "max (lm_TTL (sm_Limits m)) (lm_MaxTTL (sm_Limits m)) < int (Suc n) * sm_Poll m" and st: "later k t st"
  shows "fst (session_run (Suc n) m s b i st) = Inl SessionOver"
proof -
  have live: "valid (later k t) (bindS (go_live m s' b' sb) (\<lambda>(s', sb'). watch (Suc n) m (sx_ID sb') s')) (\<lambda>_ _. False) (\<lambda>e _. e = SessionOver)"
    if "s_ID s' = k" "s_CreatedAt s' \<le> t" for s' b' sb
    by (rule valid_bind_fact [OF over_go_live [OF that]]) (use over_watch w in \<open>auto simp: case_prod_beta\<close>)
  have id: "s_ID (s\<lparr>s_Status := SessionStarting\<rparr>) = k" using s by simp
  have r: "proceeds k t (restore (Suc n) m (s\<lparr>s_Status := SessionStarting\<rparr>) i False b')" for b'
    by (rule proceeds_restore [OF n]) (use s in simp)
  have "valid (later k t) (session_run (Suc n) m s b i) (\<lambda>_ _. False) (\<lambda>e _. e = SessionOver)"
    unfolding session_run_def Let_def
    apply (rule valid_bind [OF proceeds_D [OF proceeds_follow [OF n]]])
    apply (rule valid_bind [OF proceeds_D [OF proceeds_return(2)]])
    apply (rule valid_then [OF proceeds_D [OF proceeds_if [OF proceeds_steps(4) proceeds_return(1)]]])
    apply (rule valid_then [OF proceeds_D [OF proceeds_steps(1)]], rule id)
    apply (rule valid_then [OF proceeds_D [OF proceeds_steps(3)]])
    apply (rule valid_bind [OF proceeds_D [OF r]])
    apply (simp only: split: prod.split, intro allI impI)
    apply (rule live)
    using s apply simp_all
    done
  from this st show ?thesis
    unfolding valid_def by (cases "session_run (Suc n) m s b i st") (auto split: sum.splits)
qed

end

section \<open>While others extend and replace sessions\<close>

locale visited_timed = session_opener m sview + timed_sessions m sview ok tm events
  for m :: "'w manager" and sview and ok :: "'w \<Rightarrow> bool" and tm :: "'w \<Rightarrow> time" and events +
  assumes keepalive_passes: "passes ok tm (cl_Keepalive (sm_Sandbox m) i)"
begin

text \<open>Time has passed, and if a cap is given, the session keeps it.\<close>

definition going :: "(string \<times> time) option \<Rightarrow> time \<Rightarrow> 'w mstate \<Rightarrow> bool" where
  "going c t st \<longleftrightarrow> ok (hb_world (ms_hub st)) \<and> t \<le> tm (hb_world (ms_hub st)) \<and> filed (view_of sview st) \<and>
    (\<forall>k cap. c = Some (k, cap) \<longrightarrow> expires_by (lm_MaxTTL (sm_Limits m)) sview k cap (hb_world (ms_hub st)))"

text \<open>What may be stored without moving the session beyond its cap.\<close>

definition fits :: "(string \<times> time) option \<Rightarrow> session \<Rightarrow> bool" where
  "fits c s \<longleftrightarrow> (\<forall>k cap. c = Some (k, cap) \<longrightarrow> s_ID s = k \<longrightarrow>
    (\<exists>e. s_ExpiresAt s = Some e \<and> e \<le> cap) \<and> s_CreatedAt s + lm_MaxTTL (sm_Limits m) \<le> cap)"

lemma going_world: "passes ok tm f \<Longrightarrow> leaves sview f \<Longrightarrow> keeps (going c t) (on_world f)"
proof (rule keepsI)
  fix st assume p: "passes ok tm f" "leaves sview f" and g: "going c t st"
  obtain r w where f: "f (hb_world (ms_hub st)) = (r, w)" by fastforce
  have "sview w = sview (hb_world (ms_hub st))" using p(2) f unfolding leaves_def by (metis snd_conv)
  with g passesD [OF p(1) _ f] show "going c t (snd (on_world f st))"
    by (fastforce simp: going_def on_world_def f view_of_def expires_by_def)
qed

lemma going_now: "keeps (going c t) (on_world (sm_Now m))"
  by (rule going_world) (simp_all add: passes_def now_time now_leaves)

lemma going_update:
  assumes "fits c s"
  shows "keeps (going c t) (on_world (so_UpdateSession (sm_Store m) s))"
proof (rule keepsI)
  fix st assume g: "going c t st"
  obtain e w where u: "so_UpdateSession (sm_Store m) s (hb_world (ms_hub st)) = (e, w)" by fastforce
  have v: "sview w = (if sview (hb_world (ms_hub st)) (s_ID s) = None then sview (hb_world (ms_hub st))
      else (sview (hb_world (ms_hub st)))(s_ID s \<mapsto> s))"
    using update_view [of s "hb_world (ms_hub st)"] by (simp add: u)
  have x: "expires_by (lm_MaxTTL (sm_Limits m)) sview k cap w" if "c = Some (k, cap)" for k cap
  proof -
    have old: "expires_by (lm_MaxTTL (sm_Limits m)) sview k cap (hb_world (ms_hub st))" using g that by (simp add: going_def)
    show ?thesis
    proof (cases "s_ID s = k")
      case True
      then show ?thesis using assms that old by (auto simp: v fits_def expires_by_def)
    next
      case False
      then show ?thesis using old by (auto simp: v expires_by_def)
    qed
  qed
  have "ok w \<and> tm (hb_world (ms_hub st)) \<le> tm w" using g passesD [OF update_passes _ u] by (simp add: going_def)
  with g x v show "going c t (snd (on_world (so_UpdateSession (sm_Store m) s) st))"
    by (auto simp: going_def on_world_def u view_of_def)
qed

lemma going_log: "keeps (going c t) (change_log j f)" "keeps (going c t) (drop_live j)" "keeps (going c t) (emit_session j ev)"
proof -
  show *: "keeps (going c t) (change_log j f)" for f
    by (rule keepsI) (simp add: going_def change_log_def modifyS_def view_of_def split: option.split)
  then show "keeps (going c t) (emit_session j ev)" by (simp add: emit_session_def)
  show "keeps (going c t) (drop_live j)"
    unfolding drop_live_def by (rule keeps_modify) (simp add: going_def view_of_def)
qed

lemma going_row: "going c t st \<Longrightarrow> view_of sview st j = Some s \<Longrightarrow> s_ID s = j \<and> fits c s"
  by (fastforce simp: going_def fits_def expires_by_def view_of_def dest: filedD)

lemma going_Extend: "keeps (going c t) (Extend m j)"
proof -
  have get: "valid (going c t) (on_world (so_GetSession (sm_Store m) j)) (\<lambda>r st. going c t st \<and> (\<forall>s. r = Inr s \<longrightarrow> fits c s)) (\<lambda>_. going c t)"
    using going_row by (fastforce simp: valid_def on_world_def get_session view_of_def split: option.splits)
  have fit: "fits c s \<Longrightarrow> fits c (extended (sm_Limits m) now s)" for s now
    by (auto simp: fits_def extended_def Let_def)
  show ?thesis
    unfolding Extend_def Let_def
    apply (rule valid_bind_value [OF get])
    subgoal for r
      by (cases r) (auto intro!: keep going_world [OF keepalive_passes client_leaves(6)] going_now going_update fit going_log)
    done
qed

lemma going_terminate: "fits c s \<Longrightarrow> keeps (going c t) (terminate m s reason)"
  unfolding terminate_def
  by (intro keep going_world [OF client_passes(2) client_leaves(2)] going_update going_log) (simp add: fits_def ended_def)

lemma going_visits: "going c t st \<Longrightarrow> going c t (visits m vs st)"
proof (induction vs arbitrary: st)
  case (Cons v vs)
  show ?case
  proof (cases v)
    case (Extends j)
    with Cons keepsD [OF going_Extend Cons.prems] show ?thesis by simp
  next
    case (Replaces j)
    show ?thesis
    proof (cases "view_of sview st j")
      case None
      with Cons Replaces show ?thesis by (simp add: get_session view_of_def)
    next
      case (Some s)
      have "keeps (going c t) (terminate_all m [s] :: ('w mstate, error, unit) action)"
        using going_row [OF Cons.prems Some] by (auto intro: keep going_terminate)
      from keepsD [OF this Cons.prems] Some Replaces Cons.IH show ?thesis by (simp add: get_session view_of_def)
    qed
  qed
qed simp

lemma visited_limits: "sm_Limits (visited m vs) = sm_Limits m" "sm_Poll (visited m vs) = sm_Poll m"
  by (simp_all add: visited_def)

lemma visited_watched: "watched_sessions (visited m vs) sview ok tm"
proof -
  have "session_manager (visited m vs) sview" using visited_protocol by (simp add: session_protocol_def)
  moreover have "ok (hb_world (ms_hub st')) \<and> expires_by (lm_MaxTTL (sm_Limits m)) sview k cap (hb_world (ms_hub st')) \<and>
      tm (hb_world (ms_hub st)) + sm_Poll m \<le> tm (hb_world (ms_hub st'))"
    if "ok (hb_world (ms_hub st))" "expires_by (lm_MaxTTL (sm_Limits m)) sview k cap (hb_world (ms_hub st))"
      "st' = visits m vs (sm_Others m st)" for st st' k cap
  proof -
    have "going (Some (k, cap)) (tm (hb_world (ms_hub st)) + sm_Poll m) (sm_Others m st)"
      using others_wait [OF that(1,2)] by (auto simp: going_def expires_by_def view_of_def)
    from going_visits [OF this, of vs] that(3) show ?thesis by (simp add: going_def)
  qed
  ultimately show ?thesis
    by (intro watched_sessions.intro watched_sessions_axioms.intro) (simp_all add: visited_limits get_time now_time)
qed

lemma visited_timed_sessions: "timed_sessions (visited m vs) sview ok tm events"
proof -
  have "ok (hb_world (ms_hub st')) \<and> tm (hb_world (ms_hub st)) \<le> tm (hb_world (ms_hub st')) \<and> filed (view_of sview st')"
    if "ok (hb_world (ms_hub st))" "filed (view_of sview st)" "st' = visits m vs (sm_Others m st)" for st st'
  proof -
    have "going None (tm (hb_world (ms_hub st))) (sm_Others m st)" using others_pass [OF that(1,2)] by (simp add: going_def)
    from going_visits [OF this, of vs] that(3) show ?thesis by (simp add: going_def)
  qed
  then show ?thesis
    by (intro timed_sessions.intro timed_sessions_axioms.intro visited_watched)
      (simp_all add: client_passes update_passes store_passes clock_passes now_exact next_passes next_closes)
qed

end

section \<open>The surroundings of the tests\<close>

definition clock_ok :: "'a world_scheme \<Rightarrow> bool" where
  "clock_ok w \<longleftrightarrow> mono (h_clock (mw_host w))"

lemma fake_passes:
  "passes clock_ok world_time (cl_Create fake_client spec)" "passes clock_ok world_time (cl_Delete fake_client i)"
  "passes clock_ok world_time (cl_WaitReady fake_client i t)" "passes clock_ok world_time (cl_ExposePort fake_client i p)"
  "passes clock_ok world_time (cl_Keepalive fake_client i)" "passes clock_ok world_time (cl_Get fake_client i)"
  by (auto simp: passes_def clock_ok_def world_time_def fake_client_def with_fake_def time_Now_def monoD split: prod.split)

lemma memory_passes:
  "passes clock_ok world_time (so_UpdateSession memory_store s)" "passes clock_ok world_time (so_GetBuild memory_store i)"
  "passes clock_ok world_time (so_UpdateBuild memory_store b)" "passes clock_ok world_time (so_CreateBuild memory_store b)"
  "passes clock_ok world_time (so_GetBuildBySHA memory_store ow rp sha)"
  by (auto simp: passes_def clock_ok_def world_time_def mworld_defs monoD Let_def split: prod.split)

lemma clock_exact:
  "passes clock_ok world_time world_clock"
  "clock_ok w \<Longrightarrow> clock_ok (snd (world_clock w)) \<and> world_time w \<le> fst (world_clock w) \<and> world_time w \<le> world_time (snd (world_clock w))"
  "clock_ok w \<Longrightarrow> fst (world_clock w) \<le> world_time (snd (world_clock w))"
  by (auto simp: passes_def clock_ok_def world_clock_def time_Now_def world_time_def monoD)

lemma sleep_exact: "clock_ok w \<Longrightarrow> clock_ok (snd (world_sleep t w)) \<and> world_time w + t \<le> world_time (snd (world_sleep t w))"
  by (auto simp: world_sleep_def clock_ok_def world_time_def Let_def mono_def)

lemma fake_watched: "watched_sessions (fake_manager cd rs lm) stored_sessions clock_ok world_time"
  by (intro watched_sessions.intro watched_sessions_axioms.intro fake_session_manager)
    (simp_all add: fake_others expires_by_def world_sleep_sessions sleep_exact clock_exact fake_passes(6) [unfolded passes_def, rule_format],
      simp add: fake_manager_def init_poll_def sleep_exact)

lemma fake_timed: "timed_sessions (fake_manager cd rs lm) stored_sessions clock_ok world_time 0"
proof -
  have "world_time w \<le> world_time (snd (world_sleep (30 * Second) w))" if "clock_ok w" for w :: "'a world_scheme"
    using sleep_exact [OF that, of "30 * Second"] by (simp add: Second_def)
  then show ?thesis
    by (intro timed_sessions.intro timed_sessions_axioms.intro fake_watched)
      (simp_all add: fake_passes memory_passes clock_exact fake_others fake_next sleep_exact view_of_def world_sleep_sessions)
qed

interpretation timed_visits: visited_timed "fake_manager cd rs lm" stored_sessions clock_ok world_time 0 for cd rs lm
  by (intro visited_timed.intro visited_timed_axioms.intro fake_opener fake_timed) (simp add: fake_passes)

section \<open>The property\<close>

text \<open>
  C21: The goroutine of a session returns. When the log of its build ends after at most \<open>events\<close> events, the
  clock does not go back and a poll takes its interval, then fuel for these events and for the polls that fit
  into the longer of \<open>TTL\<close> and \<open>MaxTTL\<close> is enough: \<open>run\<close> is over, with the session ended and its log finished.
\<close>

theorem session_run_returns:
  assumes "timed_sessions m sview ok tm events" and "ok (hb_world (ms_hub st))" and "known sview (s_ID s) st"
    and "filed (view_of sview st)" and "s_CreatedAt s \<le> tm (hb_world (ms_hub st))" and "8 \<le> length (s_ID s)" and "events \<le> n"
    and "max (lm_TTL (sm_Limits m)) (lm_MaxTTL (sm_Limits m)) < int (Suc n) * sm_Poll m"
  shows "\<exists>st'. session_run (Suc n) m s b i st = (Inl SessionOver, st') \<and> over_for sview (s_ID s) st'"
proof -
  have "timed_sessions.later sview ok tm (s_ID s) (tm (hb_world (ms_hub st))) st"
    using assms(2-4) by (simp add: timed_sessions.later_def [OF assms(1)])
  from timed_sessions.run_over [OF assms(1) refl assms(5,6) _ assms(8) this] assms(7)
  have o: "fst (session_run (Suc n) m s b i st) = Inl SessionOver" by simp
  have m: "session_manager m sview" using assms(1) by (simp add: timed_sessions_def watched_sessions_def)
  obtain st' where r: "session_run (Suc n) m s b i st = (Inl SessionOver, st')"
    using o by (cases "session_run (Suc n) m s b i st") auto
  from session_invariant.run_ends [OF session_manager.session_known [OF m] refl assms(3) r] r show ?thesis by simp
qed

text \<open>With the limits and the interval of the code, 61 turns are enough for a session that others extend at every wait.\<close>

theorem session_run_returns_witness:
  "\<exists>st'. session_run 61 (story_manager (Extends ''0123456789'')) ends_session story_build demo_info story_state = (Inl SessionOver, st') \<and>
    over_for stored_sessions ''0123456789'' st'"
proof -
  let ?m = "story_manager (Extends ''0123456789'')"
  have m: "timed_sessions ?m stored_sessions clock_ok world_time 0"
    unfolding story_manager_def ends_manager_def by (rule timed_visits.visited_timed_sessions)
  have st: "clock_ok (hb_world (ms_hub story_state))" "known stored_sessions (s_ID ends_session) story_state"
    "filed (view_of stored_sessions story_state)" "s_CreatedAt ends_session \<le> world_time (hb_world (ms_hub story_state))"
    "8 \<le> length (s_ID ends_session)"
    by (simp_all add: clock_ok_def mono_def known_def filed_def view_of_def story_state_def ends_session_def stored_sessions_def world_time_def
        no_session_def)
  have l: "sm_Limits ?m = DefaultLimits" "sm_Poll ?m = 30 * Second"
    by (simp_all add: story_manager_def visited_def ends_manager_def init_limits_def fake_manager_def init_poll_def)
  have "max (lm_TTL (sm_Limits ?m)) (lm_MaxTTL (sm_Limits ?m)) < int (Suc 60) * sm_Poll ?m"
    by (simp add: l DefaultLimits_def Minute_def Second_def)
  from session_run_returns [OF m st _ this] show ?thesis by (simp add: ends_session_def)
qed

end
