(* ===== verification/Http_Client.thy ===== *)
theory Http_Client
  imports Builder
begin

text \<open>
  \<open>internal/sandbox/http.go\<close>: the client of the real platform. Sending a request is a parameter (it returns
  an error, or the answer with its whole body and the error with which reading it ended), and so are the
  decoders of answers and the websocket library. A request body is the value that the code encodes.
\<close>

section \<open>Requests and answers\<close>

record config =
  cf_APIBase :: string
  cf_APIKey :: string
  cf_OrgID :: string
  cf_ProjectID :: string
  cf_Region :: string

definition NewHTTP :: "config \<Rightarrow> config result" where
  "NewHTTP cfg =
    (if cf_APIBase cfg = [] \<or> cf_APIKey cfg = [] \<or> cf_OrgID cfg = [] \<or> cf_ProjectID cfg = []
     then Inl (Errorf ''sandbox: api base, api key, org id and project id are required'')
     else Inr (cfg\<lparr>cf_APIBase := TrimRightByte (CHR ''/'') (cf_APIBase cfg)\<rparr>))"

record createRequest =
  cq_Name :: string
  cq_Region :: string
  cq_Restore :: string
  cq_Resources :: "resources option"
  cq_Egress :: egress
  cq_Lifecycle :: "lifecycle option"

record execRequest =
  xq_Command :: string
  xq_Program :: string
  xq_Args :: "string list"
  xq_Cwd :: string
  xq_Env :: "string list"
  xq_TimeoutMS :: int
  xq_Stdin :: string

datatype request_body =
    NoBody | CreateBody createRequest | PortBody int | SnapshotBody "(string \<times> string) list"
  | ExecBody execRequest | LogsBody string | RawBody string

record call_request =
  hq_method :: string
  hq_url :: string
  hq_headers :: "(string \<times> string) list"
  hq_body :: request_body

record answer =
  ha_status :: int
  ha_body :: string
  ha_fail :: "error option"

record streamEvent =
  se_Type :: string
  se_Data :: string
  se_ExitCode :: "int option"
  se_ReasonCode :: string
  se_Message :: string

record 'w http =
  ht_cfg :: config
  ht_Do :: "call_request \<Rightarrow> 'w \<Rightarrow> answer result \<times> 'w"
  ht_Clock :: "'w \<Rightarrow> time \<times> 'w"
  ht_Sleep :: "time \<Rightarrow> 'w \<Rightarrow> error option \<times> 'w"
  ht_Dial :: "string \<Rightarrow> (string \<times> string) list \<Rightarrow> 'w \<Rightarrow> nat result \<times> 'w"
  ht_sandbox :: "answer \<Rightarrow> sandbox result"
  ht_snapshot :: "answer \<Rightarrow> snapshot result"
  ht_preview :: "answer \<Rightarrow> string result"
  ht_process :: "answer \<Rightarrow> process result"
  ht_event :: "string \<Rightarrow> streamEvent result"

section \<open>The control plane\<close>

definition api_path :: "config \<Rightarrow> string list \<Rightarrow> string" where
  "api_path cfg parts =
    cf_APIBase cfg @ ''/api/v1beta1/orgs/'' @ cf_OrgID cfg @ ''/projects/'' @ cf_ProjectID cfg @ ''/'' @ Join parts ''/''"

definition readErr :: "answer \<Rightarrow> string" where
  "readErr a = ''status '' @ Itoa (ha_status a) @ '': '' @ TrimSpace (take 4096 (ha_body a))"

definition control_request :: "config \<Rightarrow> string \<Rightarrow> string \<Rightarrow> request_body \<Rightarrow> call_request" where
  "control_request cfg meth u body =
    \<lparr>hq_method = meth, hq_url = u,
     hq_headers = [(''Authorization'', ''Bearer '' @ cf_APIKey cfg), (''Accept'', ''application/json'')] @
       (if body \<noteq> NoBody then [(''Content-Type'', ''application/json'')] else []),
     hq_body = body\<rparr>"

definition handled_status :: "int \<Rightarrow> bool" where
  "handled_status st \<longleftrightarrow> st < 400 \<or> st = 404 \<or> st = 429 \<or> st = 503"

text \<open>
  \<open>control\<close>: the status, the decoded value (\<open>zero\<close> when nothing was decoded), and the error. There is no
  decoder when the caller passes \<open>nil\<close>.
\<close>

definition control ::
  "'w http \<Rightarrow> string \<Rightarrow> string \<Rightarrow> request_body \<Rightarrow> (answer \<Rightarrow> 'a result) option \<Rightarrow> 'a \<Rightarrow> 'w \<Rightarrow> (int \<times> 'a \<times> error option) \<times> 'w" where
  "control H meth u body dec zero w =
    (case ht_Do H (control_request (ht_cfg H) meth u body) w of
       (Inl e, w') \<Rightarrow> ((0, zero, Some e), w')
     | (Inr a, w') \<Rightarrow>
         (if \<not> handled_status (ha_status a)
          then (ha_status a, zero, Some (Errorf (meth @ '' '' @ u @ '': '' @ readErr a)))
          else case dec of
              Some d \<Rightarrow>
                if ha_status a < 300
                then (case d a of
                        Inl e \<Rightarrow> (ha_status a, zero, Some (Wrapf (''decode '' @ meth @ '' '' @ u) e))
                      | Inr x \<Rightarrow> (ha_status a, x, None))
                else (ha_status a, zero, None)
            | None \<Rightarrow> (ha_status a, zero, None), w'))"

definition create_body :: "config \<Rightarrow> createSpec \<Rightarrow> createRequest" where
  "create_body cfg spec =
    \<lparr>cq_Name = cs_Name spec, cq_Region = cf_Region cfg, cq_Restore = cs_Restore spec, cq_Resources = cs_Resources spec,
     cq_Egress = cs_Egress spec,
     cq_Lifecycle = (if cs_Lifecycle spec \<noteq> \<lparr>lc_IdleTimeoutSeconds = 0, lc_MaxLifetimeSeconds = 0, lc_OnIdle = []\<rparr>
       then Some (cs_Lifecycle spec) else None)\<rparr>"

definition http_Create :: "'w http \<Rightarrow> createSpec \<Rightarrow> 'w \<Rightarrow> sandbox result \<times> 'w" where
  "http_Create H spec w =
    (case control H ''POST'' (api_path (ht_cfg H) [''sandboxes'']) (CreateBody (create_body (ht_cfg H) spec))
        (Some (ht_sandbox H)) no_sandbox w of
       ((st, sb, err), w') \<Rightarrow>
         (case err of
            Some e \<Rightarrow> Inl e
          | None \<Rightarrow>
              if st = 429 \<or> st = 503 then Inl ErrSandboxBusy
              else if st \<noteq> 201 \<and> st \<noteq> 200 then Inl (Errorf (''create sandbox: status '' @ Itoa st))
              else Inr sb, w'))"

definition http_Get :: "'w http \<Rightarrow> string \<Rightarrow> 'w \<Rightarrow> sandbox result \<times> 'w" where
  "http_Get H i w =
    (case control H ''GET'' (api_path (ht_cfg H) [''sandboxes'', i]) NoBody (Some (ht_sandbox H)) no_sandbox w of
       ((st, sb, err), w') \<Rightarrow>
         (case err of
            Some e \<Rightarrow> Inl e
          | None \<Rightarrow>
              if st = 404 then Inl ErrSandboxNotFound
              else if st \<noteq> 200 then Inl (Errorf (''get sandbox '' @ i @ '': status '' @ Itoa st))
              else Inr sb, w'))"

text \<open>A call without an answer to decode, and the statuses with which it succeeds.\<close>

definition plain_call :: "'w http \<Rightarrow> string \<Rightarrow> string \<Rightarrow> int list \<Rightarrow> string \<Rightarrow> 'w \<Rightarrow> error option \<times> 'w" where
  "plain_call H meth u good what w =
    (case control H meth u NoBody None () w of
       ((st, _, err), w') \<Rightarrow>
         (case err of
            Some e \<Rightarrow> Some e
          | None \<Rightarrow> if st \<notin> set good then Some (Errorf (what @ '': status '' @ Itoa st)) else None, w'))"

definition http_Delete :: "'w http \<Rightarrow> string \<Rightarrow> 'w \<Rightarrow> error option \<times> 'w" where
  "http_Delete H i = plain_call H ''DELETE'' (api_path (ht_cfg H) [''sandboxes'', i]) [204, 200, 404] (''delete sandbox '' @ i)"

definition http_Keepalive :: "'w http \<Rightarrow> string \<Rightarrow> 'w \<Rightarrow> error option \<times> 'w" where
  "http_Keepalive H i = plain_call H ''POST'' (api_path (ht_cfg H) [''sandboxes'', i, ''keepalive'']) [200] (''keepalive '' @ i)"

definition http_Pause :: "'w http \<Rightarrow> string \<Rightarrow> 'w \<Rightarrow> error option \<times> 'w" where
  "http_Pause H i = plain_call H ''POST'' (api_path (ht_cfg H) [''sandboxes'', i, ''pause'']) [200, 202, 204] (''pause '' @ i)"

definition http_ExposePort :: "'w http \<Rightarrow> string \<Rightarrow> int \<Rightarrow> 'w \<Rightarrow> string result \<times> 'w" where
  "http_ExposePort H i port w =
    (case control H ''POST'' (api_path (ht_cfg H) [''sandboxes'', i, ''ports'']) (PortBody port) (Some (ht_preview H)) [] w of
       ((st, url, err), w') \<Rightarrow>
         (case err of
            Some e \<Rightarrow> Inl e
          | None \<Rightarrow>
              if st \<noteq> 200 \<and> st \<noteq> 201
              then Inl (Errorf (''expose port '' @ Itoa port @ '' on '' @ i @ '': status '' @ Itoa st))
              else Inr url, w'))"

definition no_snapshot :: snapshot where
  "no_snapshot = \<lparr>sn_ID = [], sn_SandboxID = [], sn_Status = [], sn_Error = [], sn_SizeBytes = 0\<rparr>"

definition http_CreateSnapshot :: "'w http \<Rightarrow> string \<Rightarrow> string \<Rightarrow> 'w \<Rightarrow> snapshot result \<times> 'w" where
  "http_CreateSnapshot H i name w =
    (case control H ''POST'' (api_path (ht_cfg H) [''sandboxes'', i, ''snapshots''])
        (SnapshotBody (if name \<noteq> [] then [(''name'', name)] else [])) (Some (ht_snapshot H)) no_snapshot w of
       ((st, sn, err), w') \<Rightarrow>
         (case err of
            Some e \<Rightarrow> Inl e
          | None \<Rightarrow>
              if st \<noteq> 202 \<and> st \<noteq> 201 \<and> st \<noteq> 200
              then Inl (Errorf (''create snapshot of '' @ i @ '': status '' @ Itoa st))
              else Inr sn, w'))"

definition http_GetSnapshot :: "'w http \<Rightarrow> string \<Rightarrow> 'w \<Rightarrow> snapshot result \<times> 'w" where
  "http_GetSnapshot H k w =
    (case control H ''GET'' (api_path (ht_cfg H) [''snapshots'', k]) NoBody (Some (ht_snapshot H)) no_snapshot w of
       ((st, sn, err), w') \<Rightarrow>
         (case err of
            Some e \<Rightarrow> Inl e
          | None \<Rightarrow>
              if st = 404 then Inl ErrSandboxNotFound
              else if st \<noteq> 200 then Inl (Errorf (''get snapshot '' @ k @ '': status '' @ Itoa st))
              else Inr sn, w'))"

section \<open>Waiting\<close>

text \<open>\<open>time.Duration.String\<close>: a number of units with its fraction, without trailing zeros.\<close>

definition fraction :: "nat \<Rightarrow> int \<Rightarrow> string" where
  "fraction p v =
    (let f = v mod 10 ^ p; ds = Itoa f; padded = replicate (p - length ds) (CHR ''0'') @ ds
     in Itoa (v div 10 ^ p) @ (if f = 0 then [] else CHR ''.'' # TrimRightByte (CHR ''0'') padded))"

definition duration_String :: "time \<Rightarrow> string" where
  "duration_String d =
    (if d = 0 then ''0s''
     else
       (let u = \<bar>d\<bar>; mins = u div Minute;
            text = (if u < 1000 then Itoa u @ ''ns''
              else if u < Millisecond then fraction 3 u @ [CHR 0xC2, CHR 0xB5, CHR ''s'']
              else if u < Second then fraction 6 u @ ''ms''
              else (if mins \<ge> 60 then Itoa (mins div 60) @ ''h'' else []) @
                (if mins > 0 then Itoa (mins mod 60) @ ''m'' else []) @ fraction 9 (u mod Minute) @ ''s'')
        in (if d < 0 then ''-'' else []) @ text))"

text \<open>The loops poll with fuel for their turns; \<open>None\<close> is a loop that is still waiting.\<close>

fun wait_ready_loop :: "nat \<Rightarrow> 'w http \<Rightarrow> string \<Rightarrow> time \<Rightarrow> time \<Rightarrow> 'w \<Rightarrow> (sandbox \<times> error option) option \<times> 'w" where
  "wait_ready_loop 0 H i timeout deadline w = (None, w)"
| "wait_ready_loop (Suc n) H i timeout deadline w =
    (case http_Get H i w of
       (Inl e, w1) \<Rightarrow> (Some (no_sandbox, Some e), w1)
     | (Inr sb, w1) \<Rightarrow>
         if sx_Phase sb = PhaseReady \<and> sx_ConnectURL sb \<noteq> [] then (Some (sb, None), w1)
         else if sx_Phase sb = PhasePaused \<or> sx_Phase sb = ''RestoreFailed''
         then (Some (sb, Some (Errorf (''sandbox '' @ i @ '' entered '' @ sx_Phase sb @ '' while waiting for Ready''))), w1)
         else
           (case ht_Clock H w1 of (now, w2) \<Rightarrow>
             if now > deadline
             then (Some (sb, Some (Errorf (''sandbox '' @ i @ '' not Ready after '' @ duration_String timeout @
                     '' (phase '' @ sx_Phase sb @ '')''))), w2)
             else (case ht_Sleep H Second w2 of
                     (Some e, w3) \<Rightarrow> (Some (sb, Some e), w3)
                   | (None, w3) \<Rightarrow> wait_ready_loop n H i timeout deadline w3)))"

definition http_WaitReady :: "nat \<Rightarrow> 'w http \<Rightarrow> string \<Rightarrow> time \<Rightarrow> 'w \<Rightarrow> (sandbox \<times> error option) option \<times> 'w" where
  "http_WaitReady fuel H i timeout w =
    (case ht_Clock H w of (now, w1) \<Rightarrow> wait_ready_loop fuel H i timeout (now + timeout) w1)"

fun wait_snapshot_loop :: "nat \<Rightarrow> 'w http \<Rightarrow> string \<Rightarrow> time \<Rightarrow> time \<Rightarrow> 'w \<Rightarrow> (snapshot \<times> error option) option \<times> 'w" where
  "wait_snapshot_loop 0 H k timeout deadline w = (None, w)"
| "wait_snapshot_loop (Suc n) H k timeout deadline w =
    (case http_GetSnapshot H k w of
       (Inl e, w1) \<Rightarrow> (Some (no_snapshot, Some e), w1)
     | (Inr sn, w1) \<Rightarrow>
         if sn_Status sn = SnapshotReady then (Some (sn, None), w1)
         else if sn_Status sn = SnapshotFailed
         then (Some (sn, Some (Errorf (''snapshot '' @ k @ '' failed: '' @ sn_Error sn))), w1)
         else
           (case ht_Clock H w1 of (now, w2) \<Rightarrow>
             if now > deadline
             then (Some (sn, Some (Errorf (''snapshot '' @ k @ '' not Ready after '' @ duration_String timeout @
                     '' (status '' @ sn_Status sn @ '')''))), w2)
             else (case ht_Sleep H (2 * Second) w2 of
                     (Some e, w3) \<Rightarrow> (Some (sn, Some e), w3)
                   | (None, w3) \<Rightarrow> wait_snapshot_loop n H k timeout deadline w3)))"

definition http_WaitSnapshot :: "nat \<Rightarrow> 'w http \<Rightarrow> string \<Rightarrow> time \<Rightarrow> 'w \<Rightarrow> (snapshot \<times> error option) option \<times> 'w" where
  "http_WaitSnapshot fuel H k timeout w =
    (case ht_Clock H w of (now, w1) \<Rightarrow> wait_snapshot_loop fuel H k timeout (now + timeout) w1)"

section \<open>The data plane\<close>

definition data_headers :: "config \<Rightarrow> (string \<times> string) list" where
  "data_headers cfg = [(''X-Api-Key'', cf_APIKey cfg), (''X-Protocol-Version'', ''1'')]"

definition data_url :: "sandbox \<Rightarrow> string \<Rightarrow> string" where
  "data_url sb route = TrimRightByte (CHR ''/'') (sx_ConnectURL sb) @ route"

definition data_request :: "config \<Rightarrow> sandbox \<Rightarrow> string \<Rightarrow> (string \<times> string) list \<Rightarrow> request_body \<Rightarrow> call_request" where
  "data_request cfg sb route hdrs body =
    \<lparr>hq_method = ''POST'', hq_url = data_url sb route, hq_headers = data_headers cfg @ hdrs, hq_body = body\<rparr>"

definition json_headers :: "(string \<times> string) list" where
  "json_headers = [(''Content-Type'', ''application/json'')]"

definition stream_headers :: "(string \<times> string) list" where
  "stream_headers = [(''Content-Type'', ''application/json''), (''Accept'', ''application/x-ndjson'')]"

definition dataJSON :: "'w http \<Rightarrow> sandbox \<Rightarrow> string \<Rightarrow> request_body \<Rightarrow> 'w \<Rightarrow> answer result \<times> 'w" where
  "dataJSON H sb route body =
    ht_Do H (data_request (ht_cfg H) sb route json_headers body)"

definition dataStream :: "'w http \<Rightarrow> sandbox \<Rightarrow> string \<Rightarrow> request_body \<Rightarrow> 'w \<Rightarrow> answer result \<times> 'w" where
  "dataStream H sb route body w =
    (case ht_Do H (data_request (ht_cfg H) sb route stream_headers body) w of
       (Inl e, w') \<Rightarrow> (Inl e, w')
     | (Inr a, w') \<Rightarrow> (if ha_status a \<ge> 300 then Inl (Errorf (route @ '': '' @ readErr a)) else Inr a, w'))"

text \<open>\<open>bufio.Scanner\<close> with its limit on a line, and \<open>readStream\<close>: the frames it hands on, and its error.\<close>

definition scan_lines :: "string \<Rightarrow> string list" where
  "scan_lines s = (let ls = SplitByte (CHR 0x0A) s in if last ls = [] then butlast ls else ls)"

definition max_line :: nat where
  "max_line = 4 * 2 ^ 20"

fun read_frames ::
  "(string \<Rightarrow> streamEvent result) \<Rightarrow> string list \<Rightarrow> error option \<Rightarrow> streamEvent list \<times> error option" where
  "read_frames dec [] rest = ([], rest)"
| "read_frames dec (l # ls) rest =
    (if length l \<ge> max_line then ([], Some (Errorf ''bufio.Scanner: token too long''))
     else if TrimSpace l = [] then read_frames dec ls rest
     else case dec (TrimSpace l) of
         Inl e \<Rightarrow> ([], Some (Wrapf ''stream frame'' e))
       | Inr ev \<Rightarrow>
           if se_Type ev = ''error''
           then ([], Some (Errorf (''stream: '' @ se_ReasonCode ev @ '': '' @ se_Message ev)))
           else (case read_frames dec ls rest of (evs, err) \<Rightarrow> (ev # evs, err)))"

definition readStream :: "(string \<Rightarrow> streamEvent result) \<Rightarrow> answer \<Rightarrow> streamEvent list \<times> error option" where
  "readStream dec a = read_frames dec (scan_lines (ha_body a)) (ha_fail a)"

definition is_output :: "streamEvent \<Rightarrow> bool" where
  "is_output ev \<longleftrightarrow> se_Type ev = ''stdout'' \<or> se_Type ev = ''stderr''"

definition data_of :: "string \<Rightarrow> streamEvent list \<Rightarrow> string" where
  "data_of typ evs = concat (map se_Data (filter (\<lambda>ev. se_Type ev = typ) evs))"

definition exit_step :: "int \<Rightarrow> streamEvent \<Rightarrow> int" where
  "exit_step c ev = (if se_Type ev = ''exit'' then (case se_ExitCode ev of Some x \<Rightarrow> x | None \<Rightarrow> c) else c)"

definition exec_result :: "streamEvent list \<Rightarrow> execResult" where
  "exec_result evs =
    \<lparr>er_Stdout = data_of ''stdout'' evs, er_Stderr = data_of ''stderr'' evs, er_ExitCode = foldl exit_step (- 1) evs\<rparr>"

definition exec_body :: "execSpec \<Rightarrow> execRequest" where
  "exec_body sp =
    \<lparr>xq_Command = ex_Command sp, xq_Program = [], xq_Args = ex_Args sp, xq_Cwd = ex_Cwd sp, xq_Env = ex_Env sp,
     xq_TimeoutMS = ex_TimeoutMS sp, xq_Stdin = ex_Stdin sp\<rparr>"

text \<open>What the writer gets, and the result beside the error: when the stream breaks off, what had arrived.\<close>

definition no_result :: execResult where
  "no_result = \<lparr>er_Stdout = [], er_Stderr = [], er_ExitCode = 0\<rparr>"

definition http_Exec :: "'w http \<Rightarrow> sandbox \<Rightarrow> execSpec \<Rightarrow> 'w \<Rightarrow> (string list \<times> execResult \<times> error option) \<times> 'w" where
  "http_Exec H sb sp w =
    (case dataStream H sb ''/v1/exec'' (ExecBody (exec_body sp)) w of
       (Inl e, w') \<Rightarrow> (([], no_result, Some e), w')
     | (Inr a, w') \<Rightarrow>
         (case readStream (ht_event H) a of
            (evs, err) \<Rightarrow> (map se_Data (filter is_output evs), exec_result evs, err), w'))"

text \<open>\<open>url.QueryEscape\<close>.\<close>

definition query_unreserved :: "char \<Rightarrow> bool" where
  "query_unreserved c \<longleftrightarrow> is_alnum c \<or> c \<in> set ''-_.~''"

definition query_byte :: "char \<Rightarrow> string" where
  "query_byte c = (if c = CHR '' '' then ''+'' else if query_unreserved c then [c]
     else (let n = of_char c :: nat in [CHR ''%'', upper_hex (n div 16), upper_hex (n mod 16)]))"

definition QueryEscape :: "string \<Rightarrow> string" where
  "QueryEscape s = concat (map query_byte s)"

definition http_WriteFile :: "'w http \<Rightarrow> sandbox \<Rightarrow> string \<Rightarrow> string \<Rightarrow> 'w \<Rightarrow> error option \<times> 'w" where
  "http_WriteFile H sb path data w =
    (case ht_Do H (data_request (ht_cfg H) sb (''/v1/files/write?path='' @ QueryEscape path)
        [(''Content-Type'', ''application/octet-stream'')] (RawBody data)) w of
       (Inl e, w') \<Rightarrow> (Some e, w')
     | (Inr a, w') \<Rightarrow>
         (if ha_status a \<ge> 300 then Some (Errorf (''write '' @ path @ '': '' @ readErr a)) else None, w'))"

definition start_body :: "execSpec \<Rightarrow> execRequest" where
  "start_body sp =
    \<lparr>xq_Command = [], xq_Program = ex_Command sp, xq_Args = ex_Args sp, xq_Cwd = ex_Cwd sp, xq_Env = ex_Env sp,
     xq_TimeoutMS = 0, xq_Stdin = ex_Stdin sp\<rparr>"

definition http_StartProcess :: "'w http \<Rightarrow> sandbox \<Rightarrow> execSpec \<Rightarrow> 'w \<Rightarrow> process result \<times> 'w" where
  "http_StartProcess H sb sp w =
    (case dataJSON H sb ''/v1/processes/start'' (ExecBody (start_body sp)) w of
       (Inl e, w') \<Rightarrow> (Inl e, w')
     | (Inr a, w') \<Rightarrow>
         (if ha_status a \<ge> 300 then Inl (Errorf (''start process: '' @ readErr a)) else ht_process H a, w'))"

definition http_StreamLogs :: "'w http \<Rightarrow> sandbox \<Rightarrow> string \<Rightarrow> 'w \<Rightarrow> ((string \<times> string) list \<times> error option) \<times> 'w" where
  "http_StreamLogs H sb pid w =
    (case dataStream H sb ''/v1/processes/logs'' (LogsBody pid) w of
       (Inl e, w') \<Rightarrow> (([], Some e), w')
     | (Inr a, w') \<Rightarrow>
         (case readStream (ht_event H) a of
            (evs, err) \<Rightarrow> (map (\<lambda>ev. (se_Type ev, se_Data ev)) (filter is_output evs), err), w'))"

text \<open>The query of \<open>DialPTY\<close>, as \<open>url.Values.Encode\<close> writes it: sorted by key.\<close>

definition pty_query :: "ptyOptions \<Rightarrow> (string \<times> string) list" where
  "pty_query opts =
    map (\<lambda>a. (''arg'', a)) (pt_Args opts) @
    (if pt_Cols opts > 0 then [(''cols'', Itoa (pt_Cols opts))] else []) @
    (if pt_Program opts \<noteq> [] then [(''program'', pt_Program opts)] else []) @
    (if pt_Rows opts > 0 then [(''rows'', Itoa (pt_Rows opts))] else [])"

definition Values_Encode :: "(string \<times> string) list \<Rightarrow> string" where
  "Values_Encode kvs = Join (map (\<lambda>(k, v). QueryEscape k @ ''='' @ QueryEscape v) kvs) ''&''"

definition pty_url :: "sandbox \<Rightarrow> ptyOptions \<Rightarrow> string" where
  "pty_url sb opts = ''ws'' @ TrimPrefix (data_url sb (''/v1/pty?'' @ Values_Encode (pty_query opts))) ''http''"

definition http_DialPTY :: "'w http \<Rightarrow> sandbox \<Rightarrow> ptyOptions \<Rightarrow> 'w \<Rightarrow> nat result \<times> 'w" where
  "http_DialPTY H sb opts w =
    (case ht_Dial H (pty_url sb opts) (data_headers (ht_cfg H)) w of
       (Inl e, w') \<Rightarrow> (Inl (Wrapf ''dial pty'' e), w')
     | (Inr c, w') \<Rightarrow> (Inr c, w'))"

end
