(* ===== verification/Http_Safety.thy ===== *)
theory Http_Safety
  imports Http_Client
begin

text \<open>
  What the client of the platform promises: where its requests go and with which key, which errors its
  callers can tell apart, that its waiting loops return, and that the output of a command arrives whole.
\<close>

section \<open>Requests\<close>

definition control_ok :: "config \<Rightarrow> call_request \<Rightarrow> bool" where
  "control_ok cfg rq \<longleftrightarrow>
    prefix (api_path cfg []) (hq_url rq) \<and> (''Authorization'', ''Bearer '' @ cf_APIKey cfg) \<in> set (hq_headers rq) \<and>
    ''X-Api-Key'' \<notin> fst ` set (hq_headers rq)"

definition data_ok :: "config \<Rightarrow> sandbox \<Rightarrow> call_request \<Rightarrow> bool" where
  "data_ok cfg sb rq \<longleftrightarrow>
    prefix (TrimRightByte (CHR ''/'') (sx_ConnectURL sb) @ ''/v1/'') (hq_url rq) \<and> hq_method rq = ''POST'' \<and>
    (''X-Api-Key'', cf_APIKey cfg) \<in> set (hq_headers rq) \<and> ''Authorization'' \<notin> fst ` set (hq_headers rq)"

lemma control_request_ok: "control_ok cfg (control_request cfg meth (api_path cfg parts) body)"
  by (auto simp: control_ok_def control_request_def api_path_def prefix_def)

lemma data_request_ok:
  "''Authorization'' \<notin> fst ` set hdrs \<Longrightarrow> prefix ''/v1/'' route \<Longrightarrow> data_ok cfg sb (data_request cfg sb route hdrs body)"
  by (auto simp: data_ok_def data_request_def data_headers_def data_url_def prefix_def)

text \<open>The upgrade to the terminal: below \<open>/v1/pty\<close> of the same address, with \<open>ws\<close> for \<open>http\<close> and the same key.\<close>

definition dial_ok :: "config \<Rightarrow> sandbox \<Rightarrow> string \<Rightarrow> (string \<times> string) list \<Rightarrow> bool" where
  "dial_ok cfg sb u hdrs \<longleftrightarrow>
    prefix (''ws'' @ TrimPrefix (TrimRightByte (CHR ''/'') (sx_ConnectURL sb)) ''http'' @ ''/v1/pty?'') u \<and>
    (''X-Api-Key'', cf_APIKey cfg) \<in> set hdrs \<and> ''Authorization'' \<notin> fst ` set hdrs"

lemma TrimPrefix_past: "\<not> prefix p s \<Longrightarrow> c \<notin> set p \<Longrightarrow> TrimPrefix (s @ c # s') p = s @ c # s'"
proof -
  assume "\<not> prefix p s" "c \<notin> set p"
  then have "\<not> prefix p (s @ c # s')" by (auto simp: prefix_append prefix_Cons)
  then show ?thesis by (simp add: TrimPrefix_def HasPrefix_def)
qed

lemma pty_url_ok: "dial_ok cfg sb (pty_url sb opts) (data_headers cfg)"
proof -
  let ?s = "TrimRightByte (CHR ''/'') (sx_ConnectURL sb)"
  have "TrimPrefix (?s @ CHR ''/'' # s') ''http'' = TrimPrefix ?s ''http'' @ CHR ''/'' # s'" for s'
    by (cases "prefix ''http'' ?s") (auto simp: TrimPrefix_past, auto simp: TrimPrefix_def HasPrefix_def prefix_def)
  then show ?thesis by (simp add: dial_ok_def pty_url_def data_url_def data_headers_def)
qed

text \<open>A client that is another one except for what its transport does with other requests and other upgrades.\<close>

definition agree ::
  "(call_request \<Rightarrow> bool) \<Rightarrow> (string \<Rightarrow> (string \<times> string) list \<Rightarrow> bool) \<Rightarrow> 'w http \<Rightarrow> 'w http \<Rightarrow> bool" where
  "agree P Q H H' \<longleftrightarrow> (\<exists>D U. H' = H\<lparr>ht_Do := D, ht_Dial := U\<rparr> \<and> (\<forall>rq. P rq \<longrightarrow> D rq = ht_Do H rq) \<and>
    (\<forall>u hdrs. Q u hdrs \<longrightarrow> U u hdrs = ht_Dial H u hdrs))"

lemma agree_control:
  assumes "agree (control_ok (ht_cfg H)) Q H H'"
  shows "control H' meth (api_path (ht_cfg H) parts) body dec zero = control H meth (api_path (ht_cfg H) parts) body dec zero"
  using assms control_request_ok [of "ht_cfg H" meth parts body] by (auto simp: agree_def control_def fun_eq_iff)

lemma agree_cfg: "agree P Q H H' \<Longrightarrow> ht_cfg H' = ht_cfg H \<and> ht_sandbox H' = ht_sandbox H \<and> ht_snapshot H' = ht_snapshot H \<and>
    ht_preview H' = ht_preview H \<and> ht_Clock H' = ht_Clock H \<and> ht_Sleep H' = ht_Sleep H \<and> ht_event H' = ht_event H \<and>
    ht_process H' = ht_process H"
  by (auto simp: agree_def)

lemma agree_Get:
  "agree (control_ok (ht_cfg H)) Q H H' \<Longrightarrow> http_Get H' i = http_Get H i"
  "agree (control_ok (ht_cfg H)) Q H H' \<Longrightarrow> http_GetSnapshot H' k = http_GetSnapshot H k"
  by (simp_all add: http_Get_def http_GetSnapshot_def agree_control agree_cfg fun_eq_iff)

lemma agree_wait:
  assumes "agree (control_ok (ht_cfg H)) Q H H'"
  shows "wait_ready_loop n H' i t d w = wait_ready_loop n H i t d w"
    and "wait_snapshot_loop n H' i t d w = wait_snapshot_loop n H i t d w"
  using assms
  by (induction n arbitrary: w) (simp_all add: agree_Get agree_cfg split: prod.split sum.split option.split)

text \<open>
  C26: Every call of the control plane sends its requests below the project's path of the API base, with the
  key as a bearer token, and opens no websocket; every call into a sandbox posts below the \<open>/v1/\<close> of its connect
  URL with the key in \<open>X-Api-Key\<close>, and the terminal is dialled below \<open>/v1/pty\<close> of that URL, with \<open>ws\<close> for \<open>http\<close> and
  the same key; neither header goes to the other side. A client whose transport differs on any other request or
  upgrade behaves the same.
\<close>

theorem http_requests_confined:
  assumes "agree (control_ok (ht_cfg H)) (\<lambda>_ _. False) H H1" and "agree (data_ok (ht_cfg H) sb) (dial_ok (ht_cfg H) sb) H H2"
  shows "http_Create H1 = http_Create H \<and> http_Get H1 = http_Get H \<and> http_Delete H1 = http_Delete H \<and>
    http_ExposePort H1 = http_ExposePort H \<and> http_Keepalive H1 = http_Keepalive H \<and> http_Pause H1 = http_Pause H \<and>
    http_CreateSnapshot H1 = http_CreateSnapshot H \<and> http_GetSnapshot H1 = http_GetSnapshot H \<and>
    http_WaitReady n H1 = http_WaitReady n H \<and> http_WaitSnapshot n H1 = http_WaitSnapshot n H \<and>
    http_Exec H2 sb = http_Exec H sb \<and> http_WriteFile H2 sb = http_WriteFile H sb \<and>
    http_StartProcess H2 sb = http_StartProcess H sb \<and> http_StreamLogs H2 sb = http_StreamLogs H sb \<and>
    http_DialPTY H2 sb = http_DialPTY H sb"
proof -
  note c = agree_control [OF assms(1)]
  note g = agree_cfg [OF assms(1)] agree_cfg [OF assms(2)]
  have d: "ht_Do H2 (data_request (ht_cfg H) sb route hdrs body) = ht_Do H (data_request (ht_cfg H) sb route hdrs body)"
    if "''Authorization'' \<notin> fst ` set hdrs" "prefix ''/v1/'' route" for route hdrs body
    using assms(2) data_request_ok [OF that, of "ht_cfg H" sb body] by (auto simp: agree_def)
  have u: "ht_Dial H2 (pty_url sb opts) (data_headers (ht_cfg H)) = ht_Dial H (pty_url sb opts) (data_headers (ht_cfg H))" for opts
    using assms(2) pty_url_ok [of "ht_cfg H" sb opts] by (auto simp: agree_def)
  have p: "prefix ''/v1/'' (''/v1/files/write?path='' @ q)" "prefix ''/v1/'' ''/v1/exec''" "prefix ''/v1/'' ''/v1/processes/start''"
    "prefix ''/v1/'' ''/v1/processes/logs''" for q by (simp_all add: prefix_def)
  show ?thesis
    by (simp add: p fun_eq_iff http_Create_def http_Delete_def http_Keepalive_def http_Pause_def plain_call_def http_ExposePort_def
        http_CreateSnapshot_def http_WaitReady_def http_WaitSnapshot_def http_Exec_def http_WriteFile_def http_StartProcess_def
        http_StreamLogs_def http_DialPTY_def u dataStream_def dataJSON_def json_headers_def stream_headers_def c g agree_Get [OF assms(1)] agree_wait [OF assms(1)] d
        split: prod.split sum.split)
qed

section \<open>Errors\<close>

text \<open>No transport and no decoder makes up the sentinel errors of this client.\<close>

definition forges :: "error \<Rightarrow> bool" where
  "forges e \<longleftrightarrow> errors_Is e ErrSandboxBusy \<or> errors_Is e ErrSandboxNotFound"

definition honest :: "'w http \<Rightarrow> bool" where
  "honest H \<longleftrightarrow> (\<forall>rq w e w'. ht_Do H rq w = (Inl e, w') \<longrightarrow> \<not> forges e) \<and>
    (\<forall>a e. ht_sandbox H a = Inl e \<longrightarrow> \<not> forges e) \<and> (\<forall>a e. ht_snapshot H a = Inl e \<longrightarrow> \<not> forges e)"

definition fails_with :: "'a result \<Rightarrow> error \<Rightarrow> bool" where
  "fails_with r target \<longleftrightarrow> (case r of Inl e \<Rightarrow> errors_Is e target | Inr _ \<Rightarrow> False)"

definition status_of :: "'w http \<Rightarrow> call_request \<Rightarrow> 'w \<Rightarrow> int" where
  "status_of H rq w = (case fst (ht_Do H rq w) of Inl _ \<Rightarrow> 0 | Inr a \<Rightarrow> ha_status a)"

text \<open>
  C27: The sentinel errors mean what the platform said. With a transport and decoders that do not forge
  them, \<open>Create\<close> fails with \<open>ErrBusy\<close> exactly on the statuses 429 and 503, \<open>Get\<close> and \<open>GetSnapshot\<close> fail with
  \<open>ErrNotFound\<close> exactly on 404 - no outage of the network makes a session look reclaimed - and \<open>Delete\<close>
  succeeds exactly on 200, 204 and 404, so that it can be repeated.
\<close>

theorem http_errors:
  assumes "honest H"
  shows "(let cfg = ht_cfg H; rq = control_request cfg ''POST'' (api_path cfg [''sandboxes'']) (CreateBody (create_body cfg spec))
      in fails_with (fst (http_Create H spec w)) ErrSandboxBusy \<longleftrightarrow> status_of H rq w \<in> {429, 503}) \<and>
    (let cfg = ht_cfg H; rq = control_request cfg ''GET'' (api_path cfg [''sandboxes'', i]) NoBody
      in fails_with (fst (http_Get H i w)) ErrSandboxNotFound \<longleftrightarrow> status_of H rq w = 404) \<and>
    (let cfg = ht_cfg H; rq = control_request cfg ''GET'' (api_path cfg [''snapshots'', i]) NoBody
      in fails_with (fst (http_GetSnapshot H i w)) ErrSandboxNotFound \<longleftrightarrow> status_of H rq w = 404) \<and>
    (let cfg = ht_cfg H; rq = control_request cfg ''DELETE'' (api_path cfg [''sandboxes'', i]) NoBody
      in fst (http_Delete H i w) = None \<longleftrightarrow> status_of H rq w \<in> {200, 204, 404})"
proof -
  have h: "ht_Do H rq w = (Inl e, w') \<Longrightarrow> \<not> errors_Is e ErrSandboxBusy \<and> \<not> errors_Is e ErrSandboxNotFound"
    "ht_sandbox H a = Inl e \<Longrightarrow> \<not> errors_Is e ErrSandboxBusy \<and> \<not> errors_Is e ErrSandboxNotFound"
    "ht_snapshot H a = Inl e \<Longrightarrow> \<not> errors_Is e ErrSandboxBusy \<and> \<not> errors_Is e ErrSandboxNotFound" for rq w e w' a
    using assms by (auto simp: honest_def forges_def)
  show ?thesis
    unfolding Let_def
    by (intro conjI)
      (auto simp: http_Create_def http_Get_def http_GetSnapshot_def http_Delete_def plain_call_def control_def status_of_def
        fails_with_def handled_status_def dest!: h split: prod.splits sum.splits option.splits if_splits)
qed

section \<open>Waiting\<close>

text \<open>Sending takes time, a clock reading lies between the times around it, a pause takes its time.\<close>

definition http_ticks :: "'w http \<Rightarrow> ('w \<Rightarrow> time) \<Rightarrow> bool" where
  "http_ticks H tm \<longleftrightarrow> (\<forall>rq w. tm w \<le> tm (snd (ht_Do H rq w))) \<and>
    (\<forall>w. tm w \<le> fst (ht_Clock H w) \<and> fst (ht_Clock H w) \<le> tm (snd (ht_Clock H w))) \<and>
    (\<forall>t w w'. ht_Sleep H t w = (None, w') \<longrightarrow> tm w + t \<le> tm w')"

lemma get_ticks:
  assumes "http_ticks H tm"
  shows "http_Get H i w = (r, w') \<Longrightarrow> tm w \<le> tm w'" and "http_GetSnapshot H k w = (r', w') \<Longrightarrow> tm w \<le> tm w'"
  using assms unfolding http_ticks_def
  by (auto simp: http_Get_def http_GetSnapshot_def control_def split: prod.splits sum.splits) (metis snd_conv)+

definition ready_box :: "sandbox \<Rightarrow> bool" where
  "ready_box sb \<longleftrightarrow> sx_Phase sb = PhaseReady \<and> sx_ConnectURL sb \<noteq> []"

lemma wait_ready_ends:
  assumes t: "http_ticks H tm" and "deadline < tm w + int n * Second"
  shows "\<exists>sb err w'. wait_ready_loop (Suc n) H i timeout deadline w = (Some (sb, err), w') \<and> (err \<noteq> None \<or> ready_box sb)"
  using assms(2)
proof (induction n arbitrary: w)
  case 0
  obtain r w1 where g: "http_Get H i w = (r, w1)" by fastforce
  obtain now w2 where c: "ht_Clock H w1 = (now, w2)" by fastforce
  have "now > deadline"
  proof -
    have "tm w1 \<le> now" using t c unfolding http_ticks_def by (metis fst_conv)
    then show ?thesis using 0 get_ticks(1) [OF t g] by simp
  qed
  then show ?case by (cases r) (auto simp: g c ready_box_def)
next
  case (Suc n)
  obtain r w1 where g: "http_Get H i w = (r, w1)" by fastforce
  obtain now w2 where c: "ht_Clock H w1 = (now, w2)" by fastforce
  obtain e w3 where s: "ht_Sleep H Second w2 = (e, w3)" by fastforce
  have "tm w1 \<le> tm w2" using t c unfolding http_ticks_def by (metis fst_conv order_trans snd_conv)
  moreover have "e = None \<Longrightarrow> tm w2 + Second \<le> tm w3" using t s unfolding http_ticks_def by blast
  ultimately have "e = None \<Longrightarrow> deadline < tm w3 + int n * Second"
    using Suc.prems get_ticks(1) [OF t g] by (simp add: algebra_simps)
  from Suc.IH [OF this] show ?case
    by (subst wait_ready_loop.simps) (cases r; cases e; auto simp: g c s ready_box_def simp del: wait_ready_loop.simps)
qed

lemma wait_snapshot_ends:
  assumes t: "http_ticks H tm" and "deadline < tm w + int n * (2 * Second)"
  shows "\<exists>sn err w'. wait_snapshot_loop (Suc n) H k timeout deadline w = (Some (sn, err), w') \<and> (err \<noteq> None \<or> sn_Status sn = SnapshotReady)"
  using assms(2)
proof (induction n arbitrary: w)
  case 0
  obtain r w1 where g: "http_GetSnapshot H k w = (r, w1)" by fastforce
  obtain now w2 where c: "ht_Clock H w1 = (now, w2)" by fastforce
  have "now > deadline"
  proof -
    have "tm w1 \<le> now" using t c unfolding http_ticks_def by (metis fst_conv)
    then show ?thesis using 0 get_ticks(2) [OF t g] by simp
  qed
  then show ?case by (cases r) (auto simp: g c)
next
  case (Suc n)
  obtain r w1 where g: "http_GetSnapshot H k w = (r, w1)" by fastforce
  obtain now w2 where c: "ht_Clock H w1 = (now, w2)" by fastforce
  obtain e w3 where s: "ht_Sleep H (2 * Second) w2 = (e, w3)" by fastforce
  have "tm w1 \<le> tm w2" using t c unfolding http_ticks_def by (metis fst_conv order_trans snd_conv)
  moreover have "e = None \<Longrightarrow> tm w2 + 2 * Second \<le> tm w3" using t s unfolding http_ticks_def by blast
  ultimately have "e = None \<Longrightarrow> deadline < tm w3 + int n * (2 * Second)"
    using Suc.prems get_ticks(2) [OF t g] by (simp add: algebra_simps)
  from Suc.IH [OF this] show ?case
    by (subst wait_snapshot_loop.simps) (cases r; cases e; auto simp: g c s simp del: wait_snapshot_loop.simps)
qed

lemma waits_settle:
  assumes "http_ticks H tm" and "timeout < int n * Second"
  shows "(\<exists>sb err. fst (http_WaitReady (Suc n) H i timeout w) = Some (sb, err) \<and> (err \<noteq> None \<or> ready_box sb)) \<and>
    (\<exists>sn err. fst (http_WaitSnapshot (Suc n) H k timeout w) = Some (sn, err) \<and> (err \<noteq> None \<or> sn_Status sn = SnapshotReady))"
proof -
  obtain now w1 where c: "ht_Clock H w = (now, w1)" by fastforce
  have "now \<le> tm w1" using assms(1) c unfolding http_ticks_def by (metis fst_conv snd_conv)
  then have d: "now + timeout < tm w1 + int n * Second" "now + timeout < tm w1 + int n * (2 * Second)"
    using assms(2) by (simp_all add: Second_def)
  from wait_ready_ends [OF assms(1) d(1), of i timeout] wait_snapshot_ends [OF assms(1) d(2), of k timeout] obtain sb err w2 sn err' w3
    where "wait_ready_loop (Suc n) H i timeout (now + timeout) w1 = (Some (sb, err), w2)" "err \<noteq> None \<or> ready_box sb"
      "wait_snapshot_loop (Suc n) H k timeout (now + timeout) w1 = (Some (sn, err'), w3)" "err' \<noteq> None \<or> sn_Status sn = SnapshotReady"
    by blast
  then show ?thesis
    by (simp add: http_WaitReady_def http_WaitSnapshot_def c del: wait_ready_loop.simps wait_snapshot_loop.simps)
qed

text \<open>
  C28: Waiting returns. When time does not go back and a pause takes its time, as many turns as seconds
  exceed the timeout, and one, are enough for both loops; without an error the sandbox is ready with a
  connect URL, and the snapshot is ready.
\<close>

theorem http_waits_return:
  assumes "http_ticks H tm" and "timeout < int n * Second"
  shows "(\<exists>sb err. fst (http_WaitReady (Suc n) H i timeout w) = Some (sb, err) \<and> (err \<noteq> None \<or> ready_box sb)) \<and>
    (\<exists>sn err. fst (http_WaitSnapshot (Suc n) H k timeout w) = Some (sn, err) \<and> (err \<noteq> None \<or> sn_Status sn = SnapshotReady))"
  by (rule waits_settle [OF assms])

section \<open>Output\<close>

text \<open>A frame as the platform writes it: one line that the decoder reads back.\<close>

definition frame_ok :: "(string \<Rightarrow> streamEvent result) \<Rightarrow> (streamEvent \<Rightarrow> string) \<Rightarrow> streamEvent \<Rightarrow> bool" where
  "frame_ok dec enc ev \<longleftrightarrow> dec (enc ev) = Inr ev \<and> CHR 0x0A \<notin> set (enc ev) \<and> TrimSpace (enc ev) = enc ev \<and>
    enc ev \<noteq> [] \<and> length (enc ev) < max_line \<and> se_Type ev \<noteq> ''error''"

definition frames :: "(streamEvent \<Rightarrow> string) \<Rightarrow> streamEvent list \<Rightarrow> string" where
  "frames enc evs = concat (map (\<lambda>ev. enc ev @ [CHR 0x0A]) evs)"

lemma scan_frames:
  assumes "list_all (frame_ok dec enc) evs"
  shows "scan_lines (frames enc evs) = map enc evs"
proof -
  have "SplitByte (CHR 0x0A) (frames enc evs) = map enc evs @ [[]]"
    using assms by (induction evs) (simp_all add: frames_def frame_ok_def SplitByte_app)
  then show ?thesis by (simp add: scan_lines_def)
qed

lemma read_frames_all:
  assumes "list_all (frame_ok dec enc) evs"
  shows "read_frames dec (map enc evs) e = (evs, e)"
  using assms by (induction evs) (auto simp: frame_ok_def)

definition exec_request :: "config \<Rightarrow> sandbox \<Rightarrow> execSpec \<Rightarrow> call_request" where
  "exec_request cfg sb sp = data_request cfg sb ''/v1/exec'' stream_headers (ExecBody (exec_body sp))"

text \<open>
  C29: The output of a command arrives whole: when the platform streams frames of output, in any mixture, and
  then the exit code, \<open>Exec\<close> writes every piece in the order of the frames, collects the two streams
  apart, and returns the exit code; when the stream breaks off, the pieces before it are still written, and
  the error is returned beside what had arrived, with the exit code -1.
\<close>

theorem Exec_output_whole:
  assumes "list_all (frame_ok (ht_event H) enc) (evs @ [ex])" and "list_all is_output evs"
    and "se_Type ex = ''exit''" and "se_ExitCode ex = Some c"
    and "ht_Do H (exec_request (ht_cfg H) sb sp) w = (Inr \<lparr>ha_status = 200, ha_body = frames enc (evs @ [ex]), ha_fail = None\<rparr>, w1)"
    and "ht_Do H (exec_request (ht_cfg H) sb sp) w' = (Inr \<lparr>ha_status = 200, ha_body = frames enc evs, ha_fail = Some e\<rparr>, w2)"
  shows "http_Exec H sb sp w =
      ((map se_Data evs, \<lparr>er_Stdout = data_of ''stdout'' evs, er_Stderr = data_of ''stderr'' evs, er_ExitCode = c\<rparr>, None), w1) \<and>
    http_Exec H sb sp w' =
      ((map se_Data evs, \<lparr>er_Stdout = data_of ''stdout'' evs, er_Stderr = data_of ''stderr'' evs, er_ExitCode = - 1\<rparr>, Some e), w2)"
proof -
  have f: "filter is_output (evs @ [ex]) = evs" "filter is_output evs = evs"
    using assms(2,3) by (auto simp: is_output_def list_all_iff filter_id_conv)
  have nx: "\<not> is_output ex" using assms(3) by (simp add: is_output_def)
  have x: "foldl exit_step z evs = z" for z
    using assms(2) by (induction evs arbitrary: z) (auto simp: exit_step_def is_output_def)
  have d: "data_of ''stdout'' (evs @ [ex]) = data_of ''stdout'' evs" "data_of ''stderr'' (evs @ [ex]) = data_of ''stderr'' evs"
    using assms(3) by (simp_all add: data_of_def)
  have r: "exec_result (evs @ [ex]) = \<lparr>er_Stdout = data_of ''stdout'' evs, er_Stderr = data_of ''stderr'' evs, er_ExitCode = c\<rparr>"
    using assms(3,4) by (simp add: exec_result_def x d exit_step_def)
  have r': "exec_result evs = \<lparr>er_Stdout = data_of ''stdout'' evs, er_Stderr = data_of ''stderr'' evs, er_ExitCode = - 1\<rparr>"
    by (simp add: exec_result_def x)
  have evs: "list_all (frame_ok (ht_event H) enc) evs" using assms(1) by simp
  show ?thesis
    using assms(5,6) unfolding exec_request_def
    by (simp add: http_Exec_def dataStream_def readStream_def scan_frames [OF assms(1)] read_frames_all [OF assms(1)]
        scan_frames [OF evs] read_frames_all [OF evs] f r r' nx del: map_append list_all_append)
qed

section \<open>The query of the terminal\<close>

text \<open>\<open>url.ParseQuery\<close> on the other side, for what is compared.\<close>

definition query_unescape :: "string \<Rightarrow> string option" where
  "query_unescape s = unescape (map (\<lambda>c. if c = CHR ''+'' then CHR '' '' else c) s)"

definition query_pairs :: "string \<Rightarrow> (string option \<times> string option) list" where
  "query_pairs s =
    map (\<lambda>p. case CutByte (CHR ''='') p of (k, v, _) \<Rightarrow> (query_unescape k, query_unescape v)) (SplitByte (CHR ''&'') s)"

lemma query_check:
  "\<not> query_unreserved (CHR ''%'')" "\<not> query_unreserved (CHR ''+'')" "\<not> query_unreserved (CHR ''&'')" "\<not> query_unreserved (CHR ''='')"
  "list_all (\<lambda>n. upper_hex n \<notin> set ''+&=%'') [0..<16]"
  by code_simp+

lemma query_hex: "n < 16 \<Longrightarrow> upper_hex n \<notin> set ''+&=%''"
  using query_check(5) by (simp only: list_all_iff set_upt) simp

lemma query_byte_marks: "CHR ''&'' \<notin> set (query_byte c) \<and> CHR ''='' \<notin> set (query_byte c)"
  using query_check query_hex [OF byte_halves(1) [of c]] query_hex [of "of_char c mod 16"]
  by (auto simp: query_byte_def Let_def)

lemma query_escape_marks: "CHR ''&'' \<notin> set (QueryEscape s)" "CHR ''='' \<notin> set (QueryEscape s)"
  using query_byte_marks by (auto simp: QueryEscape_def)

lemma unescape_query_byte:
  "unescape (map (\<lambda>c. if c = CHR ''+'' then CHR '' '' else c) (query_byte c) @ s) = map_option ((#) c) (unescape s)"
proof (cases "c = CHR '' '' \<or> query_unreserved c")
  case True
  then show ?thesis using query_check(1,2) by (auto simp: query_byte_def)
next
  case False
  let ?h = "upper_hex (of_char c div 16)" and ?l = "upper_hex (of_char c mod 16)"
  have "char_of ((of_char c :: nat) div 16 * 16 + of_char c mod 16) = c" unfolding byte_halves(2) by simp
  moreover have "?h \<noteq> CHR ''+''" "?l \<noteq> CHR ''+''"
    using query_hex [OF byte_halves(1) [of c]] query_hex [of "of_char c mod 16"] by auto
  ultimately show ?thesis using False byte_halves(1) [of c] upper_hex by (simp add: query_byte_def Let_def)
qed

lemma query_unescape_escape: "query_unescape (QueryEscape s) = Some s"
proof (induction s)
  case Nil
  then show ?case by (simp add: query_unescape_def QueryEscape_def)
next
  case (Cons c s)
  have "QueryEscape (c # s) = query_byte c @ QueryEscape s" by (simp add: QueryEscape_def)
  with Cons show ?case by (simp only: query_unescape_def map_append unescape_query_byte) simp
qed

text \<open>
  The terminal gets the arguments it is given: parsing the query of the terminal's URL gives back the
  program, every argument in order, and the size, whatever bytes they contain.
\<close>

theorem pty_query_roundtrip:
  assumes "pty_query opts \<noteq> []"
  shows "query_pairs (Values_Encode (pty_query opts)) = map (\<lambda>(k, v). (Some k, Some v)) (pty_query opts)"
proof -
  let ?enc = "\<lambda>(k, v). QueryEscape k @ ''='' @ QueryEscape v"
  have s: "SplitByte (CHR ''&'') (Join (map ?enc kvs) [CHR ''&'']) = map ?enc kvs" if "kvs \<noteq> []" for kvs
    using that query_escape_marks by (intro SplitByte_Join) (auto simp: list_all_iff)
  have p: "(case CutByte (CHR ''='') (?enc kv) of (k, v, _) \<Rightarrow> (query_unescape k, query_unescape v)) =
      (case kv of (k, v) \<Rightarrow> (Some k, Some v))" for kv
    using CutByte_app [OF query_escape_marks(2), of "fst kv" "QueryEscape (snd kv)"]
    by (cases kv) (simp add: query_unescape_escape)
  show ?thesis unfolding query_pairs_def Values_Encode_def s [OF assms] map_map comp_def by (simp only: p)
qed

theorem pty_query_roundtrip_witness:
  "query_pairs (Values_Encode (pty_query \<lparr>pt_Program = ''bash'', pt_Args = [''-c'', ''cd repo 2>/dev/null; exec bash -i''], pt_Cols = 80, pt_Rows = 0\<rparr>)) =
    [(Some ''arg'', Some ''-c''), (Some ''arg'', Some ''cd repo 2>/dev/null; exec bash -i''), (Some ''cols'', Some ''80''), (Some ''program'', Some ''bash'')]"
proof -
  let ?o = "\<lparr>pt_Program = ''bash'', pt_Args = [''-c'', ''cd repo 2>/dev/null; exec bash -i''], pt_Cols = 80, pt_Rows = 0\<rparr>"
  have q: "pty_query ?o = [(''arg'', ''-c''), (''arg'', ''cd repo 2>/dev/null; exec bash -i''), (''cols'', ''80''), (''program'', ''bash'')]"
    by code_simp
  then have "pty_query ?o \<noteq> []" by simp
  from pty_query_roundtrip [OF this] show ?thesis by (simp add: q)
qed

section \<open>A platform to try it on\<close>

text \<open>A world with a clock and the answers still to come; after the last one the network is down.\<close>

record script =
  sw_now :: time
  sw_answers :: "answer list"

definition script_http :: "script http" where
  "script_http =
    \<lparr>ht_cfg = \<lparr>cf_APIBase = ''https://api'', cf_APIKey = ''key'', cf_OrgID = ''o'', cf_ProjectID = ''p'', cf_Region = []\<rparr>,
     ht_Do = (\<lambda>rq w. case sw_answers w of [] \<Rightarrow> (Inl (Errorf ''connection refused''), w)
       | a # as \<Rightarrow> (Inr a, w\<lparr>sw_answers := as\<rparr>)),
     ht_Clock = (\<lambda>w. (sw_now w, w)), ht_Sleep = (\<lambda>t w. (None, w\<lparr>sw_now := sw_now w + t\<rparr>)),
     ht_Dial = (\<lambda>u h w. (Inr 0, w)),
     ht_sandbox = (\<lambda>a. Inr (no_sandbox\<lparr>sx_ID := ''sbx-1'', sx_Phase := ha_body a, sx_ConnectURL := ''https://c''\<rparr>)),
     ht_snapshot = (\<lambda>a. Inr (no_snapshot\<lparr>sn_Status := ha_body a\<rparr>)), ht_preview = (\<lambda>a. Inr (ha_body a)),
     ht_process = (\<lambda>a. Inr \<lparr>pr_ID = ''1'', pr_State = ha_body a\<rparr>),
     ht_event = (\<lambda>l. case l of
         CHR ''o'' # d \<Rightarrow> Inr \<lparr>se_Type = ''stdout'', se_Data = d, se_ExitCode = None, se_ReasonCode = [], se_Message = []\<rparr>
       | _ \<Rightarrow> Inr \<lparr>se_Type = ''exit'', se_Data = [], se_ExitCode = Some 3, se_ReasonCode = [], se_Message = []\<rparr>)\<rparr>"

lemma script_ticks: "http_ticks script_http sw_now"
  by (auto simp: http_ticks_def script_http_def split: list.split)

lemma script_honest: "honest script_http"
  by (auto simp: honest_def script_http_def forges_def split: list.splits)

definition busy_answer :: "int \<Rightarrow> string \<Rightarrow> answer" where
  "busy_answer st body = \<lparr>ha_status = st, ha_body = body, ha_fail = None\<rparr>"

theorem http_errors_witness:
  "fails_with (fst (http_Get script_http ''sbx-1'' \<lparr>sw_now = 0, sw_answers = [busy_answer 404 []]\<rparr>)) ErrSandboxNotFound \<and>
    \<not> fails_with (fst (http_Get script_http ''sbx-1'' \<lparr>sw_now = 0, sw_answers = []\<rparr>)) ErrSandboxNotFound"
  using http_errors [OF script_honest, of undefined "\<lparr>sw_now = 0, sw_answers = [busy_answer 404 []]\<rparr>" "''sbx-1''"]
    http_errors [OF script_honest, of undefined "\<lparr>sw_now = 0, sw_answers = []\<rparr>" "''sbx-1''"]
  by (simp add: Let_def status_of_def script_http_def busy_answer_def)

text \<open>A sandbox that never becomes ready: the wait of two minutes ends within 122 turns.\<close>

theorem http_waits_return_witness:
  "\<exists>sb err. fst (http_WaitReady 122 script_http ''sbx-1'' (2 * Minute) \<lparr>sw_now = 0, sw_answers = replicate 500 (busy_answer 200 ''Creating'')\<rparr>) =
    Some (sb, err)"
proof -
  have "2 * Minute < int 121 * Second" by (simp add: Minute_def Second_def)
  from http_waits_return [OF script_ticks this, of "''sbx-1''"] show ?thesis by (metis Suc_numeral semiring_norm(5) semiring_norm(2) semiring_norm(4) semiring_norm(8))
qed

text \<open>A transport that refuses everything the theorem does not allow.\<close>

definition guarded ::
  "(call_request \<Rightarrow> bool) \<Rightarrow> (string \<Rightarrow> (string \<times> string) list \<Rightarrow> bool) \<Rightarrow> 'w http \<Rightarrow> 'w http" where
  "guarded P Q H = H\<lparr>ht_Do := (\<lambda>rq w. if P rq then ht_Do H rq w else (Inl (Errorf ''refused''), w)),
    ht_Dial := (\<lambda>u hdrs w. if Q u hdrs then ht_Dial H u hdrs w else (Inl (Errorf ''refused''), w))\<rparr>"

lemma guarded_agree: "agree P Q H (guarded P Q H)"
  unfolding agree_def guarded_def by (rule exI)+ (auto simp: fun_eq_iff intro: refl)

definition script_box :: sandbox where
  "script_box = no_sandbox\<lparr>sx_ID := ''sbx-1'', sx_Phase := PhaseReady, sx_ConnectURL := ''https://c/''\<rparr>"

theorem http_requests_confined_witness:
  "fst (http_Delete (guarded (control_ok (ht_cfg script_http)) (\<lambda>_ _. False) script_http) ''sbx-1''
     \<lparr>sw_now = 0, sw_answers = [busy_answer 204 []]\<rparr>) = None \<and>
   http_DialPTY (guarded (data_ok (ht_cfg script_http) script_box) (dial_ok (ht_cfg script_http) script_box) script_http) script_box =
     http_DialPTY script_http script_box"
proof -
  note c = http_requests_confined [OF guarded_agree [of "control_ok (ht_cfg script_http)" "\<lambda>_ _. False" script_http]
      guarded_agree [of "data_ok (ht_cfg script_http) script_box" "dial_ok (ht_cfg script_http) script_box" script_http]]
  then have "http_Delete (guarded (control_ok (ht_cfg script_http)) (\<lambda>_ _. False) script_http) = http_Delete script_http" by blast
  moreover have "fst (http_Delete script_http ''sbx-1'' \<lparr>sw_now = 0, sw_answers = [busy_answer 204 []]\<rparr>) = None"
    by (simp add: http_Delete_def plain_call_def control_def script_http_def busy_answer_def handled_status_def)
  ultimately show ?thesis using c by simp
qed

definition script_out :: "string \<Rightarrow> streamEvent" where
  "script_out d = \<lparr>se_Type = ''stdout'', se_Data = d, se_ExitCode = None, se_ReasonCode = [], se_Message = []\<rparr>"

definition script_exit :: streamEvent where
  "script_exit = \<lparr>se_Type = ''exit'', se_Data = [], se_ExitCode = Some 3, se_ReasonCode = [], se_Message = []\<rparr>"

definition script_enc :: "streamEvent \<Rightarrow> string" where
  "script_enc ev = (if se_Type ev = ''stdout'' then CHR ''o'' # se_Data ev else ''x'')"

theorem Exec_output_whole_witness:
  "fst (http_Exec script_http script_box (plain_spec ''ls'' [] 0)
      \<lparr>sw_now = 0, sw_answers = [\<lparr>ha_status = 200, ha_body = frames script_enc [script_out ''ab'', script_out ''c'', script_exit], ha_fail = None\<rparr>]\<rparr>) =
    ([''ab'', ''c''], \<lparr>er_Stdout = ''abc'', er_Stderr = [], er_ExitCode = 3\<rparr>, None)"
proof -
  let ?evs = "[script_out ''ab'', script_out ''c'']"
  let ?w = "\<lambda>evs e. \<lparr>sw_now = 0, sw_answers = [\<lparr>ha_status = 200, ha_body = frames script_enc evs, ha_fail = e\<rparr>]\<rparr>"
  have t: "TrimSpace ''oab'' = ''oab''" "TrimSpace ''oc'' = ''oc''" "TrimSpace ''x'' = ''x''" by code_simp+
  have ok: "list_all (frame_ok (ht_event script_http) script_enc) (?evs @ [script_exit])"
    by (simp add: frame_ok_def script_http_def script_enc_def script_out_def script_exit_def t max_line_def)
  have out: "list_all is_output ?evs" by (simp add: is_output_def script_out_def)
  have ex: "se_Type script_exit = ''exit''" "se_ExitCode script_exit = Some 3" by (simp_all add: script_exit_def)
  have d: "ht_Do script_http rq (?w evs e) =
      (Inr \<lparr>ha_status = 200, ha_body = frames script_enc evs, ha_fail = e\<rparr>, \<lparr>sw_now = 0, sw_answers = []\<rparr>)" for rq evs e
    by (simp add: script_http_def)
  from Exec_output_whole [OF ok out ex d d [of _ ?evs "Some (Errorf ''reset'')"], of script_box "plain_spec ''ls'' [] 0"]
  show ?thesis by (simp add: data_of_def script_out_def)
qed

end
