(* ===== verification/Json_Text.thy ===== *)
theory Json_Text
  imports Go_Conv
begin

text \<open>
  \<open>encoding/json\<close>, as far as the handlers use it: values, and the text that \<open>json.Marshal\<close> writes for
  them. A string is escaped byte by byte where it is ASCII; other bytes are copied rune by rune, with
  invalid ones replaced and the two line separators escaped.
\<close>

datatype json =
    JString string | JInt int | JBool bool | JNull | JArray "json list" | JObject "(string \<times> json) list"

section \<open>Runes\<close>

definition byte_in :: "char \<Rightarrow> nat \<Rightarrow> nat \<Rightarrow> bool" where
  "byte_in c lo hi \<longleftrightarrow> lo \<le> of_char c \<and> of_char c \<le> hi"

definition cont :: "char \<Rightarrow> bool" where
  "cont c \<longleftrightarrow> byte_in c 0x80 0xBF"

definition lead2 :: "char \<Rightarrow> bool" where
  "lead2 a \<longleftrightarrow> byte_in a 0xC2 0xDF"

definition lead3 :: "char \<Rightarrow> char \<Rightarrow> bool" where
  "lead3 a b \<longleftrightarrow>
    byte_in a 0xE0 0xE0 \<and> byte_in b 0xA0 0xBF \<or> byte_in a 0xE1 0xEC \<and> cont b \<or>
    byte_in a 0xED 0xED \<and> byte_in b 0x80 0x9F \<or> byte_in a 0xEE 0xEF \<and> cont b"

definition lead4 :: "char \<Rightarrow> char \<Rightarrow> bool" where
  "lead4 a b \<longleftrightarrow>
    byte_in a 0xF0 0xF0 \<and> byte_in b 0x90 0xBF \<or> byte_in a 0xF1 0xF3 \<and> cont b \<or> byte_in a 0xF4 0xF4 \<and> byte_in b 0x80 0x8F"

text \<open>The length of the multi-byte rune at the front, 0 when the bytes are not valid UTF-8.\<close>

definition utf8_len :: "string \<Rightarrow> nat" where
  "utf8_len s =
    (case s of
       a # b # rest \<Rightarrow>
         if lead2 a \<and> cont b then 2
         else
           (case rest of
              c # rest' \<Rightarrow>
                if lead3 a b \<and> cont c then 3
                else (case rest' of d # _ \<Rightarrow> if lead4 a b \<and> cont c \<and> cont d then 4 else 0 | [] \<Rightarrow> 0)
            | [] \<Rightarrow> 0)
     | _ \<Rightarrow> 0)"

definition json_byte :: "char \<Rightarrow> string" where
  "json_byte c =
    (if c = CHR 0x22 then [CHR 0x5C, CHR 0x22]
     else if c = CHR 0x5C then [CHR 0x5C, CHR 0x5C]
     else if c = CHR 0x08 then [CHR 0x5C, CHR ''b'']
     else if c = CHR 0x0C then [CHR 0x5C, CHR ''f'']
     else if c = CHR 0x0A then [CHR 0x5C, CHR ''n'']
     else if c = CHR 0x0D then [CHR 0x5C, CHR ''r'']
     else if c = CHR 0x09 then [CHR 0x5C, CHR ''t'']
     else if of_char c < (0x20 :: nat) \<or> c \<in> set ''<>&'' then CHR 0x5C # ''u00'' @ hex_byte c
     else [c])"

definition line_separators :: "string list" where
  "line_separators = [[CHR 0xE2, CHR 0x80, CHR 0xA8], [CHR 0xE2, CHR 0x80, CHR 0xA9]]"

function json_chars :: "string \<Rightarrow> string" where
  "json_chars [] = []"
| "json_chars (c # s) =
    (if of_char c < (0x80 :: nat) then json_byte c @ json_chars s
     else let n = utf8_len (c # s)
          in if n = 0 then CHR 0x5C # ''ufffd'' @ json_chars s
             else let r = take n (c # s)
                  in (if r = line_separators ! 0 then CHR 0x5C # ''u2028''
                      else if r = line_separators ! 1 then CHR 0x5C # ''u2029'' else r) @ json_chars (drop (n - 1) s))"
  by pat_completeness auto
termination by (relation "measure length") auto

definition json_string :: "string \<Rightarrow> string" where
  "json_string s = [CHR 0x22] @ json_chars s @ [CHR 0x22]"

fun json_text :: "json \<Rightarrow> string" and json_fields :: "(string \<times> json) list \<Rightarrow> string list" and json_items :: "json list \<Rightarrow> string list" where
  "json_text (JString s) = json_string s"
| "json_text (JInt n) = Itoa n"
| "json_text (JBool b) = (if b then ''true'' else ''false'')"
| "json_text JNull = ''null''"
| "json_text (JArray js) = ''['' @ Join (json_items js) '','' @ '']''"
| "json_text (JObject kvs) = ''{'' @ Join (json_fields kvs) '','' @ ''}''"
| "json_fields [] = []"
| "json_fields ((k, v) # kvs) = (json_string k @ '':'' @ json_text v) # json_fields kvs"
| "json_items [] = []"
| "json_items (j # js) = json_text j # json_items js"

section \<open>One line\<close>

text \<open>No text that \<open>json.Marshal\<close> writes contains a line break.\<close>

definition breaks :: string where
  "breaks = [CHR 0x0A, CHR 0x0D]"

lemma hex_byte_unbroken: "set (hex_byte c) \<inter> set breaks = {}"
proof -
  have d: "list_all (\<lambda>n. ''0123456789abcdef'' ! n \<notin> set breaks) [0..<16]" by code_simp
  have "(of_char c :: nat) div 16 < 16" by (rule less_mult_imp_div_less) simp
  moreover have "(of_char c :: nat) mod 16 < 16" by simp
  ultimately show ?thesis using d unfolding hex_byte_def Let_def list_all_iff by auto
qed

lemma json_byte_unbroken: "set (json_byte c) \<inter> set breaks = {}"
  using hex_byte_unbroken [of c] by (auto simp: json_byte_def breaks_def)

definition high :: "char \<Rightarrow> bool" where
  "high c \<longleftrightarrow> \<not> of_char c < (0x80 :: nat)"

lemma byte_in_high: "byte_in c lo hi \<Longrightarrow> 0x80 \<le> lo \<Longrightarrow> high c"
  by (simp add: byte_in_def high_def)

lemma lead_high:
  "cont c \<Longrightarrow> high c" "lead2 a \<Longrightarrow> high a" "lead3 a b \<Longrightarrow> high a \<and> high b" "lead4 a b \<Longrightarrow> high a \<and> high b"
  by (auto simp: cont_def lead2_def lead3_def lead4_def dest: byte_in_high)

lemma utf8_len_high: "utf8_len s \<noteq> 0 \<Longrightarrow> x \<in> set (take (utf8_len s) s) \<Longrightarrow> high x"
  unfolding utf8_len_def
  by (auto simp: numeral_eq_Suc split: list.splits if_splits dest: lead_high)

lemma breaks_low: "c \<in> set breaks \<Longrightarrow> \<not> high c"
  by (auto simp: breaks_def high_def)

lemma json_chars_unbroken: "set (json_chars s) \<inter> set breaks = {}"
proof (induction s rule: json_chars.induct)
  case 1
  then show ?case by simp
next
  case (2 c s)
  let ?n = "utf8_len (c # s)"
  show ?case
  proof (cases "of_char c < (0x80 :: nat)")
    case True
    with 2(1) json_byte_unbroken [of c] show ?thesis by (auto simp: Int_Un_distrib2)
  next
    case high: False
    show ?thesis
    proof (cases "?n = 0")
      case True
      with 2(2) high show ?thesis by (auto simp: Let_def breaks_def)
    next
      case False
      have "set (take ?n (c # s)) \<inter> set breaks = {}" using utf8_len_high [OF False] breaks_low by blast
      with 2(3) high False show ?thesis by (auto simp: Let_def breaks_def)
    qed
  qed
qed

lemma json_string_unbroken: "set (json_string s) \<inter> set breaks = {}"
  using json_chars_unbroken [of s] by (auto simp: json_string_def breaks_def)

lemma Itoa_unbroken: "set (Itoa n) \<inter> set breaks = {}"
proof -
  have "set digits \<inter> set breaks = {}" by (simp add: digits_def breaks_def)
  moreover have "set (Itoa n) \<subseteq> insert (CHR ''-'') (set digits)"
    using set_Itoa [of n] set_Itoa [of "- n"] by (cases "n < 0") (auto simp: Itoa_def)
  ultimately show ?thesis by (auto simp: breaks_def)
qed

lemma Join_unbroken: "\<forall>w \<in> set ws. set w \<inter> B = {} \<Longrightarrow> set sep \<inter> B = {} \<Longrightarrow> set (Join ws sep) \<inter> B = {}"
  by (induction ws sep rule: Join.induct) auto

lemma json_text_unbroken:
  "set (json_text j) \<inter> set breaks = {}"
  "\<forall>w \<in> set (json_fields kvs). set w \<inter> set breaks = {}"
  "\<forall>w \<in> set (json_items js). set w \<inter> set breaks = {}"
proof (induction j and kvs and js rule: json_text_json_fields_json_items.induct)
  case (5 js)
  then show ?case using Join_unbroken [of "json_items js" "set breaks" "'',''"] by (auto simp: breaks_def)
next
  case (6 kvs)
  then show ?case using Join_unbroken [of "json_fields kvs" "set breaks" "'',''"] by (auto simp: breaks_def)
next
  case (8 k v kvs)
  then show ?case using json_string_unbroken [of k] by (auto simp: breaks_def)
qed (use json_string_unbroken Itoa_unbroken in \<open>auto simp: breaks_def\<close>)

end
