(* ===== verification/Http_Api.thy ===== *)
theory Http_Api
  imports Session Json_Text
begin

text \<open>
  \<open>internal/httpapi\<close>: the handlers over the session manager, the errors of the API, server-sent events, the
  badge, the files of the web app, and the relay between a browser and a terminal. A request is what
  \<open>net/http\<close> hands to the router; decoding its body, formatting times, the media types of the host and the
  websocket handshake are parameters. The counters of the metrics are numbers in the state.
\<close>

section \<open>Requests and responses\<close>

text \<open>\<open>hr_segs\<close>: the segments of the path, unescaped; \<open>hr_header\<close> and \<open>hr_query\<close> give an empty string for none.\<close>

record http_req =
  hr_method :: string
  hr_path :: string
  hr_segs :: "string list"
  hr_header :: "string \<Rightarrow> string"
  hr_query :: "string \<Rightarrow> string"
  hr_remote :: string
  hr_body :: string
  hr_body_err :: bool

datatype response_body = TextBody string | JsonBody json | EventBody sstream | RelayBody nat

record response =
  re_status :: int
  re_headers :: "(string \<times> string) list"
  re_body :: response_body

record 'w server =
  sv_Sessions :: "'w manager"
  sv_Store :: "'w store"
  sv_Static :: "(string \<Rightarrow> string option) option"
  sv_repo :: "string \<Rightarrow> string result"
  sv_time :: "time \<Rightarrow> string"
  sv_mime :: "string \<Rightarrow> string"
  sv_accept :: "http_req \<Rightarrow> bool"

record 'w sstate =
  ss_sessions :: "'w mstate"
  ss_created :: nat
  ss_refused :: nat
  ss_extends :: nat
  ss_ptys :: nat
  ss_closed :: "nat list"

definition writeJSON :: "int \<Rightarrow> json \<Rightarrow> response" where
  "writeJSON status v = \<lparr>re_status = status, re_headers = [(''Content-Type'', ''application/json'')], re_body = JsonBody v\<rparr>"

definition NotFound :: response where
  "NotFound = \<lparr>re_status = 404, re_headers = [(''Content-Type'', ''text/plain; charset=utf-8''), (''X-Content-Type-Options'', ''nosniff'')],
    re_body = TextBody (''404 page not found'' @ [CHR 0x0A])\<rparr>"

section \<open>Errors\<close>

record apiError =
  ae_Code :: string
  ae_Message :: string
  ae_RetryAfter :: int

definition api_error :: "error \<Rightarrow> int \<times> apiError" where
  "api_error err =
    (if errors_Is err ErrInvalidRef
     then (400, \<lparr>ae_Code = ''invalid'', ae_Message = ''that is not a GitHub repository'', ae_RetryAfter = 0\<rparr>)
     else if errors_Is err ErrRepoNotFound \<or> errors_Is err ErrStoreNotFound \<or> errors_Is err ErrSandboxNotFound
     then (404, \<lparr>ae_Code = ''not_found'', ae_Message = ''not found'', ae_RetryAfter = 0\<rparr>)
     else if errors_Is err ErrPrivate
     then (422, \<lparr>ae_Code = ''unsupported'', ae_Message = ''private repositories are not supported'', ae_RetryAfter = 0\<rparr>)
     else if errors_Is err ErrTooLarge
     then (422, \<lparr>ae_Code = ''unsupported'', ae_Message = ''repository is too large to try live'', ae_RetryAfter = 0\<rparr>)
     else if errors_Is err ErrRateLimit
     then (503, \<lparr>ae_Code = ''busy'', ae_Message = ''GitHub rate limit reached, try again shortly'', ae_RetryAfter = 60\<rparr>)
     else if errors_Is err ErrLimited
     then (429, \<lparr>ae_Code = ''rate_limited'',
       ae_Message = ''you already have a live session; it ends when you close it or after 15 minutes'', ae_RetryAfter = 60\<rparr>)
     else if errors_Is err ErrSessionBusy \<or> errors_Is err ErrSandboxBusy
     then (503, \<lparr>ae_Code = ''busy'', ae_Message = ''every sandbox is in use right now'', ae_RetryAfter = 5\<rparr>)
     else if errors_Is err ErrNotLive
     then (409, \<lparr>ae_Code = ''invalid'', ae_Message = ''session is not live'', ae_RetryAfter = 0\<rparr>)
     else if errors_Is err ErrAlreadyExtnd
     then (400, \<lparr>ae_Code = ''invalid'', ae_Message = ''session was already extended'', ae_RetryAfter = 0\<rparr>)
     else (500, \<lparr>ae_Code = ''internal'', ae_Message = ''something went wrong'', ae_RetryAfter = 0\<rparr>))"

definition apiError_json :: "apiError \<Rightarrow> json" where
  "apiError_json ae =
    JObject ([(''code'', JString (ae_Code ae)), (''message'', JString (ae_Message ae))] @
      (if ae_RetryAfter ae \<noteq> 0 then [(''retry_after_seconds'', JInt (ae_RetryAfter ae))] else []))"

definition writeError :: "error \<Rightarrow> response" where
  "writeError err =
    (case api_error err of
       (status, ae) \<Rightarrow>
         let r = writeJSON status (JObject [(''error'', apiError_json ae)])
         in r\<lparr>re_headers := (if ae_RetryAfter ae > 0 then [(''Retry-After'', Itoa (ae_RetryAfter ae))] else []) @ re_headers r\<rparr>)"

section \<open>Who calls\<close>

definition device_byte :: "char \<Rightarrow> bool" where
  "device_byte c \<longleftrightarrow> is_alnum c \<or> c = CHR ''-''"

definition deviceID :: "http_req \<Rightarrow> string" where
  "deviceID r =
    (let d = hr_header r ''X-Device-Id''
     in if 8 \<le> length d \<and> length d \<le> 64 \<and> list_all device_byte d then d else ''anon'')"

text \<open>\<open>net.SplitHostPort\<close>: the host, or none for its errors.\<close>

definition SplitHost :: "string \<Rightarrow> string option" where
  "SplitHost hp =
    (case LastIndexByte (CHR '':'') hp of
       None \<Rightarrow> None
     | Some i \<Rightarrow>
         if hp ! 0 = CHR ''[''
         then (case Index hp '']'' of
                 None \<Rightarrow> None
               | Some e \<Rightarrow>
                   if e + 1 \<noteq> i then None
                   else if Contains (drop 1 hp) ''['' \<or> Contains (drop (e + 1) hp) '']'' then None
                   else Some (take (e - 1) (drop 1 hp)))
         else (let host = take i hp
               in if Contains host '':'' \<or> Contains hp ''['' \<or> Contains hp '']'' then None else Some host))"

definition clientIP :: "http_req \<Rightarrow> string" where
  "clientIP r =
    (let xff = hr_header r ''X-Forwarded-For''
     in if xff \<noteq> [] then TrimSpace (hd (SplitByte (CHR '','') xff))
        else (case SplitHost (hr_remote r) of None \<Rightarrow> hr_remote r | Some host \<Rightarrow> host))"

section \<open>Wire shapes\<close>

definition unless_empty :: "string \<Rightarrow> string \<Rightarrow> (string \<times> json) list" where
  "unless_empty k s = (if s = [] then [] else [(k, JString s)])"

definition json_time :: "(time \<Rightarrow> string) \<Rightarrow> string \<Rightarrow> time option \<Rightarrow> (string \<times> json) list" where
  "json_time fmt k t = (case t of None \<Rightarrow> [] | Some t \<Rightarrow> [(k, JString (fmt t))])"

text \<open>The structs that are encoded, with the tags of their fields in the functions \<open>_json\<close>.\<close>

record recipeJSON =
  rj_Kind :: string
  rj_Cwd :: string
  rj_Install :: "string list"
  rj_Start :: string
  rj_Port :: int
  rj_Env :: "(string, string) gomap"
  rj_Detector :: string

record buildJSON =
  bj_ID :: string
  bj_Owner :: string
  bj_Repo :: string
  bj_SHA :: string
  bj_Status :: string
  bj_Kind :: string
  bj_Recipe :: "recipeJSON option"
  bj_Error :: string
  bj_BuiltAt :: "time option"
  bj_Visits :: int

record sessionJSON =
  sj_ID :: string
  sj_Status :: string
  sj_Build :: buildJSON
  sj_PreviewURL :: string
  sj_TerminalReady :: bool
  sj_ExpiresAt :: "time option"
  sj_Extended :: bool
  sj_EndedReason :: string

definition recipe_json :: "recipeJSON \<Rightarrow> json" where
  "recipe_json r =
    JObject [(''kind'', JString (rj_Kind r)), (''cwd'', JString (rj_Cwd r)), (''install'', JArray (map JString (rj_Install r))),
      (''start'', JString (rj_Start r)), (''port'', JInt (rj_Port r)),
      (''env'', JObject (map (\<lambda>k. (k, JString (the (map_of (rj_Env r) k)))) (sort_key id (map fst (rj_Env r))))),
      (''detector'', JString (rj_Detector r))]"

definition build_json :: "(time \<Rightarrow> string) \<Rightarrow> buildJSON \<Rightarrow> json" where
  "build_json fmt b =
    JObject ([(''id'', JString (bj_ID b)), (''owner'', JString (bj_Owner b)), (''repo'', JString (bj_Repo b)),
        (''sha'', JString (bj_SHA b)), (''status'', JString (bj_Status b))] @
      unless_empty ''kind'' (bj_Kind b) @
      (case bj_Recipe b of None \<Rightarrow> [] | Some r \<Rightarrow> [(''recipe'', recipe_json r)]) @
      unless_empty ''error'' (bj_Error b) @ json_time fmt ''built_at'' (bj_BuiltAt b) @ [(''visits'', JInt (bj_Visits b))])"

definition session_json :: "(time \<Rightarrow> string) \<Rightarrow> sessionJSON \<Rightarrow> json" where
  "session_json fmt s =
    JObject ([(''id'', JString (sj_ID s)), (''status'', JString (sj_Status s)), (''build'', build_json fmt (sj_Build s))] @
      unless_empty ''preview_url'' (sj_PreviewURL s) @ [(''terminal_ready'', JBool (sj_TerminalReady s))] @
      json_time fmt ''expires_at'' (sj_ExpiresAt s) @ [(''extended'', JBool (sj_Extended s))] @
      unless_empty ''ended_reason'' (sj_EndedReason s))"

text \<open>A missing list or map is written as an empty one: the model has no other.\<close>

definition toRecipe :: "recipe \<Rightarrow> recipeJSON" where
  "toRecipe r =
    \<lparr>rj_Kind = r_kind r, rj_Cwd = r_cwd r, rj_Install = r_install r, rj_Start = r_start r, rj_Port = r_port r, rj_Env = r_env r,
     rj_Detector = r_detector r\<rparr>"

definition toBuild :: "build \<Rightarrow> buildJSON" where
  "toBuild b =
    \<lparr>bj_ID = b_ID b, bj_Owner = b_Owner b, bj_Repo = b_Repo b, bj_SHA = b_SHA b, bj_Status = b_Status b, bj_Kind = b_Kind b,
     bj_Recipe = map_option toRecipe (b_Recipe b), bj_Error = b_Error b, bj_BuiltAt = b_BuiltAt b, bj_Visits = b_Visits b\<rparr>"

definition toSession :: "session \<Rightarrow> build \<Rightarrow> sessionJSON" where
  "toSession s b =
    \<lparr>sj_ID = s_ID s, sj_Status = s_Status s, sj_Build = toBuild b, sj_PreviewURL = s_PreviewURL s,
     sj_TerminalReady = s_TerminalReady s, sj_ExpiresAt = s_ExpiresAt s, sj_Extended = s_Extended s,
     sj_EndedReason = s_EndedReason s\<rparr>"

section \<open>Events\<close>

fun event_json :: "(time \<Rightarrow> string) \<Rightarrow> sevent \<Rightarrow> json" where
  "event_json fmt (LogData ts ph l) = JObject [(''line'', JString l), (''phase'', JString ph), (''ts'', JString (fmt ts))]"
| "event_json fmt (PhaseData b s m) =
    JObject [(''build_status'', JString b), (''message'', JString m), (''session_status'', JString s)]"
| "event_json fmt (PreviewData u p) = JObject [(''port'', JInt p), (''url'', JString u)]"
| "event_json fmt (TerminalData r) = JObject [(''ready'', JBool r)]"
| "event_json fmt (TTLData e x) = JObject [(''expires_at'', JString (fmt e)), (''extended'', JBool x)]"
| "event_json fmt (EndedData r) = JObject [(''reason'', JString r)]"
| "event_json fmt (ErrorData c m) = JObject [(''code'', JString c), (''message'', JString m)]"

definition nl2 :: string where
  "nl2 = [CHR 0x0A, CHR 0x0A]"

definition writeSSE :: "(time \<Rightarrow> string) \<Rightarrow> sevent \<Rightarrow> string" where
  "writeSSE fmt ev = ''event: '' @ event_name ev @ [CHR 0x0A] @ ''data: '' @ json_text (event_json fmt ev) @ nl2"

text \<open>The body of a stream: what the \<open>select\<close> received in turn, an event or a beat of the ticker.\<close>

definition write_turn :: "(time \<Rightarrow> string) \<Rightarrow> sevent option \<Rightarrow> string" where
  "write_turn fmt t = (case t of Some ev \<Rightarrow> writeSSE fmt ev | None \<Rightarrow> '': ping'' @ nl2)"

definition sse_body :: "(time \<Rightarrow> string) \<Rightarrow> sevent option list \<Rightarrow> string" where
  "sse_body fmt turns = concat (map (write_turn fmt) turns)"

section \<open>Handlers\<close>

definition with_sessions :: "('w mstate, 'e, 'a) action \<Rightarrow> 'w sstate \<Rightarrow> ('e + 'a) \<times> 'w sstate" where
  "with_sessions f st = (case f (ss_sessions st) of (r, m) \<Rightarrow> (r, st\<lparr>ss_sessions := m\<rparr>))"

definition handleCreate :: "'w server \<Rightarrow> http_req \<Rightarrow> 'w sstate \<Rightarrow> response \<times> 'w sstate" where
  "handleCreate S r st =
    (case (if hr_body_err r then Inl ErrInvalidRef else sv_repo S (take 4096 (hr_body r))) of
       Inl _ \<Rightarrow> (writeError ErrInvalidRef, st)
     | Inr repo \<Rightarrow>
         if TrimSpace repo = [] then (writeError ErrInvalidRef, st)
         else
           (case with_sessions (Manager_Create (sv_Sessions S) (deviceID r) (clientIP r) repo) st of
              (Inl e, st') \<Rightarrow> (writeError e, st'\<lparr>ss_refused := Suc (ss_refused st')\<rparr>)
            | (Inr (s, b), st') \<Rightarrow>
                (writeJSON 201 (session_json (sv_time S) (toSession s b)), st'\<lparr>ss_created := Suc (ss_created st')\<rparr>)))"

definition handleGet :: "'w server \<Rightarrow> string \<Rightarrow> 'w sstate \<Rightarrow> response \<times> 'w sstate" where
  "handleGet S k st =
    (case with_sessions (Manager_Get (sv_Sessions S) k) st of
       (Inl (_, e), st') \<Rightarrow> (writeError e, st')
     | (Inr (s, b), st') \<Rightarrow> (writeJSON 200 (session_json (sv_time S) (toSession s b)), st'))"

definition handleExtend :: "'w server \<Rightarrow> string \<Rightarrow> 'w sstate \<Rightarrow> response \<times> 'w sstate" where
  "handleExtend S k st =
    (case with_sessions (Extend (sv_Sessions S) k) st of
       (Inl (_, e), st') \<Rightarrow> (writeError e, st')
     | (Inr s, st') \<Rightarrow>
         (writeJSON 200 (JObject [(''expires_at'', case s_ExpiresAt s of None \<Rightarrow> JNull | Some t \<Rightarrow> JString (sv_time S t)),
            (''extended'', JBool True)]), st'\<lparr>ss_extends := Suc (ss_extends st')\<rparr>))"

definition handleBuild :: "'w server \<Rightarrow> string \<Rightarrow> string \<Rightarrow> 'w sstate \<Rightarrow> response \<times> 'w sstate" where
  "handleBuild S ow rp st =
    (case with_sessions (on_world (so_LatestBuild (sv_Store S) ow rp) :: ('w mstate, error, build result) action) st of
       (Inr (Inr b), st') \<Rightarrow> (writeJSON 200 (build_json (sv_time S) (toBuild b)), st')
     | (Inr (Inl e), st') \<Rightarrow> (writeError e, st')
     | (Inl e, st') \<Rightarrow> (writeError e, st'))"

definition handleEvents :: "'w server \<Rightarrow> string \<Rightarrow> 'w sstate \<Rightarrow> response \<times> 'w sstate" where
  "handleEvents S k st =
    (case with_sessions (Manager_Subscribe (sv_Sessions S) k) st of
       (Inl e, st') \<Rightarrow> (writeError e, st')
     | (Inr stream, st') \<Rightarrow>
         (\<lparr>re_status = 200, re_headers = [(''Content-Type'', ''text/event-stream''), (''Cache-Control'', ''no-cache''),
            (''X-Accel-Buffering'', ''no'')], re_body = EventBody stream\<rparr>, st'))"

text \<open>
  The number that \<open>strconv.Atoi\<close> returns when its error is ignored: 0 for what is no number, the nearest
  64-bit integer for what is out of range, where the scan stops.
\<close>

fun scan_number :: "int \<Rightarrow> string \<Rightarrow> int" where
  "scan_number acc [] = acc"
| "scan_number acc (c # s) =
    (if c \<notin> set digits then 0
     else (let n = acc * 10 + of_char c - 48 in if n \<ge> 2 ^ 64 then 2 ^ 64 else scan_number n s))"

definition Atoi_ignored :: "string \<Rightarrow> int" where
  "Atoi_ignored s =
    (if HasPrefix s ''-'' then - min (scan_number 0 (tl s)) (2 ^ 63)
     else min (scan_number 0 (if HasPrefix s ''+'' then tl s else s)) (2 ^ 63 - 1))"

text \<open>
  A refused handshake has already been answered by the websocket library, and the handler closes the terminal that
  it has opened; 400 stands for that answer.
\<close>

definition handlePTY :: "'w server \<Rightarrow> http_req \<Rightarrow> string \<Rightarrow> 'w sstate \<Rightarrow> response \<times> 'w sstate" where
  "handlePTY S r k st =
    (case with_sessions (Manager_PTY (sv_Sessions S) k (Atoi_ignored (hr_query r ''cols'')) (Atoi_ignored (hr_query r ''rows''))) st of
       (Inl e, st') \<Rightarrow> (writeError e, st')
     | (Inr c, st') \<Rightarrow>
         if sv_accept S r
         then (\<lparr>re_status = 101, re_headers = [], re_body = RelayBody c\<rparr>, st'\<lparr>ss_ptys := Suc (ss_ptys st')\<rparr>)
         else (\<lparr>re_status = 400, re_headers = [], re_body = TextBody []\<rparr>, st'\<lparr>ss_closed := ss_closed st' @ [c]\<rparr>))"

section \<open>Badge and web app\<close>

definition quoted :: "string \<Rightarrow> string" where
  "quoted s = map (\<lambda>c. if c = CHR ''`'' then CHR 0x22 else c) s"

definition badgeSVG :: string where
  "badgeSVG = quoted (Join
    [''<svg xmlns=`http://www.w3.org/2000/svg` width=`94` height=`20` role=`img` aria-label=`Try it live`>'',
     ''<title>Try it live</title>'',
     ''<linearGradient id=`s` x2=`0` y2=`100%%`><stop offset=`0` stop-color=`#bbb` stop-opacity=`.1`/><stop offset=`1` stop-opacity=`.1`/></linearGradient>'',
     ''<clipPath id=`r`><rect width=`94` height=`20` rx=`3` fill=`#fff`/></clipPath>'',
     ''<g clip-path=`url(#r)`><rect width=`22` height=`20` fill=`#0f1115`/><rect x=`22` width=`72` height=`20` fill=`#3ddc84`/><rect width=`94` height=`20` fill=`url(#s)`/></g>'',
     ''<g fill=`#fff` text-anchor=`middle` font-family=`Verdana,Geneva,DejaVu Sans,sans-serif` text-rendering=`geometricPrecision` font-size=`110`>'',
     ''<path d=`M8 5 L16 10 L8 15 Z` fill=`#3ddc84`/>'',
     ''<text aria-hidden=`true` x=`580` y=`150` fill=`#010101` fill-opacity=`.3` transform=`scale(.1)` textLength=`620`>Try it live</text>'',
     ''<text x=`580` y=`140` transform=`scale(.1)` fill=`#0f1115` textLength=`620`>Try it live</text>'',
     ''</g>'',
     ''</svg>''] [CHR 0x0A])"

definition handleBadge :: "string \<Rightarrow> string \<Rightarrow> response" where
  "handleBadge owner file =
    (if owner = [] \<or> \<not> HasSuffix file ''.svg'' \<or> length file = 4 then NotFound
     else \<lparr>re_status = 200, re_headers = [(''Content-Type'', ''image/svg+xml''), (''Cache-Control'', ''public, max-age=3600'')],
       re_body = TextBody badgeSVG\<rparr>)"

text \<open>\<open>path.Clean\<close>: the segments that remain, with the ones behind a root that climb out of it dropped.\<close>

fun clean_segs :: "bool \<Rightarrow> string list \<Rightarrow> string list \<Rightarrow> string list" where
  "clean_segs rooted out [] = rev out"
| "clean_segs rooted out (s # ss) =
    (if s = [] \<or> s = ''.'' then clean_segs rooted out ss
     else if s = ''..''
     then (if out \<noteq> [] \<and> hd out \<noteq> ''..'' then clean_segs rooted (tl out) ss
           else if rooted then clean_segs rooted out ss else clean_segs rooted (s # out) ss)
     else clean_segs rooted (s # out) ss)"

definition path_Clean :: "string \<Rightarrow> string" where
  "path_Clean p =
    (let rooted = HasPrefix p ''/''; c = (if rooted then ''/'' else []) @ Join (clean_segs rooted [] (SplitByte (CHR ''/'') p)) ''/''
     in if c = [] then ''.'' else c)"

definition path_Ext :: "string \<Rightarrow> string" where
  "path_Ext p =
    (let base = (case LastIndexByte (CHR ''/'') p of None \<Rightarrow> p | Some i \<Rightarrow> drop (Suc i) p)
     in case LastIndexByte (CHR ''.'') base of None \<Rightarrow> [] | Some i \<Rightarrow> drop i base)"

definition spa_file :: "string \<Rightarrow> string" where
  "spa_file url_path = (let p = TrimPrefix (path_Clean url_path) ''/'' in if p = [] then ''index.html'' else p)"

definition serve_file :: "(string \<Rightarrow> string) \<Rightarrow> string \<Rightarrow> string \<Rightarrow> response" where
  "serve_file mime p text =
    \<lparr>re_status = 200, re_headers =
       [(''Cache-Control'', if HasPrefix p ''assets/'' then ''public, max-age=31536000, immutable'' else ''no-cache'')] @
       (if mime (path_Ext p) \<noteq> [] then [(''Content-Type'', mime (path_Ext p))] else []),
     re_body = TextBody text\<rparr>"

definition spaHandler :: "(string \<Rightarrow> string) \<Rightarrow> (string \<Rightarrow> string option) \<Rightarrow> string \<Rightarrow> response" where
  "spaHandler mime static url_path =
    (let p = spa_file url_path in
     case static p of
       Some text \<Rightarrow> serve_file mime p text
     | None \<Rightarrow>
         (case static ''index.html'' of Some text \<Rightarrow> serve_file mime ''index.html'' text | None \<Rightarrow> NotFound))"

section \<open>The router\<close>

datatype route =
    Health | Metrics | CreateR | GetR string | EventsR string | PtyR string | ExtendR string
  | BuildR string string | BadgeR string string

text \<open>The pattern that a path matches, with its method; a wildcard matches one segment that is not empty.\<close>

fun match_route :: "string list \<Rightarrow> (string \<times> route) option" where
  "match_route [a] = (if a = ''healthz'' then Some (''GET'', Health) else if a = ''metrics'' then Some (''GET'', Metrics) else None)"
| "match_route [a, b] = (if a = ''v1'' \<and> b = ''sessions'' then Some (''POST'', CreateR) else None)"
| "match_route [a, b, k] = (if a = ''v1'' \<and> b = ''sessions'' \<and> k \<noteq> [] then Some (''GET'', GetR k) else None)"
| "match_route [a, b, k, d] =
    (if a = ''v1'' \<and> b = ''sessions'' \<and> k \<noteq> []
     then (if d = ''events'' then Some (''GET'', EventsR k) else if d = ''pty'' then Some (''GET'', PtyR k)
           else if d = ''extend'' then Some (''POST'', ExtendR k) else None)
     else if a = ''badge'' \<and> b = ''gh'' \<and> k \<noteq> [] \<and> d \<noteq> [] then Some (''GET'', BadgeR k d) else None)"
| "match_route [a, b, c, ow, rp] =
    (if a = ''v1'' \<and> b = ''builds'' \<and> c = ''gh'' \<and> ow \<noteq> [] \<and> rp \<noteq> [] then Some (''GET'', BuildR ow rp) else None)"
| "match_route _ = None"

definition method_ok :: "string \<Rightarrow> string \<Rightarrow> bool" where
  "method_ok want m \<longleftrightarrow> m = want \<or> want = ''GET'' \<and> m = ''HEAD''"

fun dispatch :: "'w server \<Rightarrow> http_req \<Rightarrow> route \<Rightarrow> 'w sstate \<Rightarrow> response \<times> 'w sstate" where
  "dispatch S r Health st = (\<lparr>re_status = 200, re_headers = [], re_body = TextBody ''ok''\<rparr>, st)"
| "dispatch S r Metrics st = (\<lparr>re_status = 200, re_headers = [], re_body = TextBody []\<rparr>, st)"
| "dispatch S r CreateR st = handleCreate S r st"
| "dispatch S r (GetR k) st = handleGet S k st"
| "dispatch S r (EventsR k) st = handleEvents S k st"
| "dispatch S r (PtyR k) st = handlePTY S r k st"
| "dispatch S r (ExtendR k) st = handleExtend S k st"
| "dispatch S r (BuildR ow rp) st = handleBuild S ow rp st"
| "dispatch S r (BadgeR ow f) st = (handleBadge ow f, st)"

definition MethodNotAllowed :: "string \<Rightarrow> response" where
  "MethodNotAllowed want =
    \<lparr>re_status = 405, re_headers = [(''Allow'', if want = ''GET'' then ''GET, HEAD'' else want)],
     re_body = TextBody (''Method Not Allowed'' @ [CHR 0x0A])\<rparr>"

definition serve :: "'w server \<Rightarrow> http_req \<Rightarrow> 'w sstate \<Rightarrow> response \<times> 'w sstate" where
  "serve S r st =
    (case match_route (hr_segs r) of
       Some (want, rt) \<Rightarrow>
         if method_ok want (hr_method r) then dispatch S r rt st
         else (case sv_Static S of
                 Some static \<Rightarrow> (spaHandler (sv_mime S) static (hr_path r), st)
               | None \<Rightarrow> (MethodNotAllowed want, st))
     | None \<Rightarrow>
         (case sv_Static S of
            Some static \<Rightarrow> (spaHandler (sv_mime S) static (hr_path r), st)
          | None \<Rightarrow> (NotFound, st)))"

text \<open>Which requests \<open>logRequests\<close> logs.\<close>

definition logged :: "http_req \<Rightarrow> bool" where
  "logged r \<longleftrightarrow> HasPrefix (hr_path r) ''/v1/'' \<and> \<not> HasSuffix (hr_path r) ''/events''"

section \<open>The terminal relay\<close>

text \<open>
  \<open>relay\<close>: two pumps, each reading a frame from its source and writing it to its target, until one of them
  fails; then the function returns, which cancels the context and closes both ends. \<open>pu_in\<close> are the frames
  the source has still to deliver, \<open>pu_held\<close> the frame between reading and writing, \<open>pu_out\<close> what was
  written.
\<close>

type_synonym frame = "string \<times> bool"

record pump =
  pu_in :: "frame list"
  pu_held :: "frame option"
  pu_out :: "frame list"
  pu_over :: bool

record relay =
  rl_up :: pump
  rl_down :: pump
  rl_errs :: nat
  rl_done :: bool

inductive pump_step :: "pump \<Rightarrow> pump \<Rightarrow> bool" where
  read_frame: "\<not> pu_over p \<Longrightarrow> pu_held p = None \<Longrightarrow> pu_in p = f # fs \<Longrightarrow> pump_step p (p\<lparr>pu_in := fs, pu_held := Some f\<rparr>)"
| read_failed: "\<not> pu_over p \<Longrightarrow> pu_held p = None \<Longrightarrow> pump_step p (p\<lparr>pu_over := True\<rparr>)"
| write_frame: "\<not> pu_over p \<Longrightarrow> pu_held p = Some f \<Longrightarrow> pump_step p (p\<lparr>pu_held := None, pu_out := pu_out p @ [f]\<rparr>)"
| write_failed: "\<not> pu_over p \<Longrightarrow> pu_held p = Some f \<Longrightarrow> pump_step p (p\<lparr>pu_over := True\<rparr>)"

text \<open>A pump that fails sends to the channel of capacity 2; receiving from it ends the relay.\<close>

definition sent_error :: "pump \<Rightarrow> pump \<Rightarrow> nat" where
  "sent_error p p' = (if pu_over p' \<and> \<not> pu_over p then 1 else 0)"

inductive relay_step :: "relay \<Rightarrow> relay \<Rightarrow> bool" where
  up: "pump_step (rl_up r) p \<Longrightarrow> relay_step r (r\<lparr>rl_up := p, rl_errs := rl_errs r + sent_error (rl_up r) p\<rparr>)"
| down: "pump_step (rl_down r) p \<Longrightarrow> relay_step r (r\<lparr>rl_down := p, rl_errs := rl_errs r + sent_error (rl_down r) p\<rparr>)"
| over: "\<not> rl_done r \<Longrightarrow> rl_errs r > 0 \<Longrightarrow> relay_step r (r\<lparr>rl_errs := rl_errs r - 1, rl_done := True\<rparr>)"

definition new_pump :: "frame list \<Rightarrow> pump" where
  "new_pump fs = \<lparr>pu_in = fs, pu_held = None, pu_out = [], pu_over = False\<rparr>"

definition new_relay :: "frame list \<Rightarrow> frame list \<Rightarrow> relay" where
  "new_relay ups downs = \<lparr>rl_up = new_pump ups, rl_down = new_pump downs, rl_errs = 0, rl_done = False\<rparr>"

inductive relay_reach :: "frame list \<Rightarrow> frame list \<Rightarrow> relay \<Rightarrow> bool" for ups downs where
  start: "relay_reach ups downs (new_relay ups downs)"
| step: "relay_reach ups downs r \<Longrightarrow> relay_step r r' \<Longrightarrow> relay_reach ups downs r'"

end
