(* ===== verification/Http_Api_Safety.thy ===== *)
theory Http_Api_Safety
  imports Http_Api
begin

text \<open>
  What the API promises its callers: errors say nothing but their kind, a stream of events can be read back
  whatever the events contain, no path leaves the directory of the web app, and the terminal relay passes
  frames on unchanged.
\<close>

section \<open>Errors\<close>

lemma api_error_wrap: "api_error (Wrapf t e) = api_error e"
  by (simp add: api_error_def)

lemma api_error_other: "api_error (Errorf t) = api_error ErrNoMatch"
  by (simp add: api_error_def)

text \<open>
  C31: No internals leak: what is wrapped around an error does not change the response, an error that is none
  of the known ones gives the generic response with status 500, and a response asks to retry exactly when
  its status is 429 or 503.
\<close>

theorem api_errors_closed:
  "writeError (Wrapf t e) = writeError e \<and>
    writeError (Errorf t) = writeJSON 500 (JObject [(''error'', JObject [(''code'', JString ''internal''), (''message'', JString ''something went wrong'')])]) \<and>
    re_status (writeError e) \<in> {400, 404, 409, 422, 429, 500, 503} \<and>
    (''Retry-After'' \<in> fst ` set (re_headers (writeError e)) \<longleftrightarrow> re_status (writeError e) \<in> {429, 503})"
proof -
  have s: "fst (api_error e) \<in> {400, 404, 409, 422, 429, 500, 503} \<and> (ae_RetryAfter (snd (api_error e)) > 0 \<longleftrightarrow> fst (api_error e) \<in> {429, 503})"
    by (simp add: api_error_def)
  obtain st ae where e: "api_error e = (st, ae)" by fastforce
  have w: "re_status (writeError e) = st" "fst ` set (re_headers (writeError e)) =
      (if ae_RetryAfter ae > 0 then {''Retry-After''} else {}) \<union> {''Content-Type''}"
    by (simp_all add: writeError_def e writeJSON_def)
  have "writeError (Errorf t) = writeJSON 500 (JObject [(''error'', JObject [(''code'', JString ''internal''), (''message'', JString ''something went wrong'')])])"
    by (simp add: writeError_def api_error_def writeJSON_def apiError_json_def)
  moreover have "writeError (Wrapf t e) = writeError e" by (simp add: writeError_def api_error_wrap)
  ultimately show ?thesis using s unfolding w by (simp add: e)
qed

section \<open>Server-sent events\<close>

text \<open>
  How a browser reads an event stream: a line at a time; an empty line ends an event, a comment is skipped.
\<close>

fun sse_read :: "string \<Rightarrow> string list \<Rightarrow> string list \<Rightarrow> (string \<times> string) list" where
  "sse_read typ data [] = []"
| "sse_read typ data (l # ls) =
    (if l = [] then (if data = [] then sse_read [] [] ls else (typ, Join data [CHR 0x0A]) # sse_read [] [] ls)
     else if HasPrefix l '':'' then sse_read typ data ls
     else if HasPrefix l ''event: '' then sse_read (drop 7 l) data ls
     else if HasPrefix l ''data: '' then sse_read typ (data @ [drop 6 l]) ls
     else sse_read typ data ls)"

lemma event_name_plain: "CHR 0x0A \<notin> set (event_name ev)"
  by (cases ev) simp_all

lemma json_one_line: "CHR 0x0A \<notin> set (json_text j)"
  using json_text_unbroken(1) [of j] by (auto simp: breaks_def)

lemma SplitByte_line: "c \<notin> set a \<Longrightarrow> SplitByte c (a @ c # b) = a # SplitByte c b"
  by (rule SplitByte_app)

lemma event_lines:
  "SplitByte (CHR 0x0A) (writeSSE fmt ev @ rest) =
    (''event: '' @ event_name ev) # (''data: '' @ json_text (event_json fmt ev)) # [] # SplitByte (CHR 0x0A) rest"
proof -
  let ?a = "''event: '' @ event_name ev" and ?b = "''data: '' @ json_text (event_json fmt ev)"
  have ne: "CHR 0x0A \<notin> set ?a" "CHR 0x0A \<notin> set ?b" using event_name_plain [of ev] json_one_line by auto
  have "writeSSE fmt ev @ rest = ?a @ CHR 0x0A # (?b @ CHR 0x0A # ([] @ CHR 0x0A # rest))" by (simp add: writeSSE_def nl2_def)
  then show ?thesis
    using SplitByte_line [OF ne(1), of "?b @ CHR 0x0A # ([] @ CHR 0x0A # rest)"] SplitByte_line [OF ne(2), of "[] @ CHR 0x0A # rest"]
      SplitByte_line [of "CHR 0x0A" "[]" rest] by (simp only:) simp
qed

lemma ping_lines: "SplitByte (CHR 0x0A) (write_turn fmt None @ rest) = '': ping'' # [] # SplitByte (CHR 0x0A) rest"
  using SplitByte_line [of "CHR 0x0A" "'': ping''" "[] @ CHR 0x0A # rest"] SplitByte_line [of "CHR 0x0A" "[]" rest]
  by (simp add: nl2_def write_turn_def)

lemma turn_lines:
  "SplitByte (CHR 0x0A) (write_turn fmt (Some ev) @ rest) =
    (''event: '' @ event_name ev) # (''data: '' @ json_text (event_json fmt ev)) # [] # SplitByte (CHR 0x0A) rest"
  by (simp only: write_turn_def option.case event_lines)

lemma sse_read_body:
  "sse_read [] [] (SplitByte (CHR 0x0A) (sse_body fmt turns)) =
    map (\<lambda>ev. (event_name ev, json_text (event_json fmt ev))) (List.map_filter id turns)"
proof (induction turns)
  case Nil
  then show ?case by (simp add: sse_body_def map_filter_simps SplitByte_single)
next
  case (Cons t turns)
  have b: "sse_body fmt (t # turns) = write_turn fmt t @ sse_body fmt turns" for t by (simp add: sse_body_def)
  show ?case
  proof (cases t)
    case None
    with Cons show ?thesis by (simp add: b ping_lines map_filter_simps HasPrefix_def)
  next
    case (Some ev)
    then show ?thesis using Cons by (simp add: b turn_lines map_filter_simps HasPrefix_def)
  qed
qed

text \<open>
  C30: Events cannot be forged by what they contain: whatever log lines, error texts and addresses go into a
  stream, and wherever the heartbeats fall, the browser reads back exactly the events that were sent, in
  order, each with its name and its JSON.
\<close>

theorem sse_roundtrip:
  "sse_read [] [] (SplitByte (CHR 0x0A) (sse_body fmt turns)) =
    map (\<lambda>ev. (event_name ev, json_text (event_json fmt ev))) (List.map_filter id turns)"
  by (rule sse_read_body)

section \<open>Files\<close>

definition file_name :: "string \<Rightarrow> bool" where
  "file_name p \<longleftrightarrow> list_all (\<lambda>s. s \<noteq> [] \<and> s \<noteq> ''.'' \<and> s \<noteq> ''..'') (SplitByte (CHR ''/'') p)"

lemma clean_segs_inside:
  assumes "list_all (\<lambda>s. s \<noteq> [] \<and> s \<noteq> ''.'' \<and> s \<noteq> ''..'' \<and> CHR ''/'' \<notin> set s) out" and "list_all (\<lambda>s. CHR ''/'' \<notin> set s) ss"
  shows "list_all (\<lambda>s. s \<noteq> [] \<and> s \<noteq> ''.'' \<and> s \<noteq> ''..'' \<and> CHR ''/'' \<notin> set s) (clean_segs True out ss)"
  using assms
proof (induction "True" out ss rule: clean_segs.induct)
  case (2 out s ss)
  have "list_all (\<lambda>s. s \<noteq> [] \<and> s \<noteq> ''.'' \<and> s \<noteq> ''..'' \<and> CHR ''/'' \<notin> set s) (tl out)"
    using "2.prems"(1) by (cases out) auto
  with 2 show ?case by auto
qed simp

lemma Join_ne: "ws \<noteq> [] \<Longrightarrow> \<forall>w \<in> set ws. w \<noteq> [] \<Longrightarrow> Join ws sep \<noteq> []"
  by (induction ws sep rule: Join.induct) auto

lemma spa_file_inside:
  assumes "HasPrefix p ''/''"
  shows "file_name (spa_file p)"
proof -
  let ?segs = "clean_segs True [] (SplitByte (CHR ''/'') p)"
  have c: "path_Clean p = ''/'' @ Join ?segs ''/''" using assms by (simp add: path_Clean_def Let_def)
  have "list_all (\<lambda>s. CHR ''/'' \<notin> set s) (SplitByte (CHR ''/'') p)" using SplitByte_no_sep by (fastforce simp: list_all_iff)
  then have segs: "list_all (\<lambda>s. s \<noteq> [] \<and> s \<noteq> ''.'' \<and> s \<noteq> ''..'' \<and> CHR ''/'' \<notin> set s) ?segs" by (intro clean_segs_inside) auto
  have trim: "TrimPrefix (CHR ''/'' # s) ''/'' = s" for s using TrimPrefix_app [of "''/''" s] by simp
  have f: "spa_file p = (if Join ?segs ''/'' = [] then ''index.html'' else Join ?segs ''/'')"
    by (simp add: spa_file_def c Let_def trim)
  show ?thesis
  proof (cases "?segs = []")
    case True
    then show ?thesis unfolding f file_name_def by (simp add: SplitByte_single)
  next
    case False
    then have "SplitByte (CHR ''/'') (Join ?segs ''/'') = ?segs" using segs by (intro SplitByte_Join) (auto simp: list_all_iff)
    moreover have "Join ?segs ''/'' \<noteq> []" using False segs by (intro Join_ne) (auto simp: list_all_iff)
    ultimately show ?thesis using segs unfolding f file_name_def by (auto simp: list_all_iff)
  qed
qed

text \<open>
  C34: The web app serves nothing from outside its directory: for every path of a request only relative names
  without empty, \<open>.\<close> and \<open>..\<close> segments are opened. A file system that differs elsewhere gives the same answer.
\<close>

theorem spa_confined:
  assumes "HasPrefix url_path ''/''" and "\<forall>p. file_name p \<longrightarrow> static' p = static p"
  shows "spaHandler mime static' url_path = spaHandler mime static url_path"
proof -
  have "file_name ''index.html''" by (simp add: file_name_def SplitByte_single)
  then show ?thesis using assms(2) spa_file_inside [OF assms(1)] by (simp add: spaHandler_def Let_def split: option.split)
qed

theorem spa_confined_witness:
  "spaHandler (\<lambda>_. []) (\<lambda>p. if p = ''index.html'' then Some ''app'' else if p = ''../etc/passwd'' then Some ''x'' else None) ''/../../etc/passwd'' =
   spaHandler (\<lambda>_. []) (\<lambda>p. if p = ''index.html'' then Some ''app'' else None) ''/../../etc/passwd''"
proof (rule spa_confined)
  show "HasPrefix ''/../../etc/passwd'' ''/''" by code_simp
  have "\<not> file_name ''../etc/passwd''" by code_simp
  then show "\<forall>p. file_name p \<longrightarrow> (if p = ''index.html'' then Some ''app'' else if p = ''../etc/passwd'' then Some ''x'' else None) =
      (if p = ''index.html'' then Some ''app'' else None)" by auto
qed

section \<open>The relay\<close>

lemma pump_step_frames:
  "pump_step p p' \<Longrightarrow> pu_out p' @ (case pu_held p' of Some f \<Rightarrow> [f] | None \<Rightarrow> []) @ pu_in p' =
    pu_out p @ (case pu_held p of Some f \<Rightarrow> [f] | None \<Rightarrow> []) @ pu_in p"
  by (induction rule: pump_step.induct) auto

definition pump_ok :: "frame list \<Rightarrow> pump \<Rightarrow> bool" where
  "pump_ok fs p \<longleftrightarrow> pu_out p @ (case pu_held p of Some f \<Rightarrow> [f] | None \<Rightarrow> []) @ pu_in p = fs"

definition failed_pumps :: "relay \<Rightarrow> nat" where
  "failed_pumps r = (if pu_over (rl_up r) then 1 else 0) + (if pu_over (rl_down r) then 1 else 0)"

lemma pump_step_over: "pump_step p p' \<Longrightarrow> \<not> pu_over p"
  by (induction rule: pump_step.induct) auto

lemma relay_inv:
  "relay_reach ups downs r \<Longrightarrow>
    pump_ok ups (rl_up r) \<and> pump_ok downs (rl_down r) \<and> rl_errs r + (if rl_done r then 1 else 0) = failed_pumps r"
proof (induction rule: relay_reach.induct)
  case start
  then show ?case by (simp add: new_relay_def new_pump_def pump_ok_def failed_pumps_def)
next
  case (step r r')
  from step.hyps(2) show ?case
  proof cases
    case (up p)
    then show ?thesis using step.IH pump_step_frames [OF up(2)] pump_step_over [OF up(2)]
      by (auto simp: pump_ok_def failed_pumps_def sent_error_def)
  next
    case (down p)
    then show ?thesis using step.IH pump_step_frames [OF down(2)] pump_step_over [OF down(2)]
      by (auto simp: pump_ok_def failed_pumps_def sent_error_def)
  next
    case over
    then show ?thesis using step.IH by (auto simp: failed_pumps_def)
  qed
qed

text \<open>
  C33: In every interleaving of the two pumps, what was written to either side is a prefix of the frames the
  other side sent, unchanged and in order, at most one frame is under way, no pump ever waits to report its
  failure, and the relay ends only after one of them failed.
\<close>

theorem relay_faithful:
  assumes "relay_reach ups downs r"
  shows "(\<exists>rest. ups = pu_out (rl_up r) @ rest \<and> length rest \<le> length (pu_in (rl_up r)) + 1) \<and>
    (\<exists>rest. downs = pu_out (rl_down r) @ rest \<and> length rest \<le> length (pu_in (rl_down r)) + 1) \<and>
    rl_errs r \<le> 2 \<and> (\<not> rl_done r \<or> pu_over (rl_up r) \<or> pu_over (rl_down r))"
  using relay_inv [OF assms] by (fastforce simp: pump_ok_def failed_pumps_def split: option.splits if_splits)

definition relay_sent :: relay where
  "relay_sent = (new_relay [(''ls'', True)] [])\<lparr>rl_up := \<lparr>pu_in = [], pu_held = None, pu_out = [(''ls'', True)], pu_over = False\<rparr>\<rparr>"

lemma relay_sent_reach: "relay_reach [(''ls'', True)] [] relay_sent"
proof -
  let ?r = "new_relay [(''ls'', True)] []"
  let ?p1 = "(rl_up ?r)\<lparr>pu_in := [], pu_held := Some (''ls'', True)\<rparr>"
  let ?r1 = "?r\<lparr>rl_up := ?p1, rl_errs := rl_errs ?r + sent_error (rl_up ?r) ?p1\<rparr>"
  let ?p2 = "(rl_up ?r1)\<lparr>pu_held := None, pu_out := pu_out (rl_up ?r1) @ [(''ls'', True)]\<rparr>"
  have s: "pump_step (rl_up ?r) ?p1" "pump_step (rl_up ?r1) ?p2"
    by (rule pump_step.read_frame, simp_all add: new_relay_def new_pump_def)
      (rule pump_step.write_frame [of "\<lparr>pu_in = [], pu_held = Some (''ls'', True), pu_out = [], pu_over = False\<rparr>" "(''ls'', True)", simplified])
  have e: "relay_sent = ?r1\<lparr>rl_up := ?p2, rl_errs := rl_errs ?r1 + sent_error (rl_up ?r1) ?p2\<rparr>"
    by (simp add: relay_sent_def new_relay_def new_pump_def sent_error_def)
  have r1: "relay_reach [(''ls'', True)] [] ?r1" by (rule relay_reach.step [OF relay_reach.start relay_step.up [OF s(1)]])
  show ?thesis unfolding e by (rule relay_reach.step [OF r1 relay_step.up [OF s(2)]])
qed

theorem relay_faithful_witness: "\<exists>rest. [(''ls'', True)] = pu_out (rl_up relay_sent) @ rest \<and> rl_errs relay_sent \<le> 2"
  using relay_faithful [OF relay_sent_reach] by blast

section \<open>The badge\<close>

text \<open>\<open>fmt.Fprint\<close> does not format: the doubled percent sign of the gradient reaches the browser as it is.\<close>

lemma badge_gradient:
  "re_body (handleBadge ''o'' ''r.svg'') = TextBody badgeSVG \<and> Contains badgeSVG (quoted ''y2=`100%%`'')"
  by code_simp

end
