(* ===== verification/Wiring.thy ===== *)
theory Wiring
  imports Http_Client Http_Api
begin

text \<open>
  \<open>cmd/trylive/main.go\<close>: how the program is put together from its environment, with the embedded web app of
  \<open>web/embed.go\<close>; and the language model's client, \<open>OpenAICompat\<close> of \<open>internal/recipe/model.go\<close>, as a value
  of the type of models that the builder uses.
\<close>

section \<open>The model's client\<close>

text \<open>The request that is encoded, the decoded reply; the temperature is in tenths.\<close>

record chat_request =
  cr_url :: string
  cr_headers :: "(string \<times> string) list"
  cr_model :: string
  cr_messages :: "(string \<times> string) list"
  cr_max_tokens :: int
  cr_temperature :: int
  cr_thinking :: bool

record chat_reply =
  ct_choices :: "string list"
  ct_error :: "string option"

record 'w openai =
  oa_BaseURL :: string
  oa_APIKey :: string
  oa_Model :: string
  oa_Do :: "chat_request \<Rightarrow> 'w \<Rightarrow> answer result \<times> 'w"
  oa_decode :: "string \<Rightarrow> chat_reply option"

definition NewOpenAICompat ::
  "string \<Rightarrow> string \<Rightarrow> string \<Rightarrow> (chat_request \<Rightarrow> 'w \<Rightarrow> answer result \<times> 'w) \<Rightarrow> (string \<Rightarrow> chat_reply option) \<Rightarrow> 'w openai" where
  "NewOpenAICompat base key model send decode =
    \<lparr>oa_BaseURL = TrimRightByte (CHR ''/'') base, oa_APIKey = key, oa_Model = model, oa_Do = send, oa_decode = decode\<rparr>"

definition chat_of :: "'w openai \<Rightarrow> string \<Rightarrow> string \<Rightarrow> chat_request" where
  "chat_of c system user =
    \<lparr>cr_url = oa_BaseURL c @ ''/chat/completions'',
     cr_headers = [(''Content-Type'', ''application/json'')] @
       (if oa_APIKey c \<noteq> [] then [(''Authorization'', ''Bearer '' @ oa_APIKey c)] else []),
     cr_model = oa_Model c, cr_messages = [(''system'', system), (''user'', user)], cr_max_tokens = 900,
     cr_temperature = 1, cr_thinking = False\<rparr>"

definition Complete :: "'w openai \<Rightarrow> 'w llm" where
  "Complete c system user w =
    (case oa_Do c (chat_of c system user) w of
       (Inl e, w') \<Rightarrow> (Inl e, w')
     | (Inr a, w') \<Rightarrow>
         let raw = take (2 ^ 20) (ha_body a);
             bad = Errorf (''llm: status '' @ Itoa (ha_status a) @ '': '' @ tail_bytes raw 300)
         in (case oa_decode c raw of
               None \<Rightarrow> Inl bad
             | Some out \<Rightarrow>
                 if ha_status a \<ge> 300 \<or> ct_error out \<noteq> None then Inl bad
                 else (case ct_choices out of [] \<Rightarrow> Inl (Errorf ''llm: no choices'') | m # _ \<Rightarrow> Inr m), w'))"

section \<open>The environment\<close>

definition envOr :: "(string \<Rightarrow> string) \<Rightarrow> string \<Rightarrow> string \<Rightarrow> string" where
  "envOr env key def = (if env key \<noteq> [] then env key else def)"

definition envInt :: "(string \<Rightarrow> string) \<Rightarrow> string \<Rightarrow> int \<Rightarrow> int" where
  "envInt env key def = (case Atoi (env key) of None \<Rightarrow> def | Some n \<Rightarrow> n)"

text \<open>\<open>Dist\<close>: the files below \<open>dist\<close>, if there is an \<open>index.html\<close> among them.\<close>

definition Dist :: "(string \<Rightarrow> string option) \<Rightarrow> (string \<Rightarrow> string option) option" where
  "Dist files =
    (let sub = (\<lambda>p. files (''dist/'' @ p)) in if sub ''index.html'' = None then None else Some sub)"

section \<open>Putting it together\<close>

datatype store_choice = InMemory | PostgresAt string

text \<open>What \<open>run\<close> has built when it starts to serve.\<close>

record app =
  ap_platform :: config
  ap_store :: store_choice
  ap_llm :: "(string \<times> string \<times> string) option"
  ap_concurrency :: int
  ap_limits :: limits
  ap_github :: github
  ap_static :: "(string \<Rightarrow> string option) option"
  ap_self :: "string option"
  ap_addr :: string

definition platform_config :: "(string \<Rightarrow> string) \<Rightarrow> config" where
  "platform_config env =
    \<lparr>cf_APIBase = envOr env ''NEEV_API_BASE'' ''https://api.ai.neevcloud.com/agent'', cf_APIKey = env ''NEEV_API_KEY'',
     cf_OrgID = env ''NEEV_ORG_ID'', cf_ProjectID = env ''NEEV_PROJECT_ID'', cf_Region = env ''NEEV_REGION''\<rparr>"

definition run_limits :: "(string \<Rightarrow> string) \<Rightarrow> limits" where
  "run_limits env =
    DefaultLimits\<lparr>lm_Global := envInt env ''MAX_LIVE_SESSIONS'' (lm_Global DefaultLimits),
      lm_PerIP := envInt env ''MAX_SESSIONS_PER_IP'' (lm_PerIP DefaultLimits)\<rparr>"

text \<open>\<open>open_db\<close> is the result of \<open>OpenPostgres\<close>.\<close>

definition run_config ::
  "(string \<Rightarrow> error option) \<Rightarrow> (string \<Rightarrow> string option) \<Rightarrow> (string \<Rightarrow> string) \<Rightarrow> app result" where
  "run_config open_db files env =
    (case NewHTTP (platform_config env) of
       Inl e \<Rightarrow> Inl (Errorf (''sandbox platform: '' @ error_text e @ '' (set NEEV_API_KEY, NEEV_ORG_ID, NEEV_PROJECT_ID)''))
     | Inr cfg \<Rightarrow>
         let dsn = env ''DATABASE_URL''; base = env ''LLM_BASE_URL'' in
         if dsn \<noteq> [] \<and> open_db dsn \<noteq> None then Inl (Wrapf ''postgres'' (the (open_db dsn)))
         else Inr \<lparr>ap_platform = cfg, ap_store = (if dsn \<noteq> [] then PostgresAt dsn else InMemory),
           ap_llm = (if base \<noteq> [] then Some (base, env ''LLM_API_KEY'', envOr env ''LLM_MODEL'' ''glm-5-2'') else None),
           ap_concurrency = envInt env ''BUILD_CONCURRENCY'' 5, ap_limits = run_limits env,
           ap_github = NewGitHub (env ''GITHUB_TOKEN''), ap_static = Dist files,
           ap_self = (if env ''SELF_SANDBOX_ID'' \<noteq> [] then Some (env ''SELF_SANDBOX_ID'') else None),
           ap_addr = envOr env ''ADDR'' '':8080''\<rparr>)"

text \<open>
  The keepalive of the program's own sandbox: a failure of a call is logged and the next tick calls again;
  \<open>n\<close> is the number of ticks before the program stops.
\<close>

fun self_keepalive :: "nat \<Rightarrow> (string \<Rightarrow> 'w \<Rightarrow> error option \<times> 'w) \<Rightarrow> string \<Rightarrow> 'w \<Rightarrow> 'w" where
  "self_keepalive 0 keep self w = snd (keep self w)"
| "self_keepalive (Suc n) keep self w = self_keepalive n keep self (snd (keep self w))"

text \<open>\<open>run\<close>: the setup, then serving; a server that was shut down is no error.\<close>

definition ErrServerClosed :: error where
  "ErrServerClosed = Errorf ''http: Server closed''"

definition serve_app :: "app result \<Rightarrow> (app \<Rightarrow> error option) \<Rightarrow> error option" where
  "serve_app setup listen =
    (case setup of
       Inl e \<Rightarrow> Some e
     | Inr a \<Rightarrow> (case listen a of None \<Rightarrow> None | Some e \<Rightarrow> if errors_Is e ErrServerClosed then None else Some e))"

text \<open>
  Without a store of its own the program starts with no more than the three settings of the platform, and
  the session limits are never those of a missing or malformed setting.
\<close>

lemma run_config_starts:
  assumes "env ''DATABASE_URL'' = []"
  shows "(\<exists>a. run_config open_db files env = Inr a) \<longleftrightarrow>
    env ''NEEV_API_KEY'' \<noteq> [] \<and> env ''NEEV_ORG_ID'' \<noteq> [] \<and> env ''NEEV_PROJECT_ID'' \<noteq> []"
  using assms by (auto simp: run_config_def NewHTTP_def platform_config_def envOr_def Let_def)

lemma run_limits_default:
  "Atoi (env ''MAX_SESSIONS_PER_IP'') = None \<Longrightarrow> Atoi (env ''MAX_LIVE_SESSIONS'') = None \<Longrightarrow> run_limits env = DefaultLimits"
  by (simp add: run_limits_def envInt_def)

text \<open>
  The model's answer is used only when the endpoint answered with success, no error and at least one choice.
\<close>

lemma Complete_Inr:
  assumes "Complete c system user w = (Inr m, w')"
  shows "\<exists>a out ms. oa_Do c (chat_of c system user) w = (Inr a, w') \<and> ha_status a < 300 \<and>
    oa_decode c (take (2 ^ 20) (ha_body a)) = Some out \<and> ct_error out = None \<and> ct_choices out = m # ms"
  using assms by (auto simp: Complete_def Let_def split: prod.splits sum.splits option.splits if_splits list.splits)

end
