(* ===== verification/Postgres.thy ===== *)
theory Postgres
  imports Memory
begin

text \<open>
  \<open>internal/store/postgres.go\<close>: the production store. The tables of \<open>migrations/001_init.sql\<close> are lists of
  rows, and each method is the effect of its SQL statement on them, with the constraints of the schema. What
  the columns keep of a value is a parameter (\<open>pg\<close>: the precision of times, the JSON of a recipe), and any
  statement may fail: the \<open>n\<close>-th one does when \<open>pw_faults\<close> says so. An identifier and a time are drawn from the
  host before it is known whether the record needs them; rows come in the order of their insertion where SQL
  leaves the order open.
\<close>

section \<open>The tables\<close>

record database =
  db_builds :: "build list"
  db_sessions :: "session list"
  db_usage :: "((string \<times> string \<times> string) \<times> int) list"
  db_migrations :: "string list"

definition empty_db :: database where
  "empty_db = \<lparr>db_builds = [], db_sessions = [], db_usage = [], db_migrations = []\<rparr>"

record pg =
  pg_time :: "time \<Rightarrow> time"
  pg_recipe :: "recipe \<Rightarrow> recipe result"

definition build_row :: "pg \<Rightarrow> build \<Rightarrow> build" where
  "build_row P b = b\<lparr>b_BuiltAt := map_option (pg_time P) (b_BuiltAt b), b_LastVisitAt := pg_time P (b_LastVisitAt b),
    b_CreatedAt := pg_time P (b_CreatedAt b), b_UpdatedAt := pg_time P (b_UpdatedAt b)\<rparr>"

definition session_row :: "pg \<Rightarrow> session \<Rightarrow> session" where
  "session_row P s = s\<lparr>s_CreatedAt := pg_time P (s_CreatedAt s), s_ExpiresAt := map_option (pg_time P) (s_ExpiresAt s)\<rparr>"

definition unique_violation :: error where
  "unique_violation = Errorf ''duplicate key value violates unique constraint''"

definition foreign_violation :: error where
  "foreign_violation = Errorf ''insert or update on table violates foreign key constraint''"

section \<open>The methods\<close>

definition pg_CreateBuild :: "pg \<Rightarrow> time \<Rightarrow> string \<Rightarrow> build \<Rightarrow> database \<Rightarrow> build result \<times> database" where
  "pg_CreateBuild P now nid b0 db =
    (let b1 = (if b_ID b0 = [] then b0\<lparr>b_ID := nid\<rparr> else b0);
         b2 = (if b_CreatedAt b1 = 0 then b1\<lparr>b_CreatedAt := now\<rparr> else b1);
         b3 = (if b_LastVisitAt b2 = 0 then b2\<lparr>b_LastVisitAt := now\<rparr> else b2);
         b = b3\<lparr>b_UpdatedAt := now\<rparr>
     in if list_ex (\<lambda>r. b_ID r = b_ID b \<or> b_Owner r = b_Owner b \<and> b_Repo r = b_Repo b \<and> b_SHA r = b_SHA b) (db_builds db)
        then (Inl unique_violation, db)
        else (Inr b, db\<lparr>db_builds := db_builds db @ [build_row P b]\<rparr>))"

text \<open>\<open>UPDATE builds SET \<dots> WHERE id = $1\<close>: the mutable columns.\<close>

definition set_build :: "pg \<Rightarrow> build \<Rightarrow> build \<Rightarrow> build" where
  "set_build P b r =
    r\<lparr>b_Status := b_Status b, b_Kind := b_Kind b, b_Recipe := b_Recipe b, b_Port := b_Port b, b_Golden := b_Golden b,
      b_SnapshotID := b_SnapshotID b, b_Log := b_Log b, b_Error := b_Error b,
      b_BuiltAt := map_option (pg_time P) (b_BuiltAt b), b_UpdatedAt := pg_time P (b_UpdatedAt b)\<rparr>"

definition pg_UpdateBuild :: "pg \<Rightarrow> time \<Rightarrow> build \<Rightarrow> database \<Rightarrow> (build \<times> error option) \<times> database" where
  "pg_UpdateBuild P now b0 db =
    (let b = b0\<lparr>b_UpdatedAt := now\<rparr>
     in if list_ex (\<lambda>r. b_ID r = b_ID b) (db_builds db)
        then ((b, None), db\<lparr>db_builds := map (\<lambda>r. if b_ID r = b_ID b then set_build P b r else r) (db_builds db)\<rparr>)
        else ((b, Some ErrStoreNotFound), db))"

definition scanBuild :: "pg \<Rightarrow> build option \<Rightarrow> build result" where
  "scanBuild P row =
    (case row of
       None \<Rightarrow> Inl ErrStoreNotFound
     | Some b \<Rightarrow>
         (case b_Recipe b of
            None \<Rightarrow> Inr b
          | Some r \<Rightarrow> (case pg_recipe P r of Inl e \<Rightarrow> Inl e | Inr r' \<Rightarrow> Inr (b\<lparr>b_Recipe := Some r'\<rparr>))))"

definition pg_GetBuild :: "pg \<Rightarrow> string \<Rightarrow> database \<Rightarrow> build result \<times> database" where
  "pg_GetBuild P i db = (scanBuild P (List.find (\<lambda>r. b_ID r = i) (db_builds db)), db)"

definition pg_GetBuildBySHA :: "pg \<Rightarrow> string \<Rightarrow> string \<Rightarrow> string \<Rightarrow> database \<Rightarrow> build result \<times> database" where
  "pg_GetBuildBySHA P ow rp sha db =
    (scanBuild P (List.find (\<lambda>r. b_Owner r = ow \<and> b_Repo r = rp \<and> b_SHA r = sha) (db_builds db)), db)"

text \<open>\<open>ORDER BY created_at DESC LIMIT 1\<close>: among equal times the first row stands for whichever comes.\<close>

definition newest :: "build option \<Rightarrow> build \<Rightarrow> build option" where
  "newest best r = (case best of None \<Rightarrow> Some r | Some b \<Rightarrow> if b_CreatedAt r > b_CreatedAt b then Some r else best)"

definition pg_LatestBuild :: "pg \<Rightarrow> string \<Rightarrow> string \<Rightarrow> database \<Rightarrow> build result \<times> database" where
  "pg_LatestBuild P ow rp db =
    (scanBuild P (foldl newest None (filter (\<lambda>r. b_Owner r = ow \<and> b_Repo r = rp) (db_builds db))), db)"

definition pg_RecordVisit :: "pg \<Rightarrow> string \<Rightarrow> time \<Rightarrow> database \<Rightarrow> error option \<times> database" where
  "pg_RecordVisit P i at db =
    (if list_ex (\<lambda>r. b_ID r = i) (db_builds db)
     then (None, db\<lparr>db_builds := map (\<lambda>r. if b_ID r = i
        then r\<lparr>b_Visits := b_Visits r + 1, b_LastVisitAt := pg_time P at\<rparr> else r) (db_builds db)\<rparr>)
     else (Some ErrStoreNotFound, db))"

definition pg_CreateSession :: "pg \<Rightarrow> time \<Rightarrow> string \<Rightarrow> session \<Rightarrow> database \<Rightarrow> session result \<times> database" where
  "pg_CreateSession P now nid s0 db =
    (let s1 = (if s_ID s0 = [] then s0\<lparr>s_ID := nid\<rparr> else s0);
         s = (if s_CreatedAt s1 = 0 then s1\<lparr>s_CreatedAt := now\<rparr> else s1)
     in if list_ex (\<lambda>r. s_ID r = s_ID s) (db_sessions db) then (Inl unique_violation, db)
        else if \<not> list_ex (\<lambda>r. b_ID r = s_BuildID s) (db_builds db) then (Inl foreign_violation, db)
        else (Inr s, db\<lparr>db_sessions := db_sessions db @ [session_row P s]\<rparr>))"

definition set_session :: "pg \<Rightarrow> session \<Rightarrow> session \<Rightarrow> session" where
  "set_session P s r =
    r\<lparr>s_SandboxID := s_SandboxID s, s_PreviewURL := s_PreviewURL s, s_Status := s_Status s,
      s_TerminalReady := s_TerminalReady s, s_Extended := s_Extended s,
      s_ExpiresAt := map_option (pg_time P) (s_ExpiresAt s), s_EndedReason := s_EndedReason s\<rparr>"

definition pg_UpdateSession :: "pg \<Rightarrow> session \<Rightarrow> database \<Rightarrow> error option \<times> database" where
  "pg_UpdateSession P s db =
    (if list_ex (\<lambda>r. s_ID r = s_ID s) (db_sessions db)
     then (None, db\<lparr>db_sessions := map (\<lambda>r. if s_ID r = s_ID s then set_session P s r else r) (db_sessions db)\<rparr>)
     else (Some ErrStoreNotFound, db))"

definition pg_GetSession :: "string \<Rightarrow> database \<Rightarrow> session result \<times> database" where
  "pg_GetSession i db =
    ((case List.find (\<lambda>r. s_ID r = i) (db_sessions db) of None \<Rightarrow> Inl ErrStoreNotFound | Some s \<Rightarrow> Inr s), db)"

definition pg_LiveSessions :: "string \<Rightarrow> string \<Rightarrow> database \<Rightarrow> (int \<times> int \<times> int) result \<times> database" where
  "pg_LiveSessions dev ip db =
    (let live = filter (\<lambda>s. s_Status s \<noteq> ''ended'') (db_sessions db)
     in (Inr (int (length (filter (\<lambda>s. s_Device s = dev) live)), int (length (filter (\<lambda>s. s_IP s = ip) live)),
           int (length live)), db))"

definition pg_LiveSessionsForDevice :: "string \<Rightarrow> database \<Rightarrow> session list result \<times> database" where
  "pg_LiveSessionsForDevice dev db =
    (Inr (filter (\<lambda>s. s_Device s = dev \<and> s_Status s \<noteq> ''ended'') (db_sessions db)), db)"

definition pg_IncrUsage :: "string \<Rightarrow> string \<Rightarrow> string \<Rightarrow> int \<Rightarrow> database \<Rightarrow> int result \<times> database" where
  "pg_IncrUsage day kind owner n db =
    (let k = (day, kind, owner); v = (case map_of (db_usage db) k of None \<Rightarrow> n | Some x \<Rightarrow> x + n)
     in (Inr v, db\<lparr>db_usage := map_put k v (db_usage db)\<rparr>))"

section \<open>Statements that fail\<close>

record pworld =
  pw_db :: database
  pw_host :: host
  pw_faults :: "nat \<Rightarrow> error option"
  pw_calls :: nat

definition pg_call :: "'a pworld_scheme \<Rightarrow> error option \<times> 'a pworld_scheme" where
  "pg_call w = (pw_faults w (pw_calls w), w\<lparr>pw_calls := Suc (pw_calls w)\<rparr>)"

text \<open>A statement, with what the method returns when it fails.\<close>

definition statement :: "(error \<Rightarrow> 'r) \<Rightarrow> (database \<Rightarrow> 'r \<times> database) \<Rightarrow> 'a pworld_scheme \<Rightarrow> 'r \<times> 'a pworld_scheme" where
  "statement failed f w =
    (case pg_call w of
       (Some e, w') \<Rightarrow> (failed e, w')
     | (None, w') \<Rightarrow> (case f (pw_db w') of (r, db) \<Rightarrow> (r, w'\<lparr>pw_db := db\<rparr>)))"

definition pg_now :: "(time \<Rightarrow> 'a pworld_scheme \<Rightarrow> 'r \<times> 'a pworld_scheme) \<Rightarrow> 'a pworld_scheme \<Rightarrow> 'r \<times> 'a pworld_scheme" where
  "pg_now g w = (case time_Now (pw_host w) of (now, h) \<Rightarrow> g now (w\<lparr>pw_host := h\<rparr>))"

definition pg_id :: "(string \<Rightarrow> 'a pworld_scheme \<Rightarrow> 'r \<times> 'a pworld_scheme) \<Rightarrow> 'a pworld_scheme \<Rightarrow> 'r \<times> 'a pworld_scheme" where
  "pg_id g w = (case new_id (pw_host w) of (nid, h) \<Rightarrow> g nid (w\<lparr>pw_host := h\<rparr>))"

definition postgres_store :: "pg \<Rightarrow> 'a pworld_scheme store" where
  "postgres_store P =
    \<lparr>so_CreateBuild = (\<lambda>b. pg_id (\<lambda>nid. pg_now (\<lambda>now. statement Inl (pg_CreateBuild P now nid b)))),
     so_UpdateBuild = (\<lambda>b. pg_now (\<lambda>now. statement (\<lambda>e. (b\<lparr>b_UpdatedAt := now\<rparr>, Some e)) (pg_UpdateBuild P now b))),
     so_GetBuild = (\<lambda>i. statement Inl (pg_GetBuild P i)),
     so_GetBuildBySHA = (\<lambda>ow rp sha. statement Inl (pg_GetBuildBySHA P ow rp sha)),
     so_LatestBuild = (\<lambda>ow rp. statement Inl (pg_LatestBuild P ow rp)),
     so_RecordVisit = (\<lambda>i at. statement Some (pg_RecordVisit P i at)),
     so_CreateSession = (\<lambda>s. pg_id (\<lambda>nid. pg_now (\<lambda>now. statement Inl (pg_CreateSession P now nid s)))),
     so_UpdateSession = (\<lambda>s. statement Some (pg_UpdateSession P s)),
     so_GetSession = (\<lambda>i. statement Inl (pg_GetSession i)),
     so_LiveSessions = (\<lambda>dev ip. statement Inl (pg_LiveSessions dev ip)),
     so_LiveSessionsForDevice = (\<lambda>dev. statement Inl (pg_LiveSessionsForDevice dev)),
     so_IncrUsage = (\<lambda>day kind ow n. statement Inl (pg_IncrUsage day kind ow n))\<rparr>"

section \<open>Migrations\<close>

text \<open>
  \<open>migrate\<close>: the files in name order, each inside a transaction; \<open>apply_sql\<close> is the effect of a file on
  the tables. A statement that fails leaves the transaction uncommitted.
\<close>

definition run_migration ::
  "(string \<Rightarrow> database \<Rightarrow> database result) \<Rightarrow> string \<Rightarrow> 'a pworld_scheme \<Rightarrow> error option \<times> 'a pworld_scheme" where
  "run_migration apply_sql name w0 =
    (case pg_call w0 of (Some e, w) \<Rightarrow> (Some e, w) | (None, w) \<Rightarrow>
       if name \<in> set (db_migrations (pw_db w)) then (None, w)
       else case pg_call w of (Some e, w1) \<Rightarrow> (Some e, w1) | (None, w1) \<Rightarrow>
         case pg_call w1 of (Some e, w2) \<Rightarrow> (Some (Wrapf (''migration '' @ name) e), w2) | (None, w2) \<Rightarrow>
           case apply_sql name (pw_db w2) of Inl e \<Rightarrow> (Some (Wrapf (''migration '' @ name) e), w2) | Inr db \<Rightarrow>
             case pg_call w2 of (Some e, w3) \<Rightarrow> (Some e, w3) | (None, w3) \<Rightarrow>
               case pg_call w3 of (Some e, w4) \<Rightarrow> (Some e, w4) | (None, w4) \<Rightarrow>
                 (None, w4\<lparr>pw_db := db\<lparr>db_migrations := db_migrations db @ [name]\<rparr>\<rparr>))"

fun run_migrations ::
  "(string \<Rightarrow> database \<Rightarrow> database result) \<Rightarrow> string list \<Rightarrow> 'a pworld_scheme \<Rightarrow> error option \<times> 'a pworld_scheme" where
  "run_migrations apply_sql [] w = (None, w)"
| "run_migrations apply_sql (n # ns) w =
    (case run_migration apply_sql n w of
       (Some e, w') \<Rightarrow> (Some e, w')
     | (None, w') \<Rightarrow> run_migrations apply_sql ns w')"

definition migrate ::
  "(string \<Rightarrow> database \<Rightarrow> database result) \<Rightarrow> string list \<Rightarrow> 'a pworld_scheme \<Rightarrow> error option \<times> 'a pworld_scheme" where
  "migrate apply_sql files w =
    (case pg_call w of (Some e, w') \<Rightarrow> (Some e, w') | (None, w') \<Rightarrow> run_migrations apply_sql (sort files) w')"

text \<open>\<open>OpenPostgres\<close>: connecting and the ping are calls that may fail; then the migrations.\<close>

definition OpenPostgres ::
  "(string \<Rightarrow> database \<Rightarrow> database result) \<Rightarrow> string list \<Rightarrow> 'a pworld_scheme \<Rightarrow> error option \<times> 'a pworld_scheme" where
  "OpenPostgres apply_sql files w =
    (case pg_call w of (Some e, w1) \<Rightarrow> (Some e, w1) | (None, w1) \<Rightarrow>
       case pg_call w1 of (Some e, w2) \<Rightarrow> (Some (Wrapf ''postgres ping'' e), w2) | (None, w2) \<Rightarrow>
         migrate apply_sql files w2)"

end
