(* ===== verification/Postgres_Refines.thy ===== *)
theory Postgres_Refines
  imports Postgres
begin

text \<open>
  The two stores implement one contract: the tables of \<open>postgres.go\<close> simulate the maps of \<open>memory.go\<close>. The
  simulation relation says that the rows are the stored records as the columns keep them, in the order of
  creation; it is kept by every call of the discipline \<open>disciplined\<close>, the calls fail with the
  same errors, and the queries read the same records.
\<close>

section \<open>The calls on the tables\<close>

fun pg_step :: "pg \<Rightarrow> database \<Rightarrow> store_call \<Rightarrow> database" where
  "pg_step P db (CCreateBuild now nid b) = snd (pg_CreateBuild P now nid b db)"
| "pg_step P db (CUpdateBuild now b) = snd (pg_UpdateBuild P now b db)"
| "pg_step P db (CRecordVisit i at) = snd (pg_RecordVisit P i at db)"
| "pg_step P db (CCreateSession now nid s) = snd (pg_CreateSession P now nid s db)"
| "pg_step P db (CUpdateSession s) = snd (pg_UpdateSession P s db)"
| "pg_step P db (CIncrUsage d k ow n) = snd (pg_IncrUsage d k ow n db)"

definition failed :: "'r result \<Rightarrow> error option" where
  "failed r = (case r of Inl e \<Rightarrow> Some e | Inr _ \<Rightarrow> None)"

text \<open>What a call returns: the error, if any, and the number that \<open>IncrUsage\<close> answers.\<close>

fun pg_reply :: "pg \<Rightarrow> database \<Rightarrow> store_call \<Rightarrow> error option \<times> int" where
  "pg_reply P db (CCreateBuild now nid b) = (failed (fst (pg_CreateBuild P now nid b db)), 0)"
| "pg_reply P db (CUpdateBuild now b) = (snd (fst (pg_UpdateBuild P now b db)), 0)"
| "pg_reply P db (CRecordVisit i at) = (fst (pg_RecordVisit P i at db), 0)"
| "pg_reply P db (CCreateSession now nid s) = (failed (fst (pg_CreateSession P now nid s db)), 0)"
| "pg_reply P db (CUpdateSession s) = (fst (pg_UpdateSession P s db), 0)"
| "pg_reply P db (CIncrUsage d k ow n) = (None, case fst (pg_IncrUsage d k ow n db) of Inr v \<Rightarrow> v | Inl e \<Rightarrow> 0)"

fun store_reply :: "memory \<Rightarrow> store_call \<Rightarrow> error option \<times> int" where
  "store_reply m (CCreateBuild now nid b) = (failed (fst (CreateBuild now nid b m)), 0)"
| "store_reply m (CUpdateBuild now b) = (snd (fst (UpdateBuild now b m)), 0)"
| "store_reply m (CRecordVisit i at) = (fst (RecordVisit i at m), 0)"
| "store_reply m (CCreateSession now nid s) = (failed (fst (CreateSession now nid s m)), 0)"
| "store_reply m (CUpdateSession s) = (fst (UpdateSession s m), 0)"
| "store_reply m (CIncrUsage d k ow n) = (None, case fst (IncrUsage d k ow n m) of Inr v \<Rightarrow> v | Inl e \<Rightarrow> 0)"

text \<open>
  The discipline under which the stores agree: new identifiers and commits are new, a build comes with the time
  of its last visit, a session belongs to a stored build, an update keeps the columns that \<open>UPDATE\<close> does not
  write, and the parts of a usage key hold no separator.
\<close>

definition same_commit :: "build \<Rightarrow> build \<Rightarrow> bool" where
  "same_commit a b \<longleftrightarrow> b_Owner a = b_Owner b \<and> b_Repo a = b_Repo b \<and> b_SHA a = b_SHA b"

fun disciplined :: "memory \<Rightarrow> store_call \<Rightarrow> bool" where
  "disciplined m (CCreateBuild now nid b) \<longleftrightarrow>
    map_of (mm_builds m) (if b_ID b = [] then nid else b_ID b) = None \<and>
    list_all (\<lambda>(_, r). \<not> same_commit r b) (mm_builds m) \<and> b_LastVisitAt b \<noteq> 0"
| "disciplined m (CUpdateBuild now b) \<longleftrightarrow>
    (case map_of (mm_builds m) (b_ID b) of None \<Rightarrow> True | Some r \<Rightarrow> same_commit r b)"
| "disciplined m (CRecordVisit i at) \<longleftrightarrow> True"
| "disciplined m (CCreateSession now nid s) \<longleftrightarrow>
    map_of (mm_sessions m) (if s_ID s = [] then nid else s_ID s) = None \<and> map_of (mm_builds m) (s_BuildID s) \<noteq> None"
| "disciplined m (CUpdateSession s) \<longleftrightarrow>
    (case map_of (mm_sessions m) (s_ID s) of None \<Rightarrow> True
     | Some r \<Rightarrow> s_BuildID r = s_BuildID s \<and> s_Device r = s_Device s \<and> s_IP r = s_IP s \<and> s_CreatedAt r = s_CreatedAt s)"
| "disciplined m (CIncrUsage d k ow n) \<longleftrightarrow> CHR ''|'' \<notin> set d \<and> CHR ''|'' \<notin> set k"

section \<open>The simulation\<close>

definition usage_row :: "(string \<times> string \<times> string) \<times> int \<Rightarrow> string \<times> int" where
  "usage_row u = ((case fst u of (d, k, ow) \<Rightarrow> usage_key d k ow), snd u)"

definition plain_usage :: "((string \<times> string \<times> string) \<times> int) list \<Rightarrow> bool" where
  "plain_usage = list_all (\<lambda>((d, k, _), _). CHR ''|'' \<notin> set d \<and> CHR ''|'' \<notin> set k)"

definition pg_sim :: "pg \<Rightarrow> memory \<Rightarrow> database \<Rightarrow> bool" where
  "pg_sim P m db \<longleftrightarrow>
    db_builds db = map (build_row P \<circ> snd) (mm_builds m) \<and>
    db_sessions db = map (session_row P \<circ> snd) (mm_sessions m) \<and>
    mm_usage m = map usage_row (db_usage db) \<and>
    plain_usage (db_usage db)"

lemma build_row_sel [simp]:
  "b_ID (build_row P b) = b_ID b" "b_Owner (build_row P b) = b_Owner b" "b_Repo (build_row P b) = b_Repo b"
  "b_SHA (build_row P b) = b_SHA b" "b_CreatedAt (build_row P b) = pg_time P (b_CreatedAt b)"
  by (simp_all add: build_row_def)

lemma session_row_sel [simp]:
  "s_ID (session_row P s) = s_ID s" "s_Device (session_row P s) = s_Device s" "s_IP (session_row P s) = s_IP s"
  "s_Status (session_row P s) = s_Status s"
  by (simp_all add: session_row_def)

text \<open>Records under their own identifiers: a row with an identifier, and an update of it.\<close>

lemma rows_have:
  assumes "list_all (\<lambda>(k, r). ident r = k) kvs" and "\<And>r. ident (row r) = ident r"
  shows "list_ex (\<lambda>r. ident r = i) (map (row \<circ> snd) kvs) \<longleftrightarrow> map_of kvs i \<noteq> None"
  using assms(1) by (induction kvs) (auto simp: assms(2))

lemma rows_find:
  assumes "list_all (\<lambda>(k, r). ident r = k) kvs" and "\<And>r. ident (row r) = ident r"
  shows "List.find (\<lambda>r. ident r = i) (map (row \<circ> snd) kvs) = map_option row (map_of kvs i)"
  using assms(1) by (induction kvs) (auto simp: assms(2))

lemma rows_update:
  assumes "list_all (\<lambda>(k, r). ident r = k) kvs" and "wf_map kvs" and "map_of kvs i = Some r"
    and row: "\<And>r. ident (row r) = ident r" and put: "row v = f (row r)"
  shows "map (row \<circ> snd) (map_put i v kvs) = map (\<lambda>r. if ident r = i then f r else r) (map (row \<circ> snd) kvs)"
proof -
  obtain xs ys where kvs: "kvs = xs @ (i, r) # ys" "map_put i v kvs = xs @ (i, v) # ys"
    using map_put_split [OF assms(3), of v] by blast
  moreover have "i \<notin> fst ` set xs" "i \<notin> fst ` set ys" using assms(2) kvs(1) by (auto simp: wf_map_def)
  moreover have "\<forall>p \<in> set kvs. ident (snd p) = fst p" using assms(1) by (auto simp: list_all_iff)
  ultimately have "\<forall>p \<in> set xs \<union> set ys. ident (snd p) \<noteq> i" using kvs(1) by force
  then show ?thesis using kvs assms(1) by (simp add: row put)
qed

lemma rekey:
  assumes "\<forall>p \<in> set xs. f (fst p) = f k \<longleftrightarrow> fst p = k"
  shows "map_of (map (\<lambda>u. (f (fst u), snd u)) xs) (f k) = map_of xs k"
    and "map_put (f k) v (map (\<lambda>u. (f (fst u), snd u)) xs) = map (\<lambda>u. (f (fst u), snd u)) (map_put k v xs)"
  using assms by (induction xs) auto

lemma usage_put:
  assumes "plain_usage us" and "CHR ''|'' \<notin> set d" and "CHR ''|'' \<notin> set k"
  shows "map_of (map usage_row us) (usage_key d k ow) = map_of us (d, k, ow)"
    and "map_put (usage_key d k ow) v (map usage_row us) = map usage_row (map_put (d, k, ow) v us)"
    and "plain_usage (map_put (d, k, ow) v us)"
proof -
  let ?f = "\<lambda>(d, k, ow). usage_key d k ow"
  have "\<forall>p \<in> set us. ?f (fst p) = ?f (d, k, ow) \<longleftrightarrow> fst p = (d, k, ow)"
  proof
    fix p assume p: "p \<in> set us"
    obtain d' k' ow' v' where eq: "p = ((d', k', ow'), v')" by (metis prod.exhaust)
    with p assms(1) have "CHR ''|'' \<notin> set d'" "CHR ''|'' \<notin> set k'" by (auto simp: plain_usage_def list_all_iff)
    then show "?f (fst p) = ?f (d, k, ow) \<longleftrightarrow> fst p = (d, k, ow)"
      using usage_key_inj [OF _ _ assms(2, 3), of d' k' ow' ow] by (auto simp: eq)
  qed
  note r = rekey [OF this]
  show "map_of (map usage_row us) (usage_key d k ow) = map_of us (d, k, ow)"
    and "map_put (usage_key d k ow) v (map usage_row us) = map usage_row (map_put (d, k, ow) v us)"
    using r by (simp_all add: usage_row_def [abs_def])
  show "plain_usage (map_put (d, k, ow) v us)"
    using assms unfolding plain_usage_def by (intro list_all_put) auto
qed

section \<open>Every call keeps the simulation\<close>

lemma sim_rows:
  assumes "memory_ok m" and "pg_sim P m db"
  shows "list_ex (\<lambda>r. b_ID r = i) (db_builds db) \<longleftrightarrow> map_of (mm_builds m) i \<noteq> None"
    and "List.find (\<lambda>r. b_ID r = i) (db_builds db) = map_option (build_row P) (map_of (mm_builds m) i)"
    and "list_ex (\<lambda>r. s_ID r = i) (db_sessions db) \<longleftrightarrow> map_of (mm_sessions m) i \<noteq> None"
    and "List.find (\<lambda>r. s_ID r = i) (db_sessions db) = map_option (session_row P) (map_of (mm_sessions m) i)"
  using rows_have [of b_ID "mm_builds m" "build_row P" i] rows_find [of b_ID "mm_builds m" "build_row P" i]
    rows_have [of s_ID "mm_sessions m" "session_row P" i] rows_find [of s_ID "mm_sessions m" "session_row P" i] assms
  by (simp_all add: memory_ok_def pg_sim_def)

lemma sim_build_put:
  assumes "memory_ok m" and "pg_sim P m db" and "map_of (mm_builds m) i = Some cur"
    and "build_row P b = f (build_row P cur)"
  shows "pg_sim P (m\<lparr>mm_builds := map_put i b (mm_builds m)\<rparr>)
    (db\<lparr>db_builds := map (\<lambda>r. if b_ID r = i then f r else r) (db_builds db)\<rparr>)"
  using rows_update [of b_ID "mm_builds m" i cur "build_row P" b f] assms by (simp add: memory_ok_def pg_sim_def)

lemma sim_session_put:
  assumes "memory_ok m" and "pg_sim P m db" and "map_of (mm_sessions m) i = Some cur"
    and "session_row P s = f (session_row P cur)"
  shows "pg_sim P (m\<lparr>mm_sessions := map_put i s (mm_sessions m)\<rparr>)
    (db\<lparr>db_sessions := map (\<lambda>r. if s_ID r = i then f r else r) (db_sessions db)\<rparr>)"
  using rows_update [of s_ID "mm_sessions m" i cur "session_row P" s f] assms by (simp add: memory_ok_def pg_sim_def)

lemma sim_CreateBuild:
  assumes ok: "memory_ok m" and sim: "pg_sim P m db" and d: "disciplined m (CCreateBuild now nid b)"
  shows "pg_sim P (snd (CreateBuild now nid b m)) (snd (pg_CreateBuild P now nid b db)) \<and>
    failed (fst (CreateBuild now nid b m)) = None \<and> fst (pg_CreateBuild P now nid b db) = fst (CreateBuild now nid b m)"
proof -
  let ?i = "if b_ID b = [] then nid else b_ID b"
  let ?b = "b\<lparr>b_ID := ?i, b_CreatedAt := if b_CreatedAt b = 0 then now else b_CreatedAt b, b_UpdatedAt := now\<rparr>"
  have m: "CreateBuild now nid b m = (Inr ?b, m\<lparr>mm_builds := mm_builds m @ [(?i, ?b)]\<rparr>)"
    using d by (auto simp: CreateBuild_def Let_def map_put_fresh)
  have "\<not> list_ex (\<lambda>r. b_ID r = ?i) (db_builds db)" using d sim_rows(1) [OF ok sim, of ?i] by simp
  moreover have "\<not> list_ex (\<lambda>r. b_Owner r = b_Owner b \<and> b_Repo r = b_Repo b \<and> b_SHA r = b_SHA b) (db_builds db)"
    using d sim by (auto simp: pg_sim_def list_ex_iff list_all_iff same_commit_def)
  ultimately have "pg_CreateBuild P now nid b db = (Inr ?b, db\<lparr>db_builds := db_builds db @ [build_row P ?b]\<rparr>)"
    using d by (auto simp: pg_CreateBuild_def Let_def list_ex_iff)
  with m sim show ?thesis by (simp add: pg_sim_def failed_def)
qed

lemma sim_UpdateBuild:
  assumes ok: "memory_ok m" and sim: "pg_sim P m db" and d: "disciplined m (CUpdateBuild now b)"
  shows "pg_sim P (snd (UpdateBuild now b m)) (snd (pg_UpdateBuild P now b db)) \<and>
    snd (fst (pg_UpdateBuild P now b db)) = snd (fst (UpdateBuild now b m))"
proof (cases "map_of (mm_builds m) (b_ID b)")
  case None
  then show ?thesis using sim sim_rows [OF ok sim] by (simp add: UpdateBuild_def pg_UpdateBuild_def Let_def)
next
  case (Some cur)
  let ?b = "b\<lparr>b_UpdatedAt := now, b_Visits := b_Visits cur, b_LastVisitAt := b_LastVisitAt cur, b_CreatedAt := b_CreatedAt cur\<rparr>"
  have "build_row P ?b = set_build P (b\<lparr>b_UpdatedAt := now\<rparr>) (build_row P cur)"
    using d memory_ok_lookup [OF ok Some] Some by (simp add: build_row_def set_build_def same_commit_def)
  from sim_build_put [OF ok sim Some, of ?b "set_build P (b\<lparr>b_UpdatedAt := now\<rparr>)", OF this]
  show ?thesis using Some sim_rows [OF ok sim] by (simp add: UpdateBuild_def pg_UpdateBuild_def Let_def)
qed

lemma sim_RecordVisit:
  assumes ok: "memory_ok m" and sim: "pg_sim P m db"
  shows "pg_sim P (snd (RecordVisit i at m)) (snd (pg_RecordVisit P i at db)) \<and>
    fst (pg_RecordVisit P i at db) = fst (RecordVisit i at m)"
proof (cases "map_of (mm_builds m) i")
  case None
  then show ?thesis using sim sim_rows [OF ok sim] by (simp add: RecordVisit_def pg_RecordVisit_def)
next
  case (Some cur)
  let ?visit = "\<lambda>at r. r\<lparr>b_Visits := b_Visits r + 1, b_LastVisitAt := at\<rparr>"
  have "build_row P (?visit at cur) = ?visit (pg_time P at) (build_row P cur)"
    by (simp add: build_row_def)
  from sim_build_put [OF ok sim Some, of "?visit at cur" "?visit (pg_time P at)", OF this]
  show ?thesis using Some sim_rows [OF ok sim] by (simp add: RecordVisit_def pg_RecordVisit_def)
qed

lemma sim_CreateSession:
  assumes ok: "memory_ok m" and sim: "pg_sim P m db" and d: "disciplined m (CCreateSession now nid s)"
  shows "pg_sim P (snd (CreateSession now nid s m)) (snd (pg_CreateSession P now nid s db)) \<and>
    failed (fst (CreateSession now nid s m)) = None \<and> fst (pg_CreateSession P now nid s db) = fst (CreateSession now nid s m)"
proof -
  let ?i = "if s_ID s = [] then nid else s_ID s"
  let ?s = "s\<lparr>s_ID := ?i, s_CreatedAt := if s_CreatedAt s = 0 then now else s_CreatedAt s\<rparr>"
  have m: "CreateSession now nid s m = (Inr ?s, m\<lparr>mm_sessions := mm_sessions m @ [(?i, ?s)]\<rparr>)"
    using d by (auto simp: CreateSession_def Let_def map_put_fresh)
  have "\<not> list_ex (\<lambda>r. s_ID r = ?i) (db_sessions db)" "list_ex (\<lambda>r. b_ID r = s_BuildID s) (db_builds db)"
    using d sim_rows(3) [OF ok sim, of ?i] sim_rows(1) [OF ok sim, of "s_BuildID s"] by simp_all
  then have "pg_CreateSession P now nid s db = (Inr ?s, db\<lparr>db_sessions := db_sessions db @ [session_row P ?s]\<rparr>)"
    by (auto simp: pg_CreateSession_def Let_def)
  with m sim show ?thesis by (simp add: pg_sim_def failed_def)
qed

lemma sim_UpdateSession:
  assumes ok: "memory_ok m" and sim: "pg_sim P m db" and d: "disciplined m (CUpdateSession s)"
  shows "pg_sim P (snd (UpdateSession s m)) (snd (pg_UpdateSession P s db)) \<and>
    fst (pg_UpdateSession P s db) = fst (UpdateSession s m)"
proof (cases "map_of (mm_sessions m) (s_ID s)")
  case None
  then show ?thesis using sim sim_rows [OF ok sim] by (simp add: UpdateSession_def pg_UpdateSession_def)
next
  case (Some cur)
  have "s_ID cur = s_ID s" using ok Some by (auto simp: memory_ok_def list_all_iff dest!: map_of_SomeD)
  then have "session_row P s = set_session P s (session_row P cur)"
    using d Some by (simp add: session_row_def set_session_def)
  from sim_session_put [OF ok sim Some, of s "set_session P s", OF this]
  show ?thesis using Some sim_rows [OF ok sim] by (simp add: UpdateSession_def pg_UpdateSession_def)
qed

lemma sim_IncrUsage:
  assumes sim: "pg_sim P m db" and d: "disciplined m (CIncrUsage d k ow n)"
  shows "pg_sim P (snd (IncrUsage d k ow n m)) (snd (pg_IncrUsage d k ow n db)) \<and>
    fst (pg_IncrUsage d k ow n db) = fst (IncrUsage d k ow n m)"
proof -
  have us: "plain_usage (db_usage db)" "mm_usage m = map usage_row (db_usage db)" using sim by (simp_all add: pg_sim_def)
  have dk: "CHR ''|'' \<notin> set d" "CHR ''|'' \<notin> set k" using d by simp_all
  note u = usage_put [OF us(1) dk]
  show ?thesis using sim us u
    by (cases "map_of (db_usage db) (d, k, ow)")
      (simp_all add: IncrUsage_def pg_IncrUsage_def Let_def pg_sim_def add.commute)
qed

text \<open>One step: the simulation is kept, and the replies are equal.\<close>

lemma sim_step:
  assumes "memory_ok m" and "pg_sim P m db" and "disciplined m c"
  shows "pg_sim P (store_step m c) (pg_step P db c) \<and> pg_reply P db c = store_reply m c"
  using assms
  by (cases c) (simp_all only: pg_step.simps store_step.simps pg_reply.simps store_reply.simps sim_CreateBuild
      sim_UpdateBuild sim_RecordVisit sim_CreateSession sim_UpdateSession sim_IncrUsage)

section \<open>The queries\<close>

text \<open>What \<open>scanBuild\<close> makes of the row of a stored build.\<close>

definition scanned :: "pg \<Rightarrow> build result \<Rightarrow> build result" where
  "scanned P r = (case r of Inl e \<Rightarrow> Inl e | Inr b \<Rightarrow> scanBuild P (Some (build_row P b)))"

lemma sim_GetBuild:
  assumes "memory_ok m" and "pg_sim P m db"
  shows "fst (pg_GetBuild P i db) = scanned P (fst (GetBuild i m))"
  using sim_rows(2) [OF assms, of i]
  by (simp add: pg_GetBuild_def GetBuild_def scanned_def scanBuild_def split: option.split)

lemma find_rows:
  assumes "\<And>r. Q (row r) = Q r"
  shows "List.find Q (map (row \<circ> snd) kvs) = map_option (row \<circ> snd) (List.find (Q \<circ> snd) kvs)"
  by (induction kvs) (auto simp: assms)

lemma sim_GetBuildBySHA:
  assumes "pg_sim P m db"
  shows "fst (pg_GetBuildBySHA P ow rp sha db) = scanned P (fst (GetBuildBySHA ow rp sha m))"
proof -
  let ?Q = "\<lambda>r. b_Owner r = ow \<and> b_Repo r = rp \<and> b_SHA r = sha"
  have q: "(\<lambda>(_, b). ?Q b) = ?Q \<circ> snd" by auto
  have f: "List.find ?Q (db_builds db) = map_option (build_row P \<circ> snd) (List.find (?Q \<circ> snd) (mm_builds m))"
    using assms find_rows [of ?Q "build_row P"] by (simp add: pg_sim_def)
  show ?thesis
    by (cases "List.find (?Q \<circ> snd) (mm_builds m)")
      (auto simp: pg_GetBuildBySHA_def GetBuildBySHA_def scanned_def scanBuild_def f q split: option.split sum.split)
qed

lemma sim_GetSession:
  assumes "memory_ok m" and "pg_sim P m db"
  shows "fst (pg_GetSession i db) = map_sum id (session_row P) (fst (GetSession i m))"
  using sim_rows(4) [OF assms, of i] by (simp add: pg_GetSession_def GetSession_def split: option.split)

lemma length_filter_rows:
  assumes "\<And>r. Q (row r) = Q r"
  shows "length (filter Q (map (row \<circ> snd) kvs)) = length (filter Q (map snd kvs))"
  by (induction kvs) (auto simp: assms)

lemma sim_LiveSessions:
  assumes "pg_sim P m db"
  shows "fst (pg_LiveSessions dev ip db) = fst (LiveSessions dev ip m)"
proof -
  have c: "length (filter (\<lambda>s. Live s \<and> Q s) (map (session_row P \<circ> snd) ss)) = length (filter (\<lambda>s. Live s \<and> Q s) (map snd ss))"
    if "\<And>s. Q (session_row P s) = Q s" for Q and ss :: "(string \<times> session) list"
    by (rule length_filter_rows) (simp add: Live_def that)
  have live: "(\<lambda>s. s_Status s \<noteq> ''ended'') = Live" by (auto simp: Live_def SessionEnded_def)
  show ?thesis
    using assms c [of "\<lambda>s. s_Device s = dev" "mm_sessions m"] c [of "\<lambda>s. s_IP s = ip" "mm_sessions m"]
      c [of "\<lambda>_. True" "mm_sessions m"]
    by (simp add: pg_LiveSessions_def LiveSessions_def count_live_fold live pg_sim_def Let_def conj_commute)
qed

lemma sim_LiveSessionsForDevice:
  assumes "pg_sim P m db"
  shows "fst (pg_LiveSessionsForDevice dev db) = map_sum id (map (session_row P)) (fst (LiveSessionsForDevice dev m))"
proof -
  have "filter Q (map (session_row P \<circ> snd) ss) = map (session_row P) (filter Q (map snd ss))"
    if "\<And>s. Q (session_row P s) = Q s" for Q and ss :: "(string \<times> session) list"
    by (induction ss) (auto simp: that)
  from this [of "\<lambda>s. s_Device s = dev \<and> s_Status s \<noteq> ''ended''" "mm_sessions m"] show ?thesis
    using assms by (simp add: pg_LiveSessionsForDevice_def LiveSessionsForDevice_def pg_sim_def Live_def SessionEnded_def
        conj_commute)
qed

text \<open>The newest build, when the column keeps the order of the stored creation times.\<close>

lemma sim_LatestBuild:
  assumes sim: "pg_sim P m db"
    and order: "\<And>a b. a \<in> snd ` set (mm_builds m) \<Longrightarrow> b \<in> snd ` set (mm_builds m) \<Longrightarrow>
      pg_time P (b_CreatedAt a) < pg_time P (b_CreatedAt b) \<longleftrightarrow> b_CreatedAt a < b_CreatedAt b"
  shows "fst (pg_LatestBuild P ow rp db) = scanned P (fst (LatestBuild ow rp m))"
proof -
  let ?S = "snd ` set (mm_builds m)"
  have step: "foldl newest (map_option (build_row P) acc) (filter (\<lambda>r. b_Owner r = ow \<and> b_Repo r = rp) (map (build_row P \<circ> snd) kbs))
      = map_option (build_row P) (foldl (newer ow rp) acc kbs)"
    if "set_option acc \<subseteq> ?S" "snd ` set kbs \<subseteq> ?S" for acc kbs
    using that
  proof (induction kbs arbitrary: acc)
    case (Cons kb kbs)
    have acc: "set_option (newer ow rp acc kb) \<subseteq> ?S" using Cons.prems by (auto simp: newer_def Let_def)
    have "newest (map_option (build_row P) acc) (build_row P (snd kb)) = map_option (build_row P) (newer ow rp acc kb)"
      if "b_Owner (snd kb) = ow" "b_Repo (snd kb) = rp"
      using that Cons.prems order by (cases acc) (auto simp: newest_def newer_def Let_def)
    moreover have "newer ow rp acc kb = acc" if "\<not> (b_Owner (snd kb) = ow \<and> b_Repo (snd kb) = rp)"
      using that by (auto simp: newer_def Let_def)
    ultimately show ?case using Cons.IH [OF acc] Cons.prems by auto
  qed simp
  from step [of None "mm_builds m"] sim show ?thesis
    by (simp add: pg_LatestBuild_def LatestBuild_def pg_sim_def scanned_def scanBuild_def split: option.split)
qed

section \<open>Runs\<close>

definition pg_run :: "pg \<Rightarrow> database \<Rightarrow> store_call list \<Rightarrow> database" where
  "pg_run P = foldl (pg_step P)"

fun disciplined_run :: "memory \<Rightarrow> store_call list \<Rightarrow> bool" where
  "disciplined_run m [] \<longleftrightarrow> True"
| "disciplined_run m (c # cs) \<longleftrightarrow> disciplined m c \<and> disciplined_run (store_step m c) cs"

fun replies :: "('s \<Rightarrow> store_call \<Rightarrow> 'r) \<Rightarrow> ('s \<Rightarrow> store_call \<Rightarrow> 's) \<Rightarrow> 's \<Rightarrow> store_call list \<Rightarrow> 'r list" where
  "replies reply step s [] = []"
| "replies reply step s (c # cs) = reply s c # replies reply step (step s c) cs"

lemma sim_run:
  assumes "memory_ok m" and "pg_sim P m db" and "disciplined_run m cs"
  shows "pg_sim P (store_run m cs) (pg_run P db cs) \<and>
    replies (pg_reply P) (pg_step P) db cs = replies store_reply store_step m cs"
  using assms
proof (induction cs arbitrary: m db)
  case Nil
  then show ?case by (simp add: store_run_def pg_run_def)
next
  case (Cons c cs)
  then have s: "pg_sim P (store_step m c) (pg_step P db c)" "pg_reply P db c = store_reply m c"
    using sim_step by auto
  from Cons.IH [OF store_step_ok [OF Cons.prems(1)] s(1)] Cons.prems(3) s(2)
  show ?case by (simp add: store_run_def pg_run_def)
qed

lemma sim_empty: "pg_sim P NewMemory empty_db"
  by (simp add: pg_sim_def NewMemory_def empty_db_def plain_usage_def)

lemma memory_ok_empty: "memory_ok NewMemory"
  by (simp add: memory_ok_def NewMemory_def)

section \<open>The refinement\<close>

text \<open>
  C9: Under one discipline of the calls the PostgreSQL store refines the in-process one. The discipline
  \<open>disciplined\<close>: a created build has a new identifier, a commit that no stored build has, and a time of its last
  visit, as \<open>builder.Ensure\<close> gives it; a created session has a new identifier and its build is stored; an update
  leaves the columns unchanged that the SQL statement does not write (owner, repository and commit of a build;
  build, device, address and creation of a session); the day and the kind of a usage counter hold no \<open>|\<close>. Over
  every such sequence of calls each call gives the same error and the same counter in both stores, and afterwards every
  query reads the same record, as the columns keep it: a build by identifier or by commit, a session, the
  three counts of live sessions, and the list of a device. Outside the discipline the two stores do differ.
\<close>

theorem postgres_refines_memory:
  assumes "disciplined_run NewMemory cs"
  shows "replies (pg_reply P) (pg_step P) empty_db cs = replies store_reply store_step NewMemory cs \<and>
    fst (pg_GetBuild P i (pg_run P empty_db cs)) = scanned P (fst (GetBuild i (store_run NewMemory cs))) \<and>
    fst (pg_GetBuildBySHA P ow rp sha (pg_run P empty_db cs)) =
      scanned P (fst (GetBuildBySHA ow rp sha (store_run NewMemory cs))) \<and>
    fst (pg_GetSession i (pg_run P empty_db cs)) =
      map_sum id (session_row P) (fst (GetSession i (store_run NewMemory cs))) \<and>
    fst (pg_LiveSessions dev ip (pg_run P empty_db cs)) = fst (LiveSessions dev ip (store_run NewMemory cs)) \<and>
    fst (pg_LiveSessionsForDevice dev (pg_run P empty_db cs)) =
      map_sum id (map (session_row P)) (fst (LiveSessionsForDevice dev (store_run NewMemory cs)))"
proof -
  have sim: "pg_sim P (store_run NewMemory cs) (pg_run P empty_db cs)"
    and r: "replies (pg_reply P) (pg_step P) empty_db cs = replies store_reply store_step NewMemory cs"
    using sim_run [OF memory_ok_empty sim_empty assms] by blast+
  note ok = store_run_ok [OF memory_ok_empty, of cs]
  show ?thesis
    using r sim_GetBuild [OF ok sim] sim_GetBuildBySHA [OF sim] sim_GetSession [OF ok sim] sim_LiveSessions [OF sim]
      sim_LiveSessionsForDevice [OF sim] by blast
qed

text \<open>
  A run with two builds, visits, a refused update, and a session that ends, on columns that keep times to
  the microsecond: the stale update does not undo the visit, and the second session is the live one.
\<close>

definition micro :: pg where
  "micro = \<lparr>pg_time = (\<lambda>t. t div 1000 * 1000), pg_recipe = Inr\<rparr>"

definition demo_session :: session where
  "demo_session = no_session\<lparr>s_ID := ''s1'', s_BuildID := ''b1'', s_Device := ''d'', s_IP := ''10.0.0.1'',
    s_Status := SessionPending, s_CreatedAt := 4000\<rparr>"

definition demo_run :: "store_call list" where
  "demo_run =
    [CCreateBuild 5001 [] (demo_build\<lparr>b_LastVisitAt := 5000\<rparr>), CRecordVisit ''b1'' 6007,
     CUpdateBuild 9000 (demo_build\<lparr>b_Status := BuildReady\<rparr>), CUpdateBuild 9500 (demo_build\<lparr>b_ID := ''b9''\<rparr>),
     CCreateSession 0 [] demo_session, CCreateSession 0 ''s2'' (demo_session\<lparr>s_ID := []\<rparr>),
     CUpdateSession (demo_session\<lparr>s_Status := SessionEnded\<rparr>), CIncrUsage ''2025-01-01'' ''minutes'' ''o'' 3,
     CIncrUsage ''2025-01-01'' ''minutes'' ''o'' 4]"

theorem postgres_refines_memory_witness:
  "replies (pg_reply micro) (pg_step micro) empty_db demo_run =
     [(None, 0), (None, 0), (None, 0), (Some ErrStoreNotFound, 0), (None, 0), (None, 0), (None, 0), (None, 3), (None, 7)] \<and>
   fst (pg_LiveSessions ''d'' ''10.0.0.1'' (pg_run micro empty_db demo_run)) = Inr (1, 1, 1)"
proof -
  have d: "disciplined_run NewMemory demo_run" by code_simp
  have r: "replies store_reply store_step NewMemory demo_run =
     [(None, 0), (None, 0), (None, 0), (Some ErrStoreNotFound, 0), (None, 0), (None, 0), (None, 0), (None, 3), (None, 7)]"
    by code_simp
  have l: "fst (LiveSessions ''d'' ''10.0.0.1'' (store_run NewMemory demo_run)) = Inr (1, 1, 1)" by code_simp
  show ?thesis using postgres_refines_memory [OF d, of micro _ _ _ _ "''d''" "''10.0.0.1''"] r l by simp
qed

end
