(* ===== verification/Api_Limits.thy ===== *)
theory Api_Limits
  imports Session_Limits Http_Api
begin

text \<open>
  The limits on sessions as a visitor meets them: whatever requests reach the router, in whatever order, and
  whatever happens to the sessions between them that raises no one's number of live ones, no device and not the whole
  program get beyond their limits. The counts are an invariant of the session manager's steps; only the
  insertion of \<open>Create\<close> raises one, and \<open>Create_counts\<close> bounds it.
\<close>

section \<open>Bounded counts\<close>

text \<open>The live sessions of the visitors that \<open>Q\<close> selects, by device and address, are at most \<open>N\<close>.\<close>

definition visitors :: "(string \<Rightarrow> string \<Rightarrow> bool) \<Rightarrow> session \<Rightarrow> bool" where
  "visitors Q s \<longleftrightarrow> Q (s_Device s) (s_IP s)"

definition bounded :: "(string \<Rightarrow> string \<Rightarrow> bool) \<Rightarrow> int \<Rightarrow> 'a mworld_scheme mstate \<Rightarrow> bool" where
  "bounded Q N st \<longleftrightarrow> sessions_ok st \<and> live_count (visitors Q) (session_list st) \<le> N"

lemma bounded_same:
  "mm_sessions (mw_mem (hb_world (ms_hub st'))) = mm_sessions (mw_mem (hb_world (ms_hub st))) \<Longrightarrow>
    bounded Q N st \<Longrightarrow> bounded Q N st'"
  by (simp add: bounded_def sessions_ok_def session_list_def)

text \<open>Filing a session that counts no more than the one it replaces.\<close>

lemma live_count_replace:
  assumes "map_of kss k = Some old" and "Live s \<and> P s \<longrightarrow> Live old \<and> P old"
  shows "live_count P (map snd (map_put k s kss)) \<le> live_count P (map snd kss)"
proof -
  obtain xs ys where kss: "kss = xs @ (k, old) # ys" and put: "map_put k s kss = xs @ (k, s) # ys"
    using map_put_split [OF assms(1), of s] by blast
  show ?thesis unfolding put using assms(2) by (auto simp: kss live_count_def)
qed

lemma sessions_ok_put:
  assumes "sessions_ok st" and "mm_sessions (mw_mem (hb_world (ms_hub st'))) = map_put (s_ID s) s (mm_sessions (mw_mem (hb_world (ms_hub st))))"
  shows "sessions_ok st'"
  using assms(1) list_all_put [of "\<lambda>(k, s). s_ID s = k" "mm_sessions (mw_mem (hb_world (ms_hub st)))" "s_ID s" s]
  by (simp add: sessions_ok_def Let_def assms(2))

lemma keeps_change_log: "keeps (bounded Q N) (change_log k f)"
  unfolding change_log_def by (rule keeps_modify, erule bounded_same [rotated]) (simp split: option.split)

lemma keeps_emit: "keeps (bounded Q N) (emit_session k ev)"
  unfolding emit_session_def by (rule keeps_change_log)

lemma keeps_drop: "keeps (bounded Q N) (drop_live k)"
  unfolding drop_live_def by (rule keeps_modify, erule bounded_same [rotated]) simp

lemma keeps_attempt: "keeps I (attempt r)"
  by (cases r) (simp_all add: attempt_def keep)

definition sess_quiet :: "('a mworld_scheme \<Rightarrow> 'r \<times> 'a mworld_scheme) \<Rightarrow> bool" where
  "sess_quiet f \<longleftrightarrow> (\<forall>w. mm_sessions (mw_mem (snd (f w))) = mm_sessions (mw_mem w))"

lemma mem_sess_quiet: "mem_quiet f \<Longrightarrow> sess_quiet f"
  by (simp add: mem_quiet_def sess_quiet_def)

lemma keeps_sess_quiet:
  assumes "sess_quiet f"
  shows "keeps (bounded Q N) (on_world f)"
proof (rule keepsI)
  fix st :: "'a mworld_scheme mstate"
  obtain r w where f: "f (hb_world (ms_hub st)) = (r, w)" by (cases "f (hb_world (ms_hub st))")
  moreover have "mm_sessions (mw_mem w) = mm_sessions (mw_mem (hb_world (ms_hub st)))"
    using assms f unfolding sess_quiet_def by (metis snd_conv)
  ultimately show "bounded Q N st \<Longrightarrow> bounded Q N (snd (on_world f st))"
    by (elim bounded_same [rotated]) (simp add: on_world_def)
qed

lemmas keeps_quiet = keeps_sess_quiet [OF mem_sess_quiet]

lemmas keeps_steps = keep keeps_change_log keeps_emit keeps_drop keeps_attempt keeps_quiet

text \<open>The queries of the store are quiet.\<close>

lemma store_quiet:
  "mem_quiet (so_GetSession memory_store k)" "mem_quiet (so_GetBuild memory_store k)"
  "mem_quiet (so_LiveSessions memory_store dev ip)" "mem_quiet (so_LiveSessionsForDevice memory_store dev)"
  "mem_quiet (so_LatestBuild memory_store ow rp)"
  by (simp_all add: mem_quiet_def memory_store_def with_mem_def GetSession_def GetBuild_def LiveSessions_def
      LiveSessionsForDevice_def LatestBuild_def)

section \<open>The manager\<close>

text \<open>A manager on the in-process store whose platform leaves the store alone.\<close>

locale api_manager = memory_manager m for m :: "'a mworld_scheme manager" +
  assumes keepalive_quiet: "mem_quiet (cl_Keepalive (sm_Sandbox m) i)"
    and get_quiet: "mem_quiet (cl_Get (sm_Sandbox m) i)"
    and dial_quiet: "mem_quiet (cl_DialPTY (sm_Sandbox m) sb opts)"
begin

lemmas quiet = delete_quiet resolve_quiet now_quiet keepalive_quiet get_quiet dial_quiet store_quiet

lemma keeps_end:
  "keeps (bounded Q N) (on_world (so_UpdateSession (sm_Store m) (ended s reason)) :: ('a mworld_scheme mstate, 'e, error option) action)"
proof (rule keepsI)
  fix st :: "'a mworld_scheme mstate" assume b: "bounded Q N st"
  let ?kss = "sessions_of st" and ?e = "ended s reason"
  let ?st' = "snd (on_world (so_UpdateSession (sm_Store m) ?e) st :: ('e + _) \<times> _)"
  show "bounded Q N ?st'"
  proof (cases "map_of ?kss (s_ID ?e)")
    case None
    with b show ?thesis
      by (elim bounded_same [rotated]) (simp add: on_world_def store_memory memory_store_def with_mem_def UpdateSession_def)
  next
    case (Some old)
    have put: "sessions_of ?st' = map_put (s_ID ?e) ?e ?kss"
      using Some by (simp add: on_world_def store_memory memory_store_def with_mem_def UpdateSession_def)
    have "live_count (visitors Q) (map snd (map_put (s_ID ?e) ?e ?kss)) \<le> live_count (visitors Q) (map snd ?kss)"
      by (rule live_count_replace [OF Some]) simp
    moreover have "sessions_ok ?st'" using b sessions_ok_put [OF _ put] by (simp add: bounded_def)
    ultimately show ?thesis using b by (simp add: bounded_def session_list_def put)
  qed
qed

lemma keeps_terminate_all: "keeps (bounded Q N) (terminate_all m ss)"
  by (induction ss) (auto simp: terminate_def intro!: keeps_steps keeps_end quiet)

lemma keeps_replace: "keeps (bounded Q N) (replace_sessions m dev a b)"
  unfolding replace_sessions_def store_memory by (intro keeps_steps keeps_terminate_all quiet)

lemma keeps_Ensure: "keeps (bounded Q N) (on_hub (Ensure (sm_Builder m) i))"
proof (rule keepsI)
  fix st :: "'a mworld_scheme mstate"
  obtain r h where e: "Ensure (sm_Builder m) i (ms_hub st) = (r, h)" by (cases "Ensure (sm_Builder m) i (ms_hub st)")
  with Ensure_sessions [OF e] show "bounded Q N st \<Longrightarrow> bounded Q N (snd (on_hub (Ensure (sm_Builder m) i) st))"
    by (elim bounded_same [rotated]) (simp add: on_hub_def)
qed

text \<open>\<open>Create\<close> adds a session of its own visitor and of no other.\<close>

lemma keeps_CreateSession:
  assumes "\<not> Q (s_Device s) (s_IP s)"
  shows "keeps (bounded Q N) (on_world (so_CreateSession (sm_Store m) s) :: ('a mworld_scheme mstate, 'e, session result) action)"
proof (rule keepsI)
  fix st :: "'a mworld_scheme mstate" assume b: "bounded Q N st"
  let ?st' = "snd (on_world (so_CreateSession (sm_Store m) s) st :: ('e + _) \<times> _)"
  obtain s' where put: "sessions_of ?st' = map_put (s_ID s') s' (sessions_of st)" and
    v: "s_Device s' = s_Device s" "s_IP s' = s_IP s"
    by (auto simp: on_world_def store_memory memory_store_def with_mem_def with_now_def with_id_def CreateSession_def
        Let_def time_Now_def new_id_def)
  have "live_count P (map snd (map_put k s' kss)) \<le> live_count P (map snd kss)" if "\<not> P s'" for P k kss
    using that unfolding live_count_def by (induction kss) auto
  from this [of "visitors Q" "s_ID s'" "sessions_of st"] assms v have "live_count (visitors Q) (session_list ?st') \<le> live_count (visitors Q) (session_list st)"
    by (simp add: session_list_def put visitors_def)
  moreover have "sessions_ok ?st'" using b sessions_ok_put [OF _ put] by (simp add: bounded_def)
  ultimately show "bounded Q N ?st'" using b by (simp add: bounded_def)
qed

lemma visit_quiet: "sess_quiet (so_RecordVisit (sm_Store m) k at)"
  by (auto simp: sess_quiet_def store_memory memory_store_def with_mem_def RecordVisit_def split: option.split)

lemma keeps_start:
  assumes "\<not> Q dev ip"
  shows "keeps (bounded Q N) (start_session m dev ip bld i)"
  unfolding start_session_def
  by (intro keeps_steps keeps_CreateSession keeps_sess_quiet visit_quiet quiet keeps_modify)
    (use assms in \<open>auto simp: new_session_def no_session_def elim!: bounded_same [rotated]\<close>)

lemma keeps_Create:
  assumes "\<not> Q dev ip"
  shows "keeps (bounded Q N) (Manager_Create m dev ip repoRef)"
  unfolding Manager_Create_def
  by (intro keeps_steps keeps_replace keeps_Ensure keeps_start [where Q = Q, OF assms]) (simp_all add: store_memory quiet)

text \<open>A \<open>Create\<close> that fails adds none at all: the insertion is its last step and cannot fail.\<close>

lemma start_succeeds: "valid P (start_session m dev ip bld i) (\<lambda>_ _. True) E"
  by (rule validI) (auto simp: start_session_def bindS_def thenS_def on_world_def attempt_def modifyS_def returnS_def throwS_def
      store_memory memory_store_def with_mem_def with_now_def with_id_def CreateSession_def Let_def
      split: prod.splits sum.splits)

lemma Create_failed:
  "valid (bounded Q N) (Manager_Create m dev ip repoRef) (\<lambda>_ _. True) (\<lambda>_. bounded Q N)"
  unfolding Manager_Create_def
  by (intro valid_keeps_bind keeps_attempt keeps_replace keeps_Ensure start_succeeds)
    (auto intro!: valid_throw_I keeps_quiet quiet valid_keeps_bind keeps_attempt keeps_replace keeps_Ensure start_succeeds
       simp: store_memory split: prod.split)

text \<open>\<open>Extend\<close> files the session it read, whose visitor is the same.\<close>

definition held :: "session \<Rightarrow> (string \<Rightarrow> string \<Rightarrow> bool) \<Rightarrow> int \<Rightarrow> 'a mworld_scheme mstate \<Rightarrow> bool" where
  "held s Q N st \<longleftrightarrow> bounded Q N st \<and> map_of (sessions_of st) (s_ID s) = Some s"

lemma held_quiet: "mem_quiet f \<Longrightarrow> keeps (held s Q N) (on_world f)"
  using keeps_quiet [of f Q N]
  by (auto simp: keeps_def held_def on_world_def mem_quiet_def split: prod.splits) (metis snd_conv)

lemma own_id: "sessions_ok st \<Longrightarrow> map_of (sessions_of st) k = Some s \<Longrightarrow> s_ID s = k"
  by (auto simp: sessions_ok_def Let_def list_all_iff dest!: map_of_SomeD)

lemma get_held:
  "valid (bounded Q N) (on_world (so_GetSession (sm_Store m) k))
    (\<lambda>sr st. case sr of Inl e \<Rightarrow> bounded Q N st | Inr s \<Rightarrow> held s Q N st) E"
  by (rule validI)
    (auto simp: on_world_def store_memory memory_store_def with_mem_def GetSession_def held_def bounded_def
      split: option.split dest: own_id)

lemma update_held:
  assumes "s_ID s' = s_ID s" and "s_Device s' = s_Device s" and "s_IP s' = s_IP s" and "s_Status s' = s_Status s"
  shows "valid (held s Q N) (on_world (so_UpdateSession (sm_Store m) s')) (\<lambda>_. bounded Q N) (E :: 'e \<Rightarrow> _)"
proof (rule validI)
  fix st :: "'a mworld_scheme mstate" assume h: "held s Q N st"
  let ?w = "hb_world (ms_hub st)"
  have look: "map_of (sessions_of st) (s_ID s') = Some s" using h assms(1) by (simp add: held_def)
  define st' where "st' = st\<lparr>ms_hub := (ms_hub st)\<lparr>hb_world := ?w\<lparr>mw_mem := (mw_mem ?w)\<lparr>mm_sessions :=
    map_put (s_ID s') s' (sessions_of st)\<rparr>\<rparr>\<rparr>\<rparr>"
  have put: "sessions_of st' = map_put (s_ID s') s' (sessions_of st)" by (simp add: st'_def)
  have "live_count (visitors Q) (map snd (map_put (s_ID s') s' (sessions_of st))) \<le> live_count (visitors Q) (map snd (sessions_of st))"
    by (rule live_count_replace [OF look]) (simp add: Live_def visitors_def assms)
  moreover have "sessions_ok st'" using h sessions_ok_put [OF _ put] by (simp add: held_def bounded_def)
  ultimately have "bounded Q N st'" using h by (simp add: held_def bounded_def session_list_def put)
  moreover have "on_world (so_UpdateSession (sm_Store m) s') st = (Inr None :: 'e + _, st')"
    by (simp add: on_world_def store_memory memory_store_def with_mem_def UpdateSession_def look st'_def)
  ultimately show "case on_world (so_UpdateSession (sm_Store m) s') st of (Inl e, t) \<Rightarrow> E e t | (Inr x, t) \<Rightarrow> bounded Q N t"
    by simp
qed

lemma held_bounded: "valid (held s Q N) (throwS e) R (\<lambda>_. bounded Q N)"
  by (simp add: valid_def throwS_def held_def)

lemma update_extended:
  "valid (held s Q N) (on_world (so_UpdateSession (sm_Store m) (extended lm now s))) (\<lambda>_. bounded Q N) E"
  by (rule update_held) (simp_all add: extended_def Let_def)

lemma keeps_Extend: "keeps (bounded Q N) (Extend m k)"
proof -
  have q: "valid (held s Q N) (on_world f) (\<lambda>_. held s Q N) (\<lambda>_. bounded Q N)" if "mem_quiet f" for f :: "'a mworld_scheme \<Rightarrow> 'r \<times> _" and s
    using held_quiet [OF that, of s Q N] unfolding keeps_valid by (rule valid_weaken) (simp_all add: held_def)
  have "valid (bounded Q N) (Extend m k) (\<lambda>_. bounded Q N) (\<lambda>_. bounded Q N)"
    unfolding Extend_def Let_def
  proof (rule valid_bind [OF get_held], rule valid_case_sum, goal_cases)
    case 1
    then show ?case by (simp add: valid_throw_I)
  next
    case (2 _ s)
    then show ?case
      by (simp, intro conjI impI held_bounded valid_case_option valid_bind [OF q [OF keepalive_quiet]]
          valid_bind [OF q [OF now_quiet]] valid_bind [OF update_extended])
        (simp_all only: keeps_valid [symmetric], (intro keeps_steps)+)
  qed
  then show ?thesis unfolding keeps_valid .
qed

lemma keeps_end_session: "keeps (bounded Q N) (end_session m s reason)"
  unfolding end_session_def by (intro keeps_steps keeps_end) (simp add: store_memory quiet)

text \<open>The other operations only read.\<close>

lemma keeps_reads:
  "keeps (bounded Q N) (Manager_Get m k)" "keeps (bounded Q N) (Manager_PTY m k c r)" "keeps (bounded Q N) (Manager_Subscribe m k)"
  unfolding Manager_Get_def Manager_PTY_def Manager_Subscribe_def store_memory by (intro keeps_steps quiet)+

end

section \<open>The router\<close>

text \<open>Every device and the whole program are within their limits.\<close>

definition within_limits :: "'a mworld_scheme server \<Rightarrow> 'a mworld_scheme sstate \<Rightarrow> bool" where
  "within_limits S st \<longleftrightarrow>
    (\<forall>dev. bounded (\<lambda>d _. d = dev) (lm_PerDevice (sm_Limits (sv_Sessions S))) (ss_sessions st)) \<and>
    bounded (\<lambda>_ _. True) (lm_Global (sm_Limits (sv_Sessions S))) (ss_sessions st)"

lemma with_sessions_keeps:
  assumes "\<And>Q N. keeps (bounded Q N) f" and "with_sessions f st = (r, st')" and "within_limits S st"
  shows "within_limits S st'"
proof -
  have "ss_sessions st' = snd (f (ss_sessions st))" using assms(2) by (auto simp: with_sessions_def split: prod.splits)
  with assms(3) keepsD [OF assms(1)] show ?thesis by (simp add: within_limits_def)
qed

lemma within_limits_counters [simp]:
  "within_limits S (st\<lparr>ss_created := n\<rparr>) = within_limits S st" "within_limits S (st\<lparr>ss_refused := n\<rparr>) = within_limits S st"
  "within_limits S (st\<lparr>ss_extends := n\<rparr>) = within_limits S st" "within_limits S (st\<lparr>ss_ptys := n\<rparr>) = within_limits S st"
  "within_limits S (st\<lparr>ss_closed := cs\<rparr>) = within_limits S st"
  by (simp_all add: within_limits_def)

lemma visitors_simps: "visitors (\<lambda>d _. d = dev) = (\<lambda>s. s_Device s = dev)" "visitors (\<lambda>_ _. True) = (\<lambda>_. True)"
  by (auto simp: visitors_def)

lemma Create_keeps_limits:
  assumes m: "api_manager (sv_Sessions S)" and l: "0 < lm_PerDevice (sm_Limits (sv_Sessions S))" and w: "within_limits S st"
    and c: "with_sessions (Manager_Create (sv_Sessions S) dev ip ref) st = (r, st')"
  shows "within_limits S st'"
proof -
  let ?C = "Manager_Create (sv_Sessions S) dev ip ref" and ?s = "ss_sessions st"
  note am = m [unfolded api_manager_def]
  have C: "?C ?s = (r, ss_sessions st')" using c by (auto simp: with_sessions_def split: prod.splits)
  note B = w [unfolded within_limits_def]
  have ok: "sessions_ok ?s" using B by (simp add: bounded_def)
  show ?thesis
  proof (cases r)
    case (Inl e)
    have "bounded Q N ?s \<Longrightarrow> bounded Q N (ss_sessions st')" for Q N
      using valid_Inl [OF api_manager.Create_failed [OF m] _ C [unfolded Inl]] by blast
    with B show ?thesis by (simp add: within_limits_def)
  next
    case (Inr x)
    have other: "bounded Q N ?s \<Longrightarrow> \<not> Q dev ip \<Longrightarrow> bounded Q N (ss_sessions st')" for Q N
      using keepsD [OF api_manager.keeps_Create [OF m], of Q dev ip N ?s ref] C by simp
    have "sessions_ok (ss_sessions st')"
      using other [of "\<lambda>_ _. False" 0] ok by (simp add: bounded_def live_count_def visitors_def)
    with memory_manager.Create_counts [OF conjunct1 [OF am] ok l C [unfolded Inr]]
    have own: "bounded (\<lambda>d _. d = dev) (lm_PerDevice (sm_Limits (sv_Sessions S))) (ss_sessions st')"
      and all: "bounded (\<lambda>_ _. True) (lm_Global (sm_Limits (sv_Sessions S))) (ss_sessions st')"
      by (simp_all add: bounded_def visitors_simps)
    have "bounded (\<lambda>d _. d = dev') (lm_PerDevice (sm_Limits (sv_Sessions S))) (ss_sessions st')" for dev'
      using own other [of "\<lambda>d _. d = dev'"] B by (cases "dev' = dev") auto
    with all show ?thesis by (simp add: within_limits_def)
  qed
qed

lemma serve_keeps_limits:
  assumes m: "api_manager (sv_Sessions S)" and l: "0 < lm_PerDevice (sm_Limits (sv_Sessions S))"
    and store: "sv_Store S = memory_store" and w: "within_limits S st"
  shows "within_limits S (snd (serve S r st))"
proof -
  note k = with_sessions_keeps [OF _ _ w]
  have reads: "keeps (bounded Q N) (Manager_Get (sv_Sessions S) i)" "keeps (bounded Q N) (Manager_PTY (sv_Sessions S) i a b)"
    "keeps (bounded Q N) (Manager_Subscribe (sv_Sessions S) i)" "keeps (bounded Q N) (Extend (sv_Sessions S) i)"
    "keeps (bounded Q N) (on_world (so_LatestBuild (sv_Store S) ow rp))" for Q N i a b ow rp
    by (simp_all add: api_manager.keeps_reads [OF m] api_manager.keeps_Extend [OF m] store keeps_quiet store_quiet)
  have d: "within_limits S (snd (dispatch S r rt st))" for rt
  proof (cases rt)
    case CreateR
    then show ?thesis using w Create_keeps_limits [OF m l w]
      by (auto simp: handleCreate_def split: sum.splits prod.splits)
  next
    case (GetR i)
    then show ?thesis using k [OF reads(1)] by (auto simp: handleGet_def split: sum.splits prod.splits)
  next
    case (EventsR i)
    then show ?thesis using k [OF reads(3)] by (auto simp: handleEvents_def split: sum.splits prod.splits)
  next
    case (PtyR i)
    then show ?thesis using k [OF reads(2)] by (auto simp: handlePTY_def split: sum.splits prod.splits)
  next
    case (ExtendR i)
    then show ?thesis using k [OF reads(4)] by (auto simp: handleExtend_def split: sum.splits prod.splits)
  next
    case (BuildR ow rp)
    then show ?thesis using k [OF reads(5)] by (auto simp: handleBuild_def split: sum.splits prod.splits)
  qed (use w in simp_all)
  with w show ?thesis by (simp add: serve_def split: option.split prod.split)
qed

section \<open>The program at work\<close>

text \<open>
  What happens to the state, one after the other: a request is served, or another goroutine - a run that ends
  its session, a build - changes it without raising the number of live sessions of anyone.
\<close>

datatype 'w api_step = Request http_req | Elsewhere "'w sstate \<Rightarrow> 'w sstate"

definition opens_none :: "('a mworld_scheme sstate \<Rightarrow> 'a mworld_scheme sstate) \<Rightarrow> bool" where
  "opens_none g \<longleftrightarrow> (\<forall>Q N st. bounded Q N (ss_sessions st) \<longrightarrow> bounded Q N (ss_sessions (g st)))"

fun step_allowed :: "'a mworld_scheme api_step \<Rightarrow> bool" where
  "step_allowed (Request r) \<longleftrightarrow> True"
| "step_allowed (Elsewhere g) \<longleftrightarrow> opens_none g"

fun api_run :: "'w server \<Rightarrow> 'w api_step list \<Rightarrow> 'w sstate \<Rightarrow> 'w sstate" where
  "api_run S [] st = st"
| "api_run S (Request r # steps) st = api_run S steps (snd (serve S r st))"
| "api_run S (Elsewhere g # steps) st = api_run S steps (g st)"

lemma elsewhere_keeps: "(\<And>Q N. keeps (bounded Q N) f) \<Longrightarrow> opens_none (\<lambda>st. snd (with_sessions f st))"
  by (simp add: opens_none_def with_sessions_def keeps_def split: prod.split) (metis snd_conv)

lemma run_keeps_limits:
  assumes "api_manager (sv_Sessions S)" and "0 < lm_PerDevice (sm_Limits (sv_Sessions S))" and "sv_Store S = memory_store"
    and "within_limits S st" and "list_all step_allowed steps"
  shows "within_limits S (api_run S steps st)"
  using assms(4,5)
proof (induction steps arbitrary: st)
  case (Cons x steps)
  show ?case
  proof (cases x)
    case (Request r)
    then show ?thesis using Cons serve_keeps_limits [OF assms(1-3) Cons.prems(1)] by simp
  next
    case (Elsewhere g)
    then have "within_limits S (g st)" using Cons.prems by (simp add: opens_none_def within_limits_def)
    then show ?thesis using Cons Elsewhere by simp
  qed
qed simp

interpretation fake_api: api_manager "fake_manager cd rs lm" for cd rs lm
  by unfold_locales (auto simp: fake_quiet, simp add: mem_quiet_def fake_client_def with_fake_def split: prod.split)

text \<open>
  C11: No sequence of requests gets beyond the limits: starting without sessions, whatever requests are served
  one after the other and whatever happens in between that raises no one's number of live sessions, no
  device has more live sessions than its limit, and there are never more than the global limit.
\<close>

theorem api_sessions_bounded:
  assumes "api_manager (sv_Sessions S)" and "sv_Store S = memory_store"
    and "0 < lm_PerDevice (sm_Limits (sv_Sessions S))" and "0 \<le> lm_Global (sm_Limits (sv_Sessions S))"
    and "session_list (ss_sessions st) = []" and "list_all step_allowed steps"
  shows "live_count (\<lambda>s. s_Device s = dev) (session_list (ss_sessions (api_run S steps st))) \<le> lm_PerDevice (sm_Limits (sv_Sessions S)) \<and>
    live_count (\<lambda>_. True) (session_list (ss_sessions (api_run S steps st))) \<le> lm_Global (sm_Limits (sv_Sessions S))"
proof -
  have "mm_sessions (mw_mem (hb_world (ms_hub (ss_sessions st)))) = []" using assms(5) by (simp add: session_list_def)
  then have "within_limits S st"
    using assms(3, 4) by (simp add: within_limits_def bounded_def sessions_ok_def session_list_def live_count_def)
  from run_keeps_limits [OF assms(1,3,2) this assms(6)]
  show ?thesis by (simp add: within_limits_def bounded_def visitors_simps)
qed

text \<open>One device asks twice, another one once, and a run of the first session ends in between.\<close>

definition demo_post :: "string \<Rightarrow> http_req" where
  "demo_post device =
    \<lparr>hr_method = ''POST'', hr_path = ''/v1/sessions'', hr_segs = [''v1'', ''sessions''],
     hr_header = (\<lambda>h. if h = ''X-Device-Id'' then device else []), hr_query = (\<lambda>_. []), hr_remote = ''10.0.0.1:999'',
     hr_body = ''a/b'', hr_body_err = False\<rparr>"

definition demo_server :: "world server" where
  "demo_server =
    \<lparr>sv_Sessions = limits_manager, sv_Store = memory_store, sv_Static = None, sv_repo = Inr, sv_time = (\<lambda>_. []),
     sv_mime = (\<lambda>_. []), sv_accept = (\<lambda>_. True)\<rparr>"

definition demo_start :: "world sstate" where
  "demo_start =
    \<lparr>ss_sessions = limits_state\<lparr>ms_hub := (ms_hub limits_state)\<lparr>hb_world := (hb_world (ms_hub limits_state))\<lparr>mw_mem := NewMemory\<rparr>\<rparr>\<rparr>,
     ss_created = 0, ss_refused = 0, ss_extends = 0, ss_ptys = 0, ss_closed = []\<rparr>"

definition demo_steps :: "world api_step list" where
  "demo_steps =
    [Request (demo_post ''device-0001''), Request (demo_post ''device-0002''),
     Elsewhere (\<lambda>st. snd (with_sessions (end_session limits_manager (no_session\<lparr>s_ID := ''78''\<rparr>) ''idle'' :: (world mstate, error, unit) action) st)),
     Request (demo_post ''device-0002'')]"

lemma demo_first:
  "map s_Device (session_list (ss_sessions (api_run demo_server [Request (demo_post ''device-0001'')] demo_start))) = [''device-0001'']"
proof -
  obtain r where r: "Parse ''a/b'' = Inr r" by (rule exE [of "\<lambda>r. Parse ''a/b'' = Inr r"]) (rule exI, code_simp)
  have id: "NewID ''xx'' = ''7878''" "NewID ''x'' = ''78''" by code_simp+
  have d: "deviceID (demo_post ''device-0001'') = ''device-0001''" "clientIP (demo_post ''device-0001'') = ''10.0.0.1''"
    "TrimSpace ''a/b'' = ''a/b''" by code_simp+
  show ?thesis
    by (simp add: serve_def demo_server_def demo_start_def method_ok_def handleCreate_def with_sessions_def
       demo_post_def [of "''device-0001''"] d [unfolded demo_post_def] create_defs r id limits_manager_def limits_state_def session_list_def demo_info_def)
qed

theorem api_sessions_bounded_witness:
  "live_count (\<lambda>s. s_Device s = ''device-0002'') (session_list (ss_sessions (api_run demo_server demo_steps demo_start))) \<le> 1 \<and>
    live_count (\<lambda>_. True) (session_list (ss_sessions (api_run demo_server demo_steps demo_start))) \<le> lm_Global DefaultLimits \<and>
    map s_Device (session_list (ss_sessions (api_run demo_server [Request (demo_post ''device-0001'')] demo_start))) = [''device-0001'']"
proof -
  have m: "api_manager (sv_Sessions demo_server)"
    unfolding demo_server_def limits_manager_def by (simp add: fake_api.api_manager_axioms)
  have l: "sm_Limits (sv_Sessions demo_server) = DefaultLimits" "sv_Store demo_server = memory_store"
    by (simp_all add: demo_server_def limits_manager_def init_limits_def)
  have e: "session_list (ss_sessions demo_start) = []"
    by (simp add: demo_start_def session_list_def NewMemory_def)
  have "opens_none (\<lambda>st. snd (with_sessions (end_session limits_manager (no_session\<lparr>s_ID := ''78''\<rparr>) ''idle'' :: (world mstate, error, unit) action) st))"
    by (rule elsewhere_keeps, unfold limits_manager_def) (rule fake_api.keeps_end_session)
  then have a: "list_all step_allowed demo_steps" by (simp add: demo_steps_def)
  show ?thesis
    using api_sessions_bounded [OF m l(2) _ _ e a, of "''device-0002''"] demo_first by (simp add: l DefaultLimits_def)
qed

end
