(* ===== verification/Migrations.thy ===== *)
theory Migrations
  imports Postgres
begin

text \<open>
  Opening the PostgreSQL store: whatever statement of whatever start fails, the migrations that have taken
  effect are a prefix of the files in name order, each applied once.
\<close>

section \<open>The reference\<close>

text \<open>The files applied in order, each recorded; the effect of a file does not touch the record.\<close>

fun migrated :: "(string \<Rightarrow> database \<Rightarrow> database result) \<Rightarrow> string list \<Rightarrow> database \<Rightarrow> database result" where
  "migrated apply_sql [] db = Inr db"
| "migrated apply_sql (n # ns) db =
    (case apply_sql n db of
       Inl e \<Rightarrow> Inl e
     | Inr db' \<Rightarrow> migrated apply_sql ns (db'\<lparr>db_migrations := db_migrations db' @ [n]\<rparr>))"

definition keeps_record :: "(string \<Rightarrow> database \<Rightarrow> database result) \<Rightarrow> bool" where
  "keeps_record apply_sql \<longleftrightarrow> (\<forall>n db db'. apply_sql n db = Inr db' \<longrightarrow> db_migrations db' = db_migrations db)"

lemma migrated_append:
  "migrated apply_sql (xs @ ys) db = (case migrated apply_sql xs db of Inl e \<Rightarrow> Inl e | Inr db' \<Rightarrow> migrated apply_sql ys db')"
  by (induction xs arbitrary: db) (simp_all split: sum.split)

lemma migrated_record:
  assumes "keeps_record apply_sql" and "migrated apply_sql ns db = Inr db'"
  shows "db_migrations db' = db_migrations db @ ns"
  using assms(2)
proof (induction ns arbitrary: db)
  case (Cons n ns)
  then obtain db1 where a: "apply_sql n db = Inr db1" and
    m: "migrated apply_sql ns (db1\<lparr>db_migrations := db_migrations db1 @ [n]\<rparr>) = Inr db'"
    by (auto split: sum.splits)
  with Cons.IH [OF m] assms(1) show ?case by (auto simp: keeps_record_def)
qed simp

section \<open>One file\<close>

lemma pg_call_db [simp]: "pg_call w = (r, w') \<Longrightarrow> pw_db w' = pw_db w"
  by (auto simp: pg_call_def)

lemma run_migration_known:
  "run_migration apply_sql n w = (r, w') \<Longrightarrow> n \<in> set (db_migrations (pw_db w)) \<Longrightarrow> pw_db w' = pw_db w"
  by (auto simp: run_migration_def split: prod.splits option.splits)

lemma run_migration_new:
  assumes "run_migration apply_sql n w = (r, w')" and "n \<notin> set (db_migrations (pw_db w))"
  shows "pw_db w' = pw_db w \<and> r \<noteq> None \<or> migrated apply_sql [n] (pw_db w) = Inr (pw_db w') \<and> r = None"
  using assms by (auto simp: run_migration_def split: prod.splits option.splits sum.splits)

section \<open>All files\<close>

text \<open>\<open>k\<close> files have taken effect.\<close>

definition applied :: "(string \<Rightarrow> database \<Rightarrow> database result) \<Rightarrow> string list \<Rightarrow> nat \<Rightarrow> database \<Rightarrow> bool" where
  "applied apply_sql fs k db \<longleftrightarrow> k \<le> length fs \<and> migrated apply_sql (take k fs) empty_db = Inr db"

lemma applied_record:
  "keeps_record apply_sql \<Longrightarrow> applied apply_sql fs k db \<Longrightarrow> db_migrations db = take k fs"
  using migrated_record [of apply_sql "take k fs" empty_db db] by (simp add: applied_def empty_db_def)

lemma applied_next:
  assumes "applied apply_sql fs k db" and "k < length fs" and "migrated apply_sql [fs ! k] db = Inr db'"
  shows "applied apply_sql fs (Suc k) db'"
  using assms by (simp add: applied_def take_Suc_conv_app_nth migrated_append)

lemma run_migrations_prefix:
  assumes keeps: "keeps_record apply_sql" and dist: "distinct fs" and fs: "fs = pre @ ns"
    and "applied apply_sql fs k (pw_db w)" and "length pre \<le> k"
    and "run_migrations apply_sql ns w = (r, w')"
  shows "\<exists>k'. k \<le> k' \<and> applied apply_sql fs k' (pw_db w') \<and> (r = None \<longrightarrow> k' = length fs)"
  using fs assms(4-)
proof (induction ns arbitrary: pre k w)
  case Nil
  then show ?case by (auto simp: applied_def)
next
  case (Cons n ns)
  obtain r1 w1 where m: "run_migration apply_sql n w = (r1, w1)" by (cases "run_migration apply_sql n w")
  note rec = applied_record [OF keeps Cons.prems(2)]
  have nth: "fs ! length pre = n" "length pre < length fs" by (simp_all add: Cons.prems(1))
  have "\<exists>k1. k \<le> k1 \<and> applied apply_sql fs k1 (pw_db w1) \<and> (r1 = None \<longrightarrow> length pre < k1)"
  proof (cases "length pre < k")
    case True
    then have "n \<in> set (db_migrations (pw_db w))"
      unfolding rec using nth by (metis in_set_conv_nth length_take min_less_iff_conj nth_take)
    with run_migration_known [OF m] Cons.prems(2) True show ?thesis by auto
  next
    case False
    then have k: "k = length pre" using Cons.prems(3) by simp
    then have "n \<notin> set (db_migrations (pw_db w))" using dist unfolding rec by (simp add: Cons.prems(1))
    from run_migration_new [OF m this] show ?thesis
    proof (elim disjE conjE)
      assume "migrated apply_sql [n] (pw_db w) = Inr (pw_db w1)"
      then have "applied apply_sql fs (Suc k) (pw_db w1)" using applied_next [OF Cons.prems(2)] nth k by simp
      then show ?thesis using k by (intro exI [of _ "Suc (length pre)"]) simp
    qed (use Cons.prems(2) in auto)
  qed
  then obtain k1 where k1: "k \<le> k1" "applied apply_sql fs k1 (pw_db w1)" "r1 = None \<longrightarrow> length pre < k1" by blast
  show ?case
  proof (cases r1)
    case None
    then have "run_migrations apply_sql ns w1 = (r, w')" using Cons.prems(4) m by simp
    with Cons.IH [of "pre @ [n]" k1 w1] Cons.prems(1) k1 None show ?thesis by (auto dest: order_trans)
  next
    case (Some e)
    with Cons.prems(4) m k1 show ?thesis by auto
  qed
qed

section \<open>Starts of the program\<close>

text \<open>The program is started again and again; \<open>fault\<close> says which statements of a start fail.\<close>

fun run_starts ::
  "(string \<Rightarrow> database \<Rightarrow> database result) \<Rightarrow> string list \<Rightarrow> (nat \<Rightarrow> error option) list \<Rightarrow> pworld \<Rightarrow> error option list \<times> pworld" where
  "run_starts apply_sql files [] w = ([], w)"
| "run_starts apply_sql files (fault # faults) w =
    (case OpenPostgres apply_sql files (w\<lparr>pw_faults := fault, pw_calls := 0\<rparr>) of
       (r, w1) \<Rightarrow> (case run_starts apply_sql files faults w1 of (rs, w2) \<Rightarrow> (r # rs, w2)))"

lemma OpenPostgres_prefix:
  assumes "keeps_record apply_sql" and "distinct files" and "applied apply_sql (sort files) k (pw_db w)"
    and "OpenPostgres apply_sql files w = (r, w')"
  shows "\<exists>k'. k \<le> k' \<and> applied apply_sql (sort files) k' (pw_db w') \<and> (r = None \<longrightarrow> k' = length files)"
proof -
  have "distinct (sort files)" using assms(2) by simp
  note run = run_migrations_prefix [OF assms(1) this, of "[]" "sort files", simplified]
  show ?thesis
    using assms(3,4)
    by (auto simp: OpenPostgres_def migrate_def split: prod.splits option.splits) (metis pg_call_db run)
qed

lemma run_starts_prefix:
  assumes "keeps_record apply_sql" and "distinct files" and "applied apply_sql (sort files) k (pw_db w)"
    and "run_starts apply_sql files faults w = (rs, w')"
  shows "\<exists>k'. k \<le> k' \<and> applied apply_sql (sort files) k' (pw_db w') \<and> (None \<in> set rs \<longrightarrow> k' = length files)"
  using assms(3,4)
proof (induction faults arbitrary: k w rs)
  case (Cons fault faults)
  obtain r w1 where o: "OpenPostgres apply_sql files (w\<lparr>pw_faults := fault, pw_calls := 0\<rparr>) = (r, w1)"
    by (cases "OpenPostgres apply_sql files (w\<lparr>pw_faults := fault, pw_calls := 0\<rparr>)")
  obtain rs' where s: "run_starts apply_sql files faults w1 = (rs', w')" "rs = r # rs'"
    using Cons.prems(2) o by (auto split: prod.splits)
  have "applied apply_sql (sort files) k (pw_db (w\<lparr>pw_faults := fault, pw_calls := 0\<rparr>))" using Cons.prems(1) by simp
  from OpenPostgres_prefix [OF assms(1,2) this o] obtain k1 where
    k1: "k \<le> k1" "applied apply_sql (sort files) k1 (pw_db w1)" "r = None \<longrightarrow> k1 = length files" by blast
  from Cons.IH [OF k1(2) s(1)] obtain k' where
    k': "k1 \<le> k'" "applied apply_sql (sort files) k' (pw_db w')" "None \<in> set rs' \<longrightarrow> k' = length files" by blast
  have "k' \<le> length files" using k'(2) by (simp add: applied_def)
  with k1 k' s(2) show ?case by (intro exI [of _ k']) auto
qed auto

text \<open>
  C15: Each migration takes effect once and in order: however often the program is started, and whichever
  statements of the starts fail, the database is what a prefix of the migration files in name order makes
  of the empty one, the record of migrations is that prefix, and after a start that succeeded it is all of
  them.
\<close>

theorem migrations_once:
  assumes "keeps_record apply_sql" and "distinct files" and "pw_db w = empty_db"
    and "run_starts apply_sql files faults w = (rs, w')"
  shows "\<exists>k. migrated apply_sql (take k (sort files)) empty_db = Inr (pw_db w') \<and>
    db_migrations (pw_db w') = take k (sort files) \<and> (None \<in> set rs \<longrightarrow> take k (sort files) = sort files)"
proof -
  have "applied apply_sql (sort files) 0 (pw_db w)" by (simp add: applied_def assms(3))
  from run_starts_prefix [OF assms(1,2) this assms(4)] obtain k where
    k: "applied apply_sql (sort files) k (pw_db w')" "None \<in> set rs \<longrightarrow> k = length files" by blast
  show ?thesis
    using k applied_record [OF assms(1) k(1)] by (intro exI [of _ k]) (simp add: applied_def)
qed

text \<open>
  Two files, given in the wrong order, and three starts: in the first one the transaction of the second file
  cannot be committed, in the second one the connection fails, the third one succeeds.
\<close>

definition demo_sql :: "string \<Rightarrow> database \<Rightarrow> database result" where
  "demo_sql n db = Inr (db\<lparr>db_usage := db_usage db @ [((n, [], []), 1)]\<rparr>)"

definition demo_faults :: "(nat \<Rightarrow> error option) list" where
  "demo_faults =
    [\<lambda>i. if i = 12 then Some (Errorf ''commit'') else None, \<lambda>i. if i = 0 then Some (Errorf ''refused'') else None, \<lambda>_. None]"

definition demo_pworld :: pworld where
  "demo_pworld = \<lparr>pw_db = empty_db, pw_host = \<lparr>h_clock = int, h_rand = (\<lambda>_. []), h_now = 0, h_id = 0\<rparr>, pw_faults = (\<lambda>_. None), pw_calls = 0\<rparr>"

theorem migrations_once_witness:
  "fst (run_starts demo_sql [''002.sql'', ''001.sql''] demo_faults demo_pworld) = [Some (Errorf ''commit''), Some (Errorf ''refused''), None] \<and>
   db_migrations (pw_db (snd (run_starts demo_sql [''002.sql'', ''001.sql''] (take 1 demo_faults) demo_pworld))) = [''001.sql''] \<and>
   db_migrations (pw_db (snd (run_starts demo_sql [''002.sql'', ''001.sql''] demo_faults demo_pworld))) = [''001.sql'', ''002.sql'']"
proof -
  let ?files = "[''002.sql'', ''001.sql'']"
  let ?run = "run_starts demo_sql ?files demo_faults demo_pworld"
  have r: "fst ?run = [Some (Errorf ''commit''), Some (Errorf ''refused''), None]" by code_simp
  have one: "db_migrations (pw_db (snd (run_starts demo_sql ?files (take 1 demo_faults) demo_pworld))) = [''001.sql'']" by code_simp
  have keeps: "keeps_record demo_sql" by (auto simp: keeps_record_def demo_sql_def)
  have sorted: "sort ?files = [''001.sql'', ''002.sql'']" by code_simp
  obtain k where "db_migrations (pw_db (snd ?run)) = take k (sort ?files)" "take k (sort ?files) = sort ?files"
    using migrations_once [OF keeps, of ?files demo_pworld demo_faults "fst ?run" "snd ?run"] r by (auto simp: demo_pworld_def)
  with r one sorted show ?thesis by simp
qed

end
