(* ===== verification/Http_Metrics.thy ===== *)
theory Http_Metrics
  imports Api_Limits
begin

text \<open>
  What the operators see of the API: the counters of \<open>internal/httpapi/metrics.go\<close> and the line that
  \<open>logRequests\<close> writes for a request, with the writer \<open>statusWriter\<close> that it puts around the response.
  Registering and exposing the counters is the Prometheus library.
\<close>

section \<open>Counters\<close>

record counter_opts =
  co_Name :: string
  co_Help :: string
  co_Labels :: "string list"

definition newMetrics :: "counter_opts list" where
  "newMetrics =
    [\<lparr>co_Name = ''trylive_sessions_total'', co_Help = ''Session requests by outcome.'', co_Labels = [''outcome'']\<rparr>,
     \<lparr>co_Name = ''trylive_extends_total'', co_Help = ''Session extensions granted.'', co_Labels = []\<rparr>,
     \<lparr>co_Name = ''trylive_ptys_total'', co_Help = ''Terminal websockets relayed.'', co_Labels = []\<rparr>]"

text \<open>The registry panics on two collectors of one name.\<close>

lemma newMetrics_distinct: "distinct (map co_Name newMetrics)"
  by (simp add: newMetrics_def)

text \<open>What the counters stand for: the responses and errors that a request can have.\<close>

definition asks :: "http_req \<Rightarrow> route option" where
  "asks r = (case match_route (hr_segs r) of Some (want, rt) \<Rightarrow> if method_ok want (hr_method r) then Some rt else None | None \<Rightarrow> None)"

definition names_repo :: "'w server \<Rightarrow> http_req \<Rightarrow> bool" where
  "names_repo S r \<longleftrightarrow> \<not> hr_body_err r \<and> (case sv_repo S (take 4096 (hr_body r)) of Inl _ \<Rightarrow> False | Inr repo \<Rightarrow> TrimSpace repo \<noteq> [])"

definition is_created :: "http_req \<times> response \<Rightarrow> bool" where
  "is_created p \<longleftrightarrow> re_status (snd p) = 201"

definition is_refused :: "'w server \<Rightarrow> http_req \<times> response \<Rightarrow> bool" where
  "is_refused S p \<longleftrightarrow> asks (fst p) = Some CreateR \<and> names_repo S (fst p) \<and> re_status (snd p) \<noteq> 201"

definition is_extended :: "http_req \<times> response \<Rightarrow> bool" where
  "is_extended p \<longleftrightarrow> (\<exists>k. asks (fst p) = Some (ExtendR k)) \<and> re_status (snd p) = 200"

definition is_terminal :: "http_req \<times> response \<Rightarrow> bool" where
  "is_terminal p \<longleftrightarrow> re_status (snd p) = 101"

definition counts :: "'w sstate \<Rightarrow> nat \<times> nat \<times> nat \<times> nat" where
  "counts st = (ss_created st, ss_refused st, ss_extends st, ss_ptys st)"

lemma counts_sessions [simp]: "counts (st\<lparr>ss_sessions := m\<rparr>) = counts st" "counts (st\<lparr>ss_closed := cs\<rparr>) = counts st"
  by (simp_all add: counts_def)

lemma with_sessions_counts: "with_sessions f st = (r, st') \<Longrightarrow> counts st' = counts st"
  by (auto simp: with_sessions_def split: prod.splits)

lemma api_error_status: "fst (api_error e) \<noteq> 101 \<and> fst (api_error e) \<noteq> 200 \<and> fst (api_error e) \<noteq> 201"
  by (simp add: api_error_def)

lemma writeError_status: "re_status (writeError e) \<noteq> 101" "re_status (writeError e) \<noteq> 200" "re_status (writeError e) \<noteq> 201"
  using api_error_status [of e] by (auto simp: writeError_def writeJSON_def split: prod.split)

lemma writeJSON_status [simp]: "re_status (writeJSON n j) = n"
  by (simp add: writeJSON_def)

lemma static_status:
  "re_status NotFound = 404" "re_status (MethodNotAllowed want) = 405" "re_status (handleBadge ow f) \<in> {200, 404}"
  "re_status (spaHandler mime static p) \<in> {200, 404}"
  by (simp_all add: NotFound_def MethodNotAllowed_def handleBadge_def spaHandler_def serve_file_def Let_def split: option.split)

definition step_counts :: "'w server \<Rightarrow> http_req \<Rightarrow> response \<Rightarrow> 'w sstate \<Rightarrow> 'w sstate \<Rightarrow> bool" where
  "step_counts S r resp st st' \<longleftrightarrow>
    ss_created st' = ss_created st + of_bool (is_created (r, resp)) \<and>
    ss_refused st' = ss_refused st + of_bool (is_refused S (r, resp)) \<and>
    ss_extends st' = ss_extends st + of_bool (is_extended (r, resp)) \<and>
    ss_ptys st' = ss_ptys st + of_bool (is_terminal (r, resp))"

lemmas kinds = step_counts_def is_created_def is_refused_def is_extended_def is_terminal_def

lemma uncounted:
  "counts st' = counts st \<Longrightarrow> re_status resp \<notin> {101, 201} \<Longrightarrow> asks r \<noteq> Some CreateR \<Longrightarrow> \<forall>k. asks r \<noteq> Some (ExtendR k) \<Longrightarrow>
    step_counts S r resp st st'"
  by (simp add: kinds counts_def)

lemma handleCreate_counts:
  assumes "handleCreate S r st = (resp, st')" and "asks r = Some CreateR"
  shows "step_counts S r resp st st'"
  using assms
  by (auto simp: handleCreate_def kinds names_repo_def writeError_status counts_def split: sum.splits prod.splits if_splits
      dest!: with_sessions_counts)

lemma handleExtend_counts:
  assumes "handleExtend S k st = (resp, st')" and "asks r = Some (ExtendR k)"
  shows "step_counts S r resp st st'"
  using assms
  by (auto simp: handleExtend_def kinds writeError_status counts_def split: sum.splits prod.splits if_splits
      dest!: with_sessions_counts)

lemma handlePTY_counts:
  assumes "handlePTY S r k st = (resp, st')" and "asks r = Some (PtyR k)"
  shows "step_counts S r resp st st'"
  using assms
  by (auto simp: handlePTY_def kinds writeError_status counts_def split: sum.splits prod.splits if_splits
      dest!: with_sessions_counts)

lemma read_counts:
  "handleGet S k st = (resp, st') \<Longrightarrow> counts st' = counts st \<and> re_status resp \<notin> {101, 201}"
  "handleEvents S k st = (resp, st') \<Longrightarrow> counts st' = counts st \<and> re_status resp \<notin> {101, 201}"
  "handleBuild S ow rp st = (resp, st') \<Longrightarrow> counts st' = counts st \<and> re_status resp \<notin> {101, 201}"
  by (auto simp: handleGet_def handleEvents_def handleBuild_def writeError_status split: sum.splits prod.splits
      dest!: with_sessions_counts)

lemma dispatch_counts:
  assumes "dispatch S r rt st = (resp, st')" and "asks r = Some rt"
  shows "step_counts S r resp st st'"
proof (cases rt)
  case CreateR
  with assms show ?thesis by (auto intro: handleCreate_counts)
next
  case (ExtendR k)
  with assms show ?thesis by (auto intro: handleExtend_counts)
next
  case (PtyR k)
  with assms show ?thesis by (auto intro: handlePTY_counts)
next
  case (BadgeR ow f)
  with assms static_status(3) [of ow f] show ?thesis by (intro uncounted) auto
qed (use assms in \<open>auto intro!: uncounted dest!: read_counts\<close>)

lemma serve_counts: "serve S r st = (resp, st') \<Longrightarrow> step_counts S r resp st st'"
proof -
  assume s: "serve S r st = (resp, st')"
  show ?thesis
  proof (cases "asks r")
    case None
    have "re_status (spaHandler mime static p) \<notin> {101, 201}" for mime static p
      using static_status(4) [of mime static p] by auto
    with None s static_status(1,2) show ?thesis
      by (intro uncounted) (auto simp: serve_def asks_def counts_def split: option.splits prod.splits if_splits)
  next
    case (Some rt)
    with s have "dispatch S r rt st = (resp, st')" by (auto simp: serve_def asks_def split: option.splits prod.splits if_splits)
    then show ?thesis using Some by (rule dispatch_counts)
  qed
qed

text \<open>The requests that a run serves, with their responses; between them the rest of the program leaves the counters alone.\<close>

fun served :: "'w server \<Rightarrow> 'w api_step list \<Rightarrow> 'w sstate \<Rightarrow> (http_req \<times> response) list" where
  "served S [] st = []"
| "served S (Request r # steps) st = (r, fst (serve S r st)) # served S steps (snd (serve S r st))"
| "served S (Elsewhere g # steps) st = served S steps (g st)"

fun step_uncounted :: "'w api_step \<Rightarrow> bool" where
  "step_uncounted (Request r) = True"
| "step_uncounted (Elsewhere g) \<longleftrightarrow> (\<forall>st. counts (g st) = counts st)"

lemma run_counts:
  assumes "list_all step_uncounted steps"
  shows "counts (api_run S steps st) =
    (ss_created st + length (filter is_created (served S steps st)), ss_refused st + length (filter (is_refused S) (served S steps st)),
     ss_extends st + length (filter is_extended (served S steps st)), ss_ptys st + length (filter is_terminal (served S steps st)))"
  using assms
proof (induction steps arbitrary: st)
  case (Cons x steps)
  show ?case
  proof (cases x)
    case (Request r)
    obtain resp st' where s: "serve S r st = (resp, st')" by fastforce
    from serve_counts [OF s] Cons Request show ?thesis by (simp add: s step_counts_def)
  next
    case (Elsewhere g)
    with Cons.prems have "counts (g st) = counts st" by simp
    with Cons Elsewhere show ?thesis by (simp add: counts_def)
  qed
qed (simp add: counts_def)

text \<open>
  C32: The metrics are exact: after any sequence of requests, with anything else in between, the counters have
  grown by the number of sessions created (status 201), of requests that named a repository and were refused,
  of extensions granted, and of terminals opened (status 101); no error path misses or doubles one.
\<close>

theorem metrics_exact:
  assumes "list_all step_uncounted steps"
  shows "ss_created (api_run S steps st) = ss_created st + length (filter is_created (served S steps st)) \<and>
    ss_refused (api_run S steps st) = ss_refused st + length (filter (is_refused S) (served S steps st)) \<and>
    ss_extends (api_run S steps st) = ss_extends st + length (filter is_extended (served S steps st)) \<and>
    ss_ptys (api_run S steps st) = ss_ptys st + length (filter is_terminal (served S steps st))"
  using run_counts [OF assms, of S st] by (simp add: counts_def)

text \<open>A session is created, a request without a repository is refused before it counts, and the health check follows.\<close>

definition count_req :: "string \<Rightarrow> string list \<Rightarrow> http_req" where
  "count_req meth segs =
    \<lparr>hr_method = meth, hr_path = ''/'' @ Join segs ''/'', hr_segs = segs, hr_header = (\<lambda>_. []), hr_query = (\<lambda>_. []),
     hr_remote = ''10.0.0.1:999'', hr_body = [], hr_body_err = False\<rparr>"

definition count_steps :: "world api_step list" where
  "count_steps =
    [Request (demo_post ''device-0001''), Request (count_req ''POST'' [''v1'', ''sessions'']), Elsewhere id,
     Request (count_req ''GET'' [''healthz''])]"

lemma first_created: "re_status (fst (serve demo_server (demo_post ''device-0001'') demo_start)) = 201"
proof -
  obtain r where r: "Parse ''a/b'' = Inr r" by (rule exE [of "\<lambda>r. Parse ''a/b'' = Inr r"]) (rule exI, code_simp)
  have id: "NewID ''xx'' = ''7878''" "NewID ''x'' = ''78''" by code_simp+
  have d: "deviceID (demo_post ''device-0001'') = ''device-0001''" "clientIP (demo_post ''device-0001'') = ''10.0.0.1''"
    "TrimSpace ''a/b'' = ''a/b''" by code_simp+
  show ?thesis
    by (simp add: serve_def demo_server_def demo_start_def method_ok_def handleCreate_def with_sessions_def
       demo_post_def [of "''device-0001''"] d [unfolded demo_post_def] create_defs r id limits_manager_def limits_state_def session_list_def demo_info_def)
qed

theorem metrics_exact_witness:
  "ss_created (api_run demo_server count_steps demo_start) = 1 \<and> ss_refused (api_run demo_server count_steps demo_start) = 0"
proof -
  have t: "TrimSpace [] = []" by code_simp
  have e: "re_status (fst (serve demo_server (count_req ''POST'' [''v1'', ''sessions'']) st)) = 400"
    "\<not> names_repo demo_server (count_req ''POST'' [''v1'', ''sessions''])" for st
    by (simp_all add: serve_def count_req_def method_ok_def handleCreate_def demo_server_def names_repo_def t
        writeError_def api_error_def writeJSON_def)
  have h: "re_status (fst (serve demo_server (count_req ''GET'' [''healthz'']) st)) = 200"
    "asks (count_req ''GET'' [''healthz'']) = Some Health" for st
    by (simp_all add: serve_def count_req_def method_ok_def asks_def)
  have "list_all step_uncounted count_steps" by (simp add: count_steps_def)
  from metrics_exact [OF this, of demo_server demo_start] show ?thesis
    by (simp add: count_steps_def is_created_def is_refused_def first_created e h) (simp add: demo_start_def)
qed

section \<open>The log of the requests\<close>

text \<open>
  What a handler does to its response writer. \<open>statusWriter\<close> notes the status and hands every call on;
  \<open>sent_status\<close> is the status that \<open>net/http\<close> sends: that of the first call of \<open>WriteHeader\<close>, unless the body
  or a flush came before it.
\<close>

datatype write_call = WriteHeader int | WriteBody string | FlushCall

record statusWriter =
  sw_status :: int
  sw_inner :: "write_call list"

fun sw_call :: "bool \<Rightarrow> write_call \<Rightarrow> statusWriter \<Rightarrow> statusWriter" where
  "sw_call flusher (WriteHeader code) w = w\<lparr>sw_status := code, sw_inner := sw_inner w @ [WriteHeader code]\<rparr>"
| "sw_call flusher (WriteBody s) w = w\<lparr>sw_inner := sw_inner w @ [WriteBody s]\<rparr>"
| "sw_call flusher FlushCall w = (if flusher then w\<lparr>sw_inner := sw_inner w @ [FlushCall]\<rparr> else w)"

definition sw_calls :: "bool \<Rightarrow> write_call list \<Rightarrow> statusWriter" where
  "sw_calls flusher cs = fold (sw_call flusher) cs \<lparr>sw_status = 200, sw_inner = []\<rparr>"

fun sent_status :: "write_call list \<Rightarrow> int" where
  "sent_status (WriteHeader code # cs) = code"
| "sent_status _ = 200"

record log_entry =
  le_method :: string
  le_path :: string
  le_status :: int
  le_ms :: int

definition logRequests :: "http_req \<Rightarrow> time \<Rightarrow> time \<Rightarrow> write_call list \<Rightarrow> write_call list \<times> log_entry option" where
  "logRequests r started now cs =
    (let sw = sw_calls True cs
     in (sw_inner sw,
         if logged r
         then Some \<lparr>le_method = hr_method r, le_path = hr_path r, le_status = sw_status sw, le_ms = (now - started) div Millisecond\<rparr>
         else None))"

text \<open>The calls that write a response.\<close>

definition response_calls :: "response \<Rightarrow> write_call list" where
  "response_calls resp =
    (case re_body resp of
       JsonBody j \<Rightarrow> [WriteHeader (re_status resp), WriteBody (json_text j @ [CHR 0x0A])]
     | TextBody t \<Rightarrow> (if re_status resp = 200 then [] else [WriteHeader (re_status resp)]) @ [WriteBody t]
     | EventBody _ \<Rightarrow> [WriteHeader (re_status resp), FlushCall]
     | RelayBody _ \<Rightarrow> [WriteHeader (re_status resp)])"

lemma sw_inner_fold: "sw_inner (fold (sw_call True) cs w) = sw_inner w @ cs"
proof (induction cs arbitrary: w)
  case (Cons c cs)
  then show ?case by (cases c) simp_all
qed simp

text \<open>The writer passes everything on unchanged, and what is logged is the status that was sent.\<close>

lemma logRequests_transparent: "fst (logRequests r t0 t1 cs) = cs"
  by (simp add: logRequests_def Let_def sw_calls_def sw_inner_fold)

lemma logRequests_status:
  assumes "snd (logRequests r t0 t1 (response_calls resp)) = Some e"
  shows "le_status e = re_status resp \<and> sent_status (response_calls resp) = re_status resp"
  using assms
  by (auto simp: logRequests_def Let_def sw_calls_def response_calls_def split: response_body.splits if_splits)

end
