(* ===== verification/Terminal.thy ===== *)
theory Terminal
  imports Http_Api_Safety
begin

text \<open>
  The frames of the terminal: \<open>PTYConn\<close> of \<open>internal/sandbox/client.go\<close>, the adapters \<open>wsConn\<close> of
  \<open>internal/sandbox/http.go\<close> and \<open>wsPeer\<close> of \<open>internal/httpapi/pty.go\<close> over a connection of the websocket
  library, which is a parameter, and the function \<open>pump\<close> of \<open>relay\<close> over two such connections.
\<close>

section \<open>Connections\<close>

text \<open>
  What the adapters use of the library: the types of messages and the status of a normal closure have the
  numbers of RFC 6455. Reading returns the type, the data and an error; the type means nothing beside an error.
\<close>

definition MessageText :: int where "MessageText = 1"
definition MessageBinary :: int where "MessageBinary = 2"
definition StatusNormalClosure :: int where "StatusNormalClosure = 1000"

record 'w websocket =
  wb_Read :: "'w \<Rightarrow> (int \<times> string \<times> error option) \<times> 'w"
  wb_Write :: "int \<Rightarrow> string \<Rightarrow> 'w \<Rightarrow> error option \<times> 'w"
  wb_Close :: "int \<Rightarrow> string \<Rightarrow> 'w \<Rightarrow> error option \<times> 'w"

record 'w ptyConn =
  pc_Read :: "'w \<Rightarrow> (string \<times> bool \<times> error option) \<times> 'w"
  pc_Write :: "string \<Rightarrow> bool \<Rightarrow> 'w \<Rightarrow> error option \<times> 'w"
  pc_Close :: "'w \<Rightarrow> error option \<times> 'w"

definition wsConn :: "'w websocket \<Rightarrow> 'w ptyConn" where
  "wsConn c =
    \<lparr>pc_Read = (\<lambda>w. case wb_Read c w of ((ty, data, err), w') \<Rightarrow> ((data, ty = MessageBinary, err), w')),
     pc_Write = (\<lambda>data binary. wb_Write c (if binary then MessageBinary else MessageText) data),
     pc_Close = wb_Close c StatusNormalClosure []\<rparr>"

definition wsPeer :: "'w websocket \<Rightarrow> 'w ptyConn" where
  "wsPeer c =
    \<lparr>pc_Read = (\<lambda>w. case wb_Read c w of ((ty, data, err), w') \<Rightarrow> ((data, ty = MessageBinary, err), w')),
     pc_Write = (\<lambda>data binary. wb_Write c (if binary then MessageBinary else MessageText) data),
     pc_Close = wb_Close c StatusNormalClosure []\<rparr>"

text \<open>The loop of a pump, with fuel for its turns; the error it sends to the channel, none while it still runs.\<close>

fun pump_loop :: "nat \<Rightarrow> 'w ptyConn \<Rightarrow> 'w ptyConn \<Rightarrow> 'w \<Rightarrow> error option \<times> 'w" where
  "pump_loop 0 src dst w = (None, w)"
| "pump_loop (Suc n) src dst w =
    (case pc_Read src w of
       ((data, binary, Some e), w1) \<Rightarrow> (Some e, w1)
     | ((data, binary, None), w1) \<Rightarrow>
         (case pc_Write dst data binary w1 of
            (Some e, w2) \<Rightarrow> (Some e, w2)
          | (None, w2) \<Rightarrow> pump_loop n src dst w2))"

text \<open>The deferred calls of \<open>relay\<close>, last first: the terminal is closed, then the browser.\<close>

definition relay_close :: "'w ptyConn \<Rightarrow> 'w ptyConn \<Rightarrow> 'w \<Rightarrow> 'w" where
  "relay_close browser pty w = snd (pc_Close browser (snd (pc_Close pty w)))"

section \<open>The library\<close>

text \<open>
  A connection is a queue of messages to read and a list of messages written. Both calls may fail; a failing
  write may still have sent the message or not.
\<close>

type_synonym message = "int \<times> string"

definition is_message :: "message \<Rightarrow> bool" where
  "is_message msg \<longleftrightarrow> fst msg = MessageText \<or> fst msg = MessageBinary"

locale websocket_pair =
  fixes a b :: "'w websocket" and inbox :: "'w \<Rightarrow> message list" and sent :: "'w \<Rightarrow> message list"
  assumes reads_next: "wb_Read a w = ((ty, data, err), w') \<Longrightarrow> sent w' = sent w \<and>
      (err = None \<longrightarrow> inbox w = (ty, data) # inbox w')"
    and writes_next: "wb_Write b ty data w = (err, w') \<Longrightarrow> inbox w' = inbox w \<and>
      (if err = None then sent w' = sent w @ [(ty, data)] else sent w' = sent w \<or> sent w' = sent w @ [(ty, data)])"
begin

lemma pump_passes:
  assumes "list_all is_message (inbox w)"
    and src: "pc_Read src = pc_Read (wsConn a)" and dst: "pc_Write dst = pc_Write (wsConn b)"
  shows "\<exists>n \<le> length (inbox w). sent (snd (pump_loop fuel src dst w)) = sent w @ take n (inbox w)"
  using assms(1)
proof (induction fuel arbitrary: w)
  case 0
  show ?case by (intro exI [of _ 0]) simp
next
  case (Suc fuel)
  obtain ty data err w1 where r: "wb_Read a w = ((ty, data, err), w1)" by (metis prod_cases3 surj_pair)
  show ?case
  proof (cases err)
    case (Some e)
    with r reads_next [OF r] show ?thesis by (intro exI [of _ 0]) (simp add: src wsConn_def)
  next
    case None
    with reads_next [OF r] have i: "sent w1 = sent w" "inbox w = (ty, data) # inbox w1" by simp_all
    with Suc.prems have t: "(if ty = MessageBinary then MessageBinary else MessageText) = ty" and l: "list_all is_message (inbox w1)"
      by (auto simp: is_message_def [of "(_, _)"])
    obtain werr w2 where wr: "wb_Write b ty data w1 = (werr, w2)" by fastforce
    note o = writes_next [OF wr]
    show ?thesis
    proof (cases werr)
      case (Some e)
      with o i have "sent w2 = sent w @ take 0 (inbox w) \<or> sent w2 = sent w @ take 1 (inbox w)" by auto
      moreover have "snd (pump_loop (Suc fuel) src dst w) = w2"
        using r None wr Some t by (simp add: src dst wsConn_def)
      ultimately show ?thesis using i(2) by (metis One_nat_def Suc_leI le0 length_Cons zero_less_Suc)
    next
      case none: None
      have p: "pump_loop (Suc fuel) src dst w = pump_loop fuel src dst w2"
        using r None wr none t by (simp add: src dst wsConn_def)
      obtain n where "n \<le> length (inbox w2)" "sent (snd (pump_loop fuel src dst w2)) = sent w2 @ take n (inbox w2)"
        using Suc.IH [of w2] l o by auto
      with o none i show ?thesis unfolding p by (intro exI [of _ "Suc n"]) simp
    qed
  qed
qed

end

section \<open>The terminal's bytes\<close>

text \<open>A pair of sockets that never fail until the browser has nothing more to say: the library's laws hold for it.\<close>

record sockets =
  sk_inbox :: "message list"
  sk_sent :: "message list"

definition queue_socket :: "sockets websocket" where
  "queue_socket =
    \<lparr>wb_Read = (\<lambda>w. case sk_inbox w of [] \<Rightarrow> ((0, [], Some (Errorf ''EOF'')), w) | (t, d) # ms \<Rightarrow> ((t, d, None), w\<lparr>sk_inbox := ms\<rparr>)),
     wb_Write = (\<lambda>t d w. (None, w\<lparr>sk_sent := sk_sent w @ [(t, d)]\<rparr>)),
     wb_Close = (\<lambda>c r w. (None, w))\<rparr>"

interpretation queues: websocket_pair queue_socket queue_socket sk_inbox sk_sent
  by unfold_locales (auto simp: queue_socket_def split: list.splits)

text \<open>
  The two adapters keep the kind of every message: pumping from the browser's socket to the terminal's, or
  back, sends a prefix of the messages that arrive, text as text and binary as binary, with their data
  unchanged, however long it runs and whichever call fails.
\<close>

theorem pump_keeps_kind:
  assumes "websocket_pair a b inbox sent" and "list_all is_message (inbox w)"
  shows "(\<exists>n \<le> length (inbox w). sent (snd (pump_loop fuel (wsPeer a) (wsConn b) w)) = sent w @ take n (inbox w)) \<and>
    (\<exists>n \<le> length (inbox w). sent (snd (pump_loop fuel (wsConn a) (wsPeer b) w)) = sent w @ take n (inbox w))"
  by (intro conjI websocket_pair.pump_passes [OF assms]) (simp_all add: wsConn_def wsPeer_def)

theorem pump_keeps_kind_witness:
  "\<exists>n \<le> 2. sk_sent (snd (pump_loop 5 (wsPeer queue_socket) (wsConn queue_socket)
      \<lparr>sk_inbox = [(MessageBinary, ''ls''), (MessageText, ''resize'')], sk_sent = []\<rparr>)) =
    take n [(MessageBinary, ''ls''), (MessageText, ''resize'')]"
  using pump_keeps_kind [OF queues.websocket_pair_axioms,
      of "\<lparr>sk_inbox = [(MessageBinary, ''ls''), (MessageText, ''resize'')], sk_sent = []\<rparr>" 5]
  by (simp add: is_message_def numeral_2_eq_2)

end
