(* ===== verification/Run_Limits.thy ===== *)
theory Run_Limits
  imports Session_Ends Api_Limits
begin

text \<open>
  What the run of a session does to the numbers of live sessions: nothing, as long as the session has not been
  replaced. It writes versions of one record, which counts once, and ends it. The run of a session that \<open>Create\<close> has
  replaced in the meantime does raise a number, since it writes the status of a living session over the
  ended record.
\<close>

section \<open>A session that still counts\<close>

text \<open>The record of the session is stored, is the one of that visitor, and is not ended.\<close>

definition still_live :: "string \<Rightarrow> string \<Rightarrow> string \<Rightarrow> (string \<times> session) list \<Rightarrow> bool" where
  "still_live dev ip k kss \<longleftrightarrow>
    (case map_of kss k of None \<Rightarrow> False | Some c \<Rightarrow> Live c \<and> s_Device c = dev \<and> s_IP c = ip)"

definition sessions_in :: "'a mworld_scheme \<Rightarrow> (string \<times> session) list" where
  "sessions_in w = mm_sessions (mw_mem w)"

definition counted ::
  "(string \<Rightarrow> string \<Rightarrow> bool) \<Rightarrow> int \<Rightarrow> string \<Rightarrow> string \<Rightarrow> string \<Rightarrow> 'a mworld_scheme mstate \<Rightarrow> bool" where
  "counted Q N dev ip k st \<longleftrightarrow> bounded Q N st \<and> still_live dev ip k (view_of sessions_in st)"

definition version_of :: "string \<Rightarrow> string \<Rightarrow> string \<Rightarrow> session \<Rightarrow> bool" where
  "version_of dev ip k s \<longleftrightarrow> s_ID s = k \<and> s_Device s = dev \<and> s_IP s = ip \<and> Live s"

lemma bounded_view: "bounded Q N st \<Longrightarrow> view_of sessions_in st' = view_of sessions_in st \<Longrightarrow> bounded Q N st'"
  by (rule bounded_same) (simp_all add: view_of_def sessions_in_def)

lemma counted_view: "counted Q N dev ip k st \<Longrightarrow> view_of sessions_in st' = view_of sessions_in st \<Longrightarrow> counted Q N dev ip k st'"
  unfolding counted_def by (simp add: bounded_view [of Q N st])

lemma quiet_sessions: "mem_quiet f \<Longrightarrow> leaves sessions_in f"
  by (simp add: mem_quiet_def leaves_def sessions_in_def)

section \<open>The run of such a session\<close>

text \<open>The platform leaves the store alone, and the other goroutines raise no count and do not end the session.\<close>

locale counted_run = api_manager m for m :: "'a mworld_scheme manager" +
  assumes create_quiet: "mem_quiet (cl_Create (sm_Sandbox m) spec)"
    and wait_quiet: "mem_quiet (cl_WaitReady (sm_Sandbox m) i t)"
    and expose_quiet: "mem_quiet (cl_ExposePort (sm_Sandbox m) i p)"
    and others_polite: "counted Q N dev ip k st \<Longrightarrow> counted Q N dev ip k (sm_Others m st)"
    and next_polite: "counted Q N dev ip k st \<Longrightarrow> counted Q N dev ip k (snd (sm_Next m j n st))"
begin

lemma builds_leave:
  "leaves sessions_in (so_GetBuild memory_store i)" "leaves sessions_in (so_UpdateBuild memory_store b)"
  "leaves sessions_in (so_CreateBuild memory_store b)" "leaves sessions_in (so_GetBuildBySHA memory_store ow rp sha)"
  "leaves sessions_in (so_GetSession memory_store i)"
  by (auto simp: leaves_def sessions_in_def mworld_defs GetBuild_def UpdateBuild_def CreateBuild_def GetBuildBySHA_def
      GetSession_def Let_def split: option.split)

lemma around: "session_surroundings m sessions_in"
  by unfold_locales
    (simp_all add: quiet_sessions builds_leave store_memory builds_memory create_quiet delete_quiet get_quiet wait_quiet
      expose_quiet keepalive_quiet now_quiet clock_quiet)

lemma counted_update:
  assumes "version_of dev ip k s"
  shows "keeps (counted Q N dev ip k)
    (on_world (so_UpdateSession (sm_Store m) s) :: ('a mworld_scheme mstate, session_exit, error option) action)"
proof (rule keepsI)
  fix st :: "'a mworld_scheme mstate" assume c: "counted Q N dev ip k st"
  let ?st' = "snd (on_world (so_UpdateSession (sm_Store m) s) st :: (session_exit + _) \<times> _)"
  from c obtain old where old: "map_of (sessions_of st) k = Some old" "Live old" "s_Device old = dev" "s_IP old = ip"
    by (auto simp: counted_def still_live_def view_of_def sessions_in_def split: option.splits)
  have v: "s_ID s = k" "s_Device s = dev" "s_IP s = ip" "Live s" using assms by (simp_all add: version_of_def)
  have put: "sessions_of ?st' = map_put k s (sessions_of st)"
    using old(1) by (simp add: on_world_def store_memory memory_store_def with_mem_def UpdateSession_def v(1))
  have "live_count (visitors Q) (map snd (map_put k s (sessions_of st))) \<le> live_count (visitors Q) (map snd (sessions_of st))"
    by (rule live_count_replace [OF old(1)]) (simp add: old visitors_def v)
  moreover have "sessions_ok ?st'" using c sessions_ok_put [of st ?st' s] put by (simp add: counted_def bounded_def v(1))
  ultimately show "counted Q N dev ip k ?st'"
    using c by (simp add: counted_def bounded_def session_list_def put still_live_def view_of_def sessions_in_def v)
qed

lemma end_returns: "\<exists>st'. end_session m s reason st = (Inr () :: session_exit + unit, st')"
  by (auto simp: end_session_def bindS_def thenS_def on_world_def change_log_def emit_session_def modifyS_def drop_live_def
      split: prod.split)

lemma run_counted: "session_invariant m sessions_in (version_of dev ip) (counted Q N dev ip) (\<lambda>_. bounded Q N)"
proof (intro session_invariant.intro session_invariant_axioms.intro around)
  fix k show "session_surroundings.framed sessions_in (counted Q N dev ip k :: 'a mworld_scheme mstate \<Rightarrow> bool)"
    unfolding session_surroundings.framed_def [OF around] using counted_view by blast
next
  fix k i f show "keeps (counted Q N dev ip k) (change_log i f :: ('a mworld_scheme mstate, session_exit, unit) action)"
    by (rule keepsI) (auto simp: counted_def view_of_def sessions_in_def intro: keepsD [OF keeps_change_log])
next
  fix k s and st :: "'a mworld_scheme mstate" assume "counted Q N dev ip k st" "fst (so_GetSession (sm_Store m) k (hb_world (ms_hub st))) = Inr s"
  then show "version_of dev ip k s"
    by (auto simp: counted_def bounded_def sessions_ok_def still_live_def version_of_def view_of_def sessions_in_def Let_def
        store_memory mworld_defs GetSession_def list_all_iff split: option.splits dest!: map_of_SomeD)
next
  fix k s reason and st :: "'a mworld_scheme mstate" assume "version_of dev ip k s" "counted Q N dev ip k st"
  moreover obtain st' where "end_session m s reason st = (Inr () :: session_exit + unit, st')" using end_returns by blast
  moreover have "bounded Q N (snd (end_session m s reason st :: (session_exit + unit) \<times> _))" if "bounded Q N st"
    by (rule keepsD [OF keeps_end_session that])
  ultimately show "\<exists>st'. end_session m s reason st = (Inr () :: session_exit + unit, st') \<and> bounded Q N st'"
    by (auto simp: counted_def)
qed (auto simp: counted_update others_polite next_polite version_of_def Live_def live_session_def session_statuses)

text \<open>A run that starts while its session counts raises the number of no one, however it leaves.\<close>

lemma run_keeps_count:
  assumes "bounded Q N st" and "Live s" and "still_live (s_Device s) (s_IP s) (s_ID s) (view_of sessions_in st)"
  shows "bounded Q N (snd (session_run fuel m s b i st))"
proof -
  obtain r st' where r: "session_run fuel m s b i st = (r, st')" by fastforce
  have "counted Q N (s_Device s) (s_IP s) (s_ID s) st" "version_of (s_Device s) (s_IP s) (s_ID s) s"
    using assms by (simp_all add: counted_def version_of_def)
  from session_invariant.run_ends [OF run_counted this(2,1) r] r show ?thesis
    by (auto simp: counted_def split: if_splits)
qed

text \<open>The run as a step of the program at work, when its session still counts.\<close>

end

definition live_run ::
  "nat \<Rightarrow> 'a mworld_scheme manager \<Rightarrow> session \<Rightarrow> build \<Rightarrow> info \<Rightarrow> 'a mworld_scheme sstate \<Rightarrow> 'a mworld_scheme sstate" where
  "live_run fuel m s b i st =
    (if Live s \<and> still_live (s_Device s) (s_IP s) (s_ID s) (view_of sessions_in (ss_sessions st))
     then snd (with_sessions (session_run fuel m s b i) st) else st)"

context counted_run
begin

lemma live_run_opens_none: "opens_none (live_run fuel m s b i)"
  using run_keeps_count [of _ _ _ s fuel b i]
  by (auto simp: opens_none_def live_run_def with_sessions_def split: prod.split) (metis snd_conv)

end

lemma fake_polite:
  assumes "counted Q N dev ip k st"
  shows "counted Q N dev ip k (sm_Others (fake_manager cd rs lm) st)"
    and "counted Q N dev ip k (snd (sm_Next (fake_manager cd rs lm) j n st))"
  using assms
  by (simp_all add: fake_manager_def)
    (rule counted_view [OF assms], simp add: view_of_def sessions_in_def world_sleep_def Let_def)

interpretation fake_counted: counted_run "fake_manager cd rs lm" for cd rs lm
  by (intro counted_run.intro counted_run_axioms.intro fake_api.api_manager_axioms) (simp_all add: fake_quiet fake_polite)

section \<open>A session that was replaced\<close>

text \<open>
  The first session of a device was replaced before its run could restore a sandbox; the second one is live. Then
  the run of the first goes on, and the device has two live sessions, on any limit: nothing in \<open>run\<close> looks at the stored
  status before it writes its own.
\<close>

definition revived_build :: build where
  "revived_build = no_build\<lparr>b_ID := ''b1'', b_Status := BuildReady, b_SnapshotID := ''snap''\<rparr>"

definition revived_session :: session where
  "revived_session = no_session\<lparr>s_ID := ''0123456789'', s_BuildID := ''b1'', s_Device := ''d'', s_Status := SessionBuilding\<rparr>"

definition revived_state :: "world mstate" where
  "revived_state = \<lparr>ms_hub = \<lparr>hb_world = \<lparr>mw_mem = NewMemory\<lparr>mm_builds := [(''b1'', revived_build)],
        mm_sessions := [(''0123456789'', ended revived_session ''replaced by a new session''),
          (''second'', revived_session\<lparr>s_ID := ''second''\<rparr>)]\<rparr>,
      mw_host = \<lparr>h_clock = int, h_rand = (\<lambda>n. replicate (Suc n) (CHR ''x'')), h_now = 5, h_id = 0\<rparr>,
      wd_fake = NewFake\<lparr>fk_Snapshots := [(''snap'', \<lparr>sn_ID = ''snap'', sn_SandboxID = ''sb-0'', sn_Status = SnapshotReady, sn_Error = [],
        sn_SizeBytes = 1\<rparr>)]\<rparr>\<rparr>, hb_runs = [], hb_active = []\<rparr>,
    ms_logs = [(''0123456789'', New), (''second'', New)], ms_live = [''second''], ms_spawned = []\<rparr>"

lemma replaced_run_revives:
  "live_count (\<lambda>s. s_Device s = ''d'') (session_list revived_state) = 1"
  "live_count (\<lambda>s. s_Device s = ''d'')
    (session_list (snd (session_run 1 ends_manager revived_session revived_build demo_info revived_state))) = 2"
  "lm_PerDevice (sm_Limits ends_manager) = 1"
  unfolding ends_manager_def revived_state_def revived_session_def revived_build_def by code_simp+

end
