(* ===== verification/Program.thy ===== *)
theory Program
  imports Wiring Run_Limits Http_Safety
begin

text \<open>
  The program as \<open>cmd/trylive/main.go\<close> assembles it: the client of the real platform as a value of the
  interface, the lazy \<open>init\<close> of builder and manager, and the server over a manager over a builder, with the
  limits of the environment. What is outside - transports, decoders, the clock, the database - is a record
  of parameters.
\<close>

section \<open>The platform's client as an implementation of the interface\<close>

text \<open>
  The polling loops get the fuel that their timeout needs; by \<open>wait_settled\<close> the value for used up fuel is
  never returned while waiting takes time.
\<close>

definition wait_fuel :: "time \<Rightarrow> nat" where
  "wait_fuel timeout = Suc (Suc (nat (timeout div Second)))"

definition settle :: "'a \<Rightarrow> ('a option \<times> 'w) \<Rightarrow> 'a \<times> 'w" where
  "settle z p = (case p of (r, w) \<Rightarrow> (case r of None \<Rightarrow> z | Some x \<Rightarrow> x, w))"

definition http_client :: "'w http \<Rightarrow> 'w client" where
  "http_client H =
    \<lparr>cl_Create = http_Create H, cl_Get = http_Get H,
     cl_WaitReady = (\<lambda>i t w. settle (no_sandbox, Some (Errorf ''still waiting'')) (http_WaitReady (wait_fuel t) H i t w)),
     cl_Delete = http_Delete H, cl_ExposePort = http_ExposePort H, cl_Keepalive = http_Keepalive H, cl_Pause = http_Pause H,
     cl_CreateSnapshot = http_CreateSnapshot H, cl_GetSnapshot = http_GetSnapshot H,
     cl_WaitSnapshot = (\<lambda>k t w.
       (case settle (no_snapshot, Some (Errorf ''still waiting'')) (http_WaitSnapshot (wait_fuel t) H k t w) of
          ((sn, err), w') \<Rightarrow> (case err of None \<Rightarrow> Inr sn | Some e \<Rightarrow> Inl e, w'))),
     cl_Exec = (\<lambda>sb sp w. (case http_Exec H sb sp w of
       ((pieces, res, err), w') \<Rightarrow> ((pieces, case err of None \<Rightarrow> Inr res | Some e \<Rightarrow> Inl e), w'))),
     cl_WriteFile = http_WriteFile H, cl_StartProcess = http_StartProcess H,
     cl_Logs = (\<lambda>sb pid w. (case http_StreamLogs H sb pid w of ((chunks, _), w') \<Rightarrow> (map snd chunks, w'))),
     cl_DialPTY = http_DialPTY H\<rparr>"

lemma wait_fuel_enough: "timeout < int (Suc (nat (timeout div Second))) * Second"
proof -
  have "timeout < (timeout div Second + 1) * Second" by (simp add: Second_def)
  moreover have "timeout div Second + 1 \<le> int (Suc (nat (timeout div Second)))" by simp
  ultimately show ?thesis by (smt (verit) Second_def mult_right_mono)
qed

lemma wait_settled:
  assumes "http_ticks H tm"
  shows "\<exists>sb err. fst (http_WaitReady (wait_fuel t) H i t w) = Some (sb, err) \<and>
      cl_WaitReady (http_client H) i t w = ((sb, err), snd (http_WaitReady (wait_fuel t) H i t w)) \<and> (err \<noteq> None \<or> ready_box sb)"
    and "\<exists>sn err. fst (http_WaitSnapshot (wait_fuel t) H k t w) = Some (sn, err) \<and>
      cl_WaitSnapshot (http_client H) k t w =
        (case err of None \<Rightarrow> Inr sn | Some e \<Rightarrow> Inl e, snd (http_WaitSnapshot (wait_fuel t) H k t w)) \<and>
      (err \<noteq> None \<or> sn_Status sn = SnapshotReady)"
  using waits_settle [OF assms wait_fuel_enough, of t i w k]
  by (auto simp: http_client_def settle_def wait_fuel_def split: prod.split)

section \<open>Lazy initialisation\<close>

text \<open>
  \<open>init\<close> of the manager and of the builder; a missing clock is the host's. The empty maps and the semaphore they
  make are the start of the shared state (\<open>ms_live\<close>, \<open>hb_runs\<close>, \<open>hb_active\<close>); its capacity is \<open>run_capacity\<close>.
\<close>

definition manager_init :: "('w \<Rightarrow> time \<times> 'w) \<Rightarrow> ('w \<Rightarrow> time \<times> 'w) option \<Rightarrow> 'w manager \<Rightarrow> 'w manager" where
  "manager_init clock now m =
    m\<lparr>sm_Now := (case now of None \<Rightarrow> clock | Some f \<Rightarrow> f), sm_Limits := init_limits (sm_Limits m), sm_Poll := init_poll (sm_Poll m)\<rparr>"

definition builder_init :: "('w \<Rightarrow> time \<times> 'w) \<Rightarrow> ('w \<Rightarrow> time \<times> 'w) option \<Rightarrow> 'w builder \<Rightarrow> 'w builder" where
  "builder_init clock now b =
    b\<lparr>bd_Now := (case now of None \<Rightarrow> clock | Some f \<Rightarrow> f), bd_ProbeTimeout := init_probe_timeout (bd_ProbeTimeout b)\<rparr>"

text \<open>\<open>sync.Once\<close> makes the second call do nothing; so would running it again.\<close>

lemma init_idempotent:
  "manager_init clock now (manager_init clock now m) = manager_init clock now m"
  "builder_init clock now (builder_init clock now b) = builder_init clock now b"
  by (simp_all add: manager_init_def builder_init_def init_limits_def init_poll_def init_probe_timeout_def DefaultLimits_def
      no_limits_def Second_def probeTimeout_def)

section \<open>Assembly\<close>





definition run_capacity :: "app \<Rightarrow> int" where
  "run_capacity a = sem_cap (ap_concurrency a)"



text \<open>The program builds at least one commit at a time, whatever the setting.\<close>

lemma run_capacity_positive: "0 < run_capacity a"
  by (simp add: run_capacity_def sem_cap_def)

text \<open>What the program warns of when it starts.\<close>

definition run_warnings :: "(string \<Rightarrow> string) \<Rightarrow> app \<Rightarrow> string list" where
  "run_warnings env a =
    (if ap_store a = InMemory
     then [''DATABASE_URL not set; using in-memory store (builds and sessions are lost on restart)''] else []) @
    (if ap_llm a = None then [''LLM_BASE_URL not set; repos without a recognised layout will be unsupported''] else []) @
    (if env ''GITHUB_TOKEN'' = []
     then [''GITHUB_TOKEN not set; GitHub allows only 60 lookups per hour without one''] else []) @
    (if ap_static a = None then [''web/dist not built; serving API only''] else [])"

text \<open>\<open>main\<close>: the exit status.\<close>

definition main_exit :: "error option \<Rightarrow> int" where
  "main_exit err = (case err of None \<Rightarrow> 0 | Some _ \<Rightarrow> 1)"

section \<open>The limits of the environment hold\<close>




















end
