(* ===== verification/Spec2Isabelle.thy ===== *)
theory Spec2Isabelle
  imports Detectors Fanout Probe Repo Fake Memory Session_Ends Session_Replay Session_Returns
    Http_Safety Http_Api_Safety Wiring Postgres_Refines Api_Limits Migrations Http_Metrics Terminal Program
begin

text \<open>
  This library models \<^emph>\<open>trylive\<close> (the Go program under \<open>src/\<close>): a visitor names a GitHub repository, the
  program builds it once per commit in a sandbox of a remote platform, keeps a snapshot of the running
  app, and gives every visitor a sandbox restored from it, with a preview address and a terminal, for a
  limited time.

  \<^bold>\<open>The program and its theories.\<close> A request enters at \<open>internal/httpapi\<close>, whose handlers call the session
  manager (\<open>internal/session\<close>); the manager resolves the repository (\<open>internal/repo\<close>), asks the builder
  (\<open>internal/builder\<close>) for the build of the commit, and runs the session. The builder finds out how to run
  the repository (\<open>internal/recipe\<close>: detectors, then a language model), and drives the platform through
  the interface of \<open>internal/sandbox\<close>. Both keep their records in a store (\<open>internal/store\<close>) and publish
  their progress in event logs (\<open>internal/fanout\<close>).

  \<^item> \<open>Prelude\<close>, \<open>Go_Strings\<close>, \<open>Go_Space\<close>, \<open>Go_Conv\<close>: errors and \<open>errors.Is\<close>, association lists as Go maps, the state
    monad with exits (\<open>bindS\<close>, \<open>throwS\<close>), and the parts of \<open>strings\<close>, \<open>strconv\<close>, \<open>unicode\<close> and \<open>net/url\<close>
    that the program uses, on byte strings. \<open>Json_Text\<close>: JSON values and \<open>encoding/json\<close>'s text of them.
  \<^item> \<open>Fanout\<close> (\<open>fanout.go\<close>): the log, and the goroutine of a subscriber as a step relation.
  \<^item> \<open>Recipe\<close>, \<open>Detectors\<close>, \<open>Model_Recipe\<close> (\<open>recipe.go\<close>, \<open>detectors.go\<close>, \<open>inspector.go\<close>, \<open>model.go\<close>): recipes and
    their validation, the nine detectors in order, the prompts and replies of the model.
  \<^item> \<open>Repo\<close> (\<open>repo.go\<close>), \<open>Probe\<close> (\<open>probe.go\<close>): repository references; listening ports.
  \<^item> \<open>Store_Types\<close> (\<open>store.go\<close>): the records and the interface, a record of operations on a world, with its
    laws as the locales \<open>build_store\<close> and \<open>session_store\<close>. \<open>Memory\<close> (\<open>memory.go\<close>) interprets both;
    \<open>Postgres\<close> (\<open>postgres.go\<close>) has tables as lists of rows, the constraints of the schema, statements that
    may fail, and migrations; \<open>Postgres_Refines\<close> relates the two, \<open>Migrations\<close> is about starting it.
  \<^item> \<open>Platform\<close> (\<open>client.go\<close>): the interface of the sandbox platform and its laws as the locale \<open>platform\<close>.
    \<open>Fake\<close> (\<open>fake.go\<close>) interprets it. \<open>Http_Client\<close> and \<open>Http_Safety\<close> (\<open>http.go\<close>): the client of the real one.
  \<^item> \<open>Builder\<close> (\<open>builder.go\<close>, \<open>execute\<close> and what it calls): an execution as a program in the state monad, with
    a trace of its calls of the platform and of the exit codes of its commands; \<open>Builder_Safety\<close>, \<open>Builder_World\<close>,
    \<open>Builder_Returns\<close> prove what it runs, what it leaves and that it does not hang; \<open>Builder_Example\<close> evaluates it. \<open>Builder_Hub\<close>: the state that
    builds share - \<open>Ensure\<close>, \<open>start\<close>, \<open>Subscribe\<close>, the map of runs, the semaphore - as steps.
  \<^item> \<open>Session\<close> (\<open>session.go\<close>): \<open>Create\<close>, \<open>run\<close> with \<open>follow\<close>, \<open>restore\<close>, \<open>rebuild\<close> and the watch, \<open>terminate\<close>, \<open>Extend\<close>,
    \<open>Subscribe\<close>, \<open>PTY\<close>, \<open>Get\<close>. \<open>Session_Limits\<close>, \<open>Session_Ends\<close>, \<open>Session_Replay\<close> hold its theorems;
    \<open>Session_Protocol\<close> is an automaton over the events of a session, which the log of every run refines;
    \<open>Session_Story\<close> follows a session from \<open>Create\<close> to its end, \<open>Session_Returns\<close> proves that \<open>run\<close> returns.
  \<^item> \<open>Http_Api\<close>, \<open>Http_Api_Safety\<close> (\<open>server.go\<close>, \<open>badge.go\<close>, \<open>pty.go\<close>, \<open>metrics.go\<close>): router, handlers, error and wire
    shapes, event streams, the files of the web app, the terminal relay as a step relation. \<open>Api_Limits\<close>: the
    router, the manager and the store together keep the limits on sessions; \<open>Run_Limits\<close>: so do the runs of sessions
    that were not replaced. \<open>Http_Metrics\<close>: the counters and the request log. \<open>Terminal\<close>: the adapters \<open>wsConn\<close> and \<open>wsPeer\<close> over a socket of the websocket library, and a pump
    over them as a function.
  \<^item> \<open>Wiring\<close> (\<open>main.go\<close>, \<open>embed.go\<close>, \<open>OpenAICompat\<close> of \<open>model.go\<close>): how the program is set up from its environment;
    \<open>Program\<close> assembles manager, builder and server from it, with the client of the real platform.

  \<^bold>\<open>Conventions.\<close> A string is a list of bytes. A Go \<open>int\<close> is an \<open>int\<close> of the logic where the code only counts;
  \<open>Atoi\<close> has the range of 64 bits. A time or duration is a number of nanoseconds, the zero time is 0, a
  pointer to a value is an option. A method with a receiver takes and returns the state of the receiver;
  an error is a value of \<open>error\<close>, so every early return is a branch. What is not under \<open>src/\<close> is a parameter:
  the YAML and JSON decoders, GitHub's answers, the transport of HTTP requests, the websocket library, the
  SQL columns' precision, the clock and the random numbers.

  \<^bold>\<open>Interleaving.\<close> A section under a mutex is one step. \<open>Create\<close> of the session manager holds no mutex between its checks
  and its insertion, but is one step here as well: what the theorems say of the limits holds when requests are
  served one after the other, and the race of concurrent ones is not modelled. In \<open>Fanout\<close> and in the relay every statement that can
  block is a step of its own, and the theorems hold in every interleaving. In \<open>Builder_Hub\<close> calls and ends
  of runs interleave. An execution of \<open>run\<close> hands control to the other goroutines exactly where it waits
  (\<open>sm_Next\<close> for the next event of a build, \<open>sm_Others\<close> at a tick of the watch): what they do there to the
  state is a parameter of the manager, and the laws that the theorems need of it are assumptions of
  \<open>session_invariant\<close>, of \<open>unreliable_manager\<close> (a store that may fail at any call), \<open>session_manager\<close> (one that keeps its
  laws), \<open>watched_sessions\<close>, \<open>session_protocol\<close> and \<open>counted_run\<close>; \<open>session_protocol\<close> is interpreted for a manager whose
  other visitors extend and replace sessions at every wait (\<open>visited_manager\<close>, \<open>visited_timed\<close>).

  \<^bold>\<open>Loops and fuel.\<close> The polling loops have fuel, and running out of it is the value \<open>None\<close>, so that a theorem
  that a loop returns is proved as such: \<open>build_returns\<close> (the probe loop needs one turn more than pauses fit
  into the timeout: 47 with the constants of the code; the outcome is then a return or the panic of a slice), \<open>session_run_returns\<close> (one turn more than the build has
  events, and than polling intervals fit into the longer window of a session: 61 with the constants of the
  code), \<open>http_waits_return\<close> (one turn more than seconds fit into the timeout).
  \<open>Program.http_client\<close> chooses this fuel from the timeout, and \<open>wait_settled\<close> shows that it suffices.

  \<^bold>\<open>What the theorems show.\<close>
  \<^item> \<^emph>\<open>Safety of what is run.\<close> Recipes: every accepted command is an allow-listed program with words that contain
    none of the strings of \<open>forbiddenTokens\<close>, which are not all the operators of a shell (\<open>accepted_metacharacters\<close>),
    and \<open>Validate\<close> is exactly the specification \<open>recipe_ok\<close>; the detectors and the model only
    deliver valid recipes; every command of a build is one of the builder's or such a command, whatever
    platform, store, model and clock do.
  \<^item> \<^emph>\<open>Builds.\<close> At most one build of a commit is stored or under way; a build that returns has settled, and a ready
    one records the recipe that ran, repairs included; no build hangs, and it returns for a commit of at least
    seven and an identifier of at least six characters; it leaves no sandbox but the golden one of a ready build.
  \<^item> \<^emph>\<open>Sessions.\<close> \<open>Create\<close> respects the limits (with the exception that the theorem states), and no sequence
    of requests served one after the other, with steps between them that raise no number of live sessions, gets beyond
    those of a device and of the program; a session that
    runs ends, is extended at most once, tells its listeners a story that the protocol accepts; the
    stored log of a build replays what was logged, line by line. The program assembled from its environment keeps the
    limits of the environment under the same provisos; the run of a session that was replaced breaks them
    (\<open>replaced_run_revives\<close>).
  \<^item> \<^emph>\<open>Stores.\<close> The in-process store is well formed, loses no visit, and answers its queries exactly; the
    PostgreSQL store refines it for calls that keep the discipline of \<open>Postgres_Refines\<close>, and its migrations are applied once and in order, whatever fails.
  \<^item> \<^emph>\<open>Events.\<close> Subscribers get the history in order, completely, without a lost wake-up; event streams are read
    back as they were sent; together, a browser sees the history of its session (at the end of this theory);
    the relay is faithful and keeps the kind of every message; the metrics count what was answered.
  \<^item> \<^emph>\<open>Interfaces.\<close> Requests to the platform and to GitHub stay where they belong, sentinel errors mean what the
    platform said, error responses leak nothing, the web app serves only its own files.

  \<^bold>\<open>Not modelled.\<close> The libraries: pgx and the database behind it, the websocket library, the registry and the
  exposition of Prometheus, \<open>slog\<close>, the redirects of the router of \<open>net/http\<close>; signals and the shutdown of the
  HTTP server, whose effect is what listening returns; the script that \<open>inspector.go\<close> embeds (JavaScript that
  runs in the sandbox). The tables take every string and every integer: PostgreSQL refuses a text with a zero byte or broken
  UTF-8 and an integer beyond its column. The body of \<open>/metrics\<close> is left empty. Timeouts of contexts appear as errors that an operation may return, not as clocks.
\<close>

section \<open>From the log of a session to the browser\<close>

text \<open>What a browser reads from the response of \<open>handleEvents\<close>, and what it should read of an event.\<close>

definition browser_reads :: "(time \<Rightarrow> string) \<Rightarrow> sevent option list \<Rightarrow> (string \<times> string) list" where
  "browser_reads fmt turns = sse_read [] [] (SplitByte (CHR 0x0A) (sse_body fmt turns))"

definition shown :: "(time \<Rightarrow> string) \<Rightarrow> sevent \<Rightarrow> string \<times> string" where
  "shown fmt ev = (event_name ev, json_text (event_json fmt ev))"

lemma browser_reads_shown: "browser_reads fmt turns = map (shown fmt) (List.map_filter id turns)"
  by (simp add: browser_reads_def sse_read_body shown_def [abs_def])

text \<open>
  C24: A browser sees the history of the session. The handler writes the events that its subscription
  receives, with heartbeats anywhere between them; then, in every interleaving of the session's calls with
  all subscribers, the browser reads the beginning of the sequence of all events of the session, in order
  and without gap or repetition; and once the channel is closed while the browser is still there, it has
  read every event emitted before the log was finished.
\<close>

theorem browser_sees_history:
  assumes "log_run New as l" and "i < length (lg_subs l)"
    and "List.map_filter id turns = sb_got (lg_subs l ! i)"
  shows "prefix (browser_reads fmt turns) (map (shown fmt) (emitted as)) \<and>
    (sb_closed (lg_subs l ! i) \<and> sb_out (lg_subs l ! i) = [] \<and> \<not> sb_ctx (lg_subs l ! i) \<longrightarrow>
      CallFinish \<in> set as \<and> prefix (map (shown fmt) (emitted (before_finish as))) (browser_reads fmt turns))"
proof -
  have "prefix (sb_got (lg_subs l ! i)) (emitted as)"
    using run_prefix [OF assms(1,2)] by (rule append_prefixD)
  moreover have "CallFinish \<in> set as \<and> prefix (emitted (before_finish as)) (sb_got (lg_subs l ! i))"
    if "sb_closed (lg_subs l ! i)" "sb_out (lg_subs l ! i) = []" "\<not> sb_ctx (lg_subs l ! i)"
    using closed_complete [OF assms(1,2) that(1,3)] that(2) by simp
  ultimately show ?thesis by (auto simp: browser_reads_shown assms(3) map_mono_prefix)
qed

text \<open>
  What the browser has read is a story of the protocol whenever the log of the session is one, which
  \<open>run_follows_protocol\<close> shows for every run.
\<close>

lemma reads_prefix: "prefix evs evs' \<Longrightarrow> reads evs' g \<noteq> None \<Longrightarrow> reads evs g \<noteq> None"
  by (auto simp: prefix_def reads_append split: option.splits)

lemma browser_reads_story:
  assumes "log_run New as l" and "i < length (lg_subs l)" and "List.map_filter id turns = sb_got (lg_subs l ! i)"
    and "reads (emitted as) Opening \<noteq> None"
  shows "reads (List.map_filter id turns) Opening \<noteq> None"
  using run_prefix [OF assms(1,2)] assms(3,4) by (metis append_prefixD reads_prefix)

text \<open>A browser that connects after the first event and stays until the log is finished.\<close>

definition visit_acts :: "sevent act list" where
  "visit_acts =
    [CallEmit (TerminalData True), CallSubscribe, CallEmit (EndedData ''idle''), Run 0, Run 0, Run 0, Run 0, Run 0,
     CallFinish, Run 0, Run 0, Run 0, Run 0, Recv 0, Recv 0]"

definition visit_turns :: "sevent option list" where
  "visit_turns = [None, Some (TerminalData True), None, Some (EndedData ''idle'')]"

theorem browser_sees_history_witness:
  "browser_reads (\<lambda>_. []) visit_turns =
     [(''terminal'', [CHR 123, CHR 34] @ ''ready'' @ [CHR 34] @ '':true'' @ [CHR 125]),
      (''ended'', [CHR 123, CHR 34] @ ''reason'' @ [CHR 34] @ '':'' @ [CHR 34] @ ''idle'' @ [CHR 34, CHR 125])] \<and>
   prefix (map (shown (\<lambda>_. [])) (emitted (before_finish visit_acts))) (browser_reads (\<lambda>_. []) visit_turns) \<and>
   length (emitted (before_finish visit_acts)) = 2"
proof -
  let ?l = "the (do_acts New visit_acts)"
  have "do_acts New visit_acts = Some ?l" by code_simp
  then have run: "log_run New visit_acts ?l" by (rule do_acts_run)
  have n: "0 < length (lg_subs ?l)" and t: "List.map_filter id visit_turns = sb_got (lg_subs ?l ! 0)"
    and c: "sb_closed (lg_subs ?l ! 0)" "sb_out (lg_subs ?l ! 0) = []" "\<not> sb_ctx (lg_subs ?l ! 0)"
    and e: "length (emitted (before_finish visit_acts)) = 2"
    and b: "browser_reads (\<lambda>_. []) visit_turns =
     [(''terminal'', [CHR 123, CHR 34] @ ''ready'' @ [CHR 34] @ '':true'' @ [CHR 125]),
      (''ended'', [CHR 123, CHR 34] @ ''reason'' @ [CHR 34] @ '':'' @ [CHR 34] @ ''idle'' @ [CHR 34, CHR 125])]"
    by code_simp+
  from browser_sees_history [OF run n t, of "\<lambda>_. []"] c e b show ?thesis by blast
qed

end
